(* ===== verification/Prelude.thy ===== *)
theory Prelude
  imports Main "HOL-Library.Word" "HOL-Library.Multiset"
begin

text \<open>
  Shared vocabulary of the development.

  The C programs of the repository are sequences of calls into code outside their own file
  (the DDS C API, the JNI function table, libc), with early returns, static variables and loops
  between the calls. They are modelled as trees: a \<open>prog\<close> either ends with an outcome or
  makes a call and continues with whatever the callee answers, or reads or writes the static
  variables of the file. Nothing is assumed about the answers unless a theorem says so:
  \<open>wpt G Q p s tr\<close> quantifies over every answer that satisfies the guarantee \<open>G\<close>.
  \<open>run\<close> executes a program against one concrete environment, and \<open>wpt_run\<close> relates
  the two.
\<close>

section \<open>Fact collections\<close>

named_theorems wpt_simps \<open>weakest-precondition equations of the program constructs\<close>
named_theorems wpt_intros \<open>rules that establish a weakest precondition for a loop or a call\<close>

section \<open>Programs\<close>

text \<open>
  How a C function can end: with a value; by \<open>exit\<close>; by an abort or by undefined
  behaviour such as a null dereference; or, for a loop run with a bound on its iterations, by
  still running when the bound is used up.
\<close>

datatype 'a outcome = Val 'a | Exit int | Crash string | OutOfFuel

datatype ('s, 'c, 'r, 'a) prog =
    Leaf "'a outcome"
  | Call 'c "'r \<Rightarrow> ('s, 'c, 'r, 'a) prog"
  | Get "'s \<Rightarrow> ('s, 'c, 'r, 'a) prog"
  | Put 's "('s, 'c, 'r, 'a) prog"

text \<open>The calls made so far with their answers, newest first.\<close>

type_synonym ('c, 'r) trace = "('c \<times> 'r) list"

abbreviation Return :: "'a \<Rightarrow> ('s, 'c, 'r, 'a) prog" where
  "Return a \<equiv> Leaf (Val a)"

text \<open>A call whose answer the program ignores.\<close>

definition Do :: "'c \<Rightarrow> ('s, 'c, 'r, 'a) prog \<Rightarrow> ('s, 'c, 'r, 'a) prog" where
  "Do c p = Call c (\<lambda>_. p)"

primrec bind_prog ::
  "('s, 'c, 'r, 'a) prog \<Rightarrow> ('a \<Rightarrow> ('s, 'c, 'r, 'b) prog) \<Rightarrow> ('s, 'c, 'r, 'b) prog" where
  "bind_prog (Leaf x) f =
     (case x of Val a \<Rightarrow> f a | Exit n \<Rightarrow> Leaf (Exit n) | Crash m \<Rightarrow> Leaf (Crash m)
      | OutOfFuel \<Rightarrow> Leaf OutOfFuel)"
| "bind_prog (Call c k) f = Call c (\<lambda>r. bind_prog (k r) f)"
| "bind_prog (Get k) f = Get (\<lambda>s. bind_prog (k s) f)"
| "bind_prog (Put s p) f = Put s (bind_prog p f)"

lemma bind_prog_Do [simp]: "bind_prog (Do c p) f = Do c (bind_prog p f)"
  by (simp add: Do_def)

lemma bind_prog_assoc:
  "bind_prog (bind_prog p f) g = bind_prog p (\<lambda>a. bind_prog (f a) g)"
  by (induction p) (auto split: outcome.splits)

lemma bind_prog_Return [simp]: "bind_prog p Return = p"
  by (induction p) (auto split: outcome.splits)

section \<open>Execution against one environment\<close>

text \<open>The environment answers a call from the calls made before it.\<close>

type_synonym ('c, 'r) env = "('c, 'r) trace \<Rightarrow> 'c \<Rightarrow> 'r"

primrec run ::
  "('c, 'r) env \<Rightarrow> ('s, 'c, 'r, 'a) prog \<Rightarrow> 's \<Rightarrow> ('c, 'r) trace
     \<Rightarrow> 'a outcome \<times> 's \<times> ('c, 'r) trace" where
  "run e (Leaf x) = (\<lambda>s tr. (x, s, tr))"
| "run e (Call c k) = (\<lambda>s tr. run e (k (e tr c)) s ((c, e tr c) # tr))"
| "run e (Get k) = (\<lambda>s tr. run e (k s) s tr)"
| "run e (Put s' p) = (\<lambda>s tr. run e p s' tr)"

lemma run_Do [simp]: "run e (Do c p) s tr = run e p s ((c, e tr c) # tr)"
  by (simp add: Do_def)

lemma run_bind_prog:
  "run e (bind_prog p f) s tr =
     (case run e p s tr of (x, s', tr') \<Rightarrow>
        (case x of Val a \<Rightarrow> run e (f a) s' tr' | Exit n \<Rightarrow> (Exit n, s', tr')
         | Crash m \<Rightarrow> (Crash m, s', tr') | OutOfFuel \<Rightarrow> (OutOfFuel, s', tr')))"
  by (induction p arbitrary: s tr) (auto split: outcome.splits)

section \<open>All executions\<close>

primrec wpt ::
  "(('c, 'r) trace \<Rightarrow> 'c \<Rightarrow> 'r \<Rightarrow> bool)
     \<Rightarrow> ('a outcome \<Rightarrow> 's \<Rightarrow> ('c, 'r) trace \<Rightarrow> bool)
     \<Rightarrow> ('s, 'c, 'r, 'a) prog \<Rightarrow> 's \<Rightarrow> ('c, 'r) trace \<Rightarrow> bool" where
  "wpt G Q (Leaf x) = (\<lambda>s tr. Q x s tr)"
| "wpt G Q (Call c k) = (\<lambda>s tr. \<forall>r. G tr c r \<longrightarrow> wpt G Q (k r) s ((c, r) # tr))"
| "wpt G Q (Get k) = (\<lambda>s tr. wpt G Q (k s) s tr)"
| "wpt G Q (Put s' p) = (\<lambda>s tr. wpt G Q p s' tr)"

abbreviation any_answer :: "('c, 'r) trace \<Rightarrow> 'c \<Rightarrow> 'r \<Rightarrow> bool" where
  "any_answer \<equiv> (\<lambda>_ _ _. True)"

lemma wpt_Do [simp, wpt_simps]:
  "wpt G Q (Do c p) s tr = (\<forall>r. G tr c r \<longrightarrow> wpt G Q p s ((c, r) # tr))"
  by (simp add: Do_def)

text \<open>The postcondition of a bound program: failures pass through, values go on.\<close>

definition after ::
  "(('c, 'r) trace \<Rightarrow> 'c \<Rightarrow> 'r \<Rightarrow> bool)
     \<Rightarrow> ('b outcome \<Rightarrow> 's \<Rightarrow> ('c, 'r) trace \<Rightarrow> bool) \<Rightarrow> ('a \<Rightarrow> ('s, 'c, 'r, 'b) prog)
     \<Rightarrow> 'a outcome \<Rightarrow> 's \<Rightarrow> ('c, 'r) trace \<Rightarrow> bool" where
  "after G Q f x s tr =
     (case x of Val a \<Rightarrow> wpt G Q (f a) s tr | Exit n \<Rightarrow> Q (Exit n) s tr
      | Crash m \<Rightarrow> Q (Crash m) s tr | OutOfFuel \<Rightarrow> Q OutOfFuel s tr)"

lemma after_simps [simp]:
  "after G Q f (Val a) s tr = wpt G Q (f a) s tr"
  "after G Q f (Exit n) s tr = Q (Exit n) s tr"
  "after G Q f (Crash m) s tr = Q (Crash m) s tr"
  "after G Q f OutOfFuel s tr = Q OutOfFuel s tr"
  by (simp_all add: after_def)

lemma wpt_bind [simp, wpt_simps]:
  "wpt G Q (bind_prog p f) s tr = wpt G (after G Q f) p s tr"
  by (induction p arbitrary: s tr) (auto split: outcome.splits)

lemma wpt_mono:
  "wpt G Q p s tr \<Longrightarrow> (\<And>x s tr. Q x s tr \<Longrightarrow> Q' x s tr) \<Longrightarrow> wpt G Q' p s tr"
  by (induction p arbitrary: s tr) auto

lemma wpt_guarantee_mono:
  "wpt G Q p s tr \<Longrightarrow> (\<And>tr c r. G' tr c r \<Longrightarrow> G tr c r) \<Longrightarrow> wpt G' Q p s tr"
  by (induction p arbitrary: s tr) auto

lemma wpt_conj: "wpt G Q p s tr \<Longrightarrow> wpt G Q' p s tr \<Longrightarrow> wpt G (\<lambda>x s tr. Q x s tr \<and> Q' x s tr) p s tr"
  by (induction p arbitrary: s tr) auto

text \<open>
  A fact that every call and every ending keeps is kept by the whole program; the usual way to
  prove a bind is to weaken the postcondition of its first part to what its lemma gives.
\<close>

lemma wpt_bindI:
  assumes "wpt G R p s tr"
    and "\<And>a s tr. R (Val a) s tr \<Longrightarrow> wpt G Q (f a) s tr"
    and "\<And>n s tr. R (Exit n) s tr \<Longrightarrow> Q (Exit n) s tr"
    and "\<And>m s tr. R (Crash m) s tr \<Longrightarrow> Q (Crash m) s tr"
    and "\<And>s tr. R OutOfFuel s tr \<Longrightarrow> Q OutOfFuel s tr"
  shows "wpt G Q (bind_prog p f) s tr"
  unfolding wpt_bind by (rule wpt_mono [OF assms(1)]) (auto simp: after_def assms split: outcome.splits)

text \<open>Branches, without simplifying the programs in them.\<close>

lemma wpt_ifI [wpt_intros]:
  "(b \<Longrightarrow> wpt G Q p s tr) \<Longrightarrow> (\<not> b \<Longrightarrow> wpt G Q q s tr) \<Longrightarrow> wpt G Q (if b then p else q) s tr"
  by simp

lemma wpt_CallI [wpt_intros]: "(\<And>r. G tr c r \<Longrightarrow> wpt G Q (k r) s ((c, r) # tr)) \<Longrightarrow> wpt G Q (Call c k) s tr"
  by simp

lemma wpt_DoI [wpt_intros]: "(\<And>r. G tr c r \<Longrightarrow> wpt G Q p s ((c, r) # tr)) \<Longrightarrow> wpt G Q (Do c p) s tr"
  by simp

lemma wpt_case_optionI [wpt_intros]:
  "(x = None \<Longrightarrow> wpt G Q p s tr) \<Longrightarrow> (\<And>a. x = Some a \<Longrightarrow> wpt G Q (f a) s tr)
     \<Longrightarrow> wpt G Q (case x of None \<Rightarrow> p | Some a \<Rightarrow> f a) s tr"
  by (cases x) simp_all

text \<open>Every run against an environment that keeps the guarantee is covered.\<close>

lemma wpt_run:
  assumes "wpt G Q p s tr" and "\<And>tr c. G tr c (e tr c)" and "run e p s tr = (x, s', tr')"
  shows "Q x s' tr'"
  using assms(1,3)
proof (induction p arbitrary: s tr)
  case (Call c k)
  then have "wpt G Q (k (e tr c)) s ((c, e tr c) # tr)"
    using assms(2) by simp
  with Call show ?case by (metis rangeI run.simps(2))
next
  case (Get k)
  then show ?case by (metis rangeI run.simps(3) wpt.simps(3))
qed auto

lemma wpt_run_result:
  assumes "wpt G Q p s tr" and "\<And>tr c. G tr c (e tr c)"
  shows "Q (fst (run e p s tr)) (fst (snd (run e p s tr))) (snd (snd (run e p s tr)))"
  by (rule wpt_run [OF assms]) auto

section \<open>Loops\<close>

text \<open>
  A counted loop whose body may leave the function: \<open>for (i = lo; i < lo + n; i++)\<close>. The body
  answers \<open>Some\<close> value for a \<open>return\<close> and \<open>None\<close> to go on.
\<close>

primrec for_prog ::
  "nat \<Rightarrow> nat \<Rightarrow> (nat \<Rightarrow> ('s, 'c, 'r, 'a option) prog) \<Rightarrow> ('s, 'c, 'r, 'a option) prog" where
  "for_prog lo 0 body = Return None"
| "for_prog lo (Suc n) body =
     bind_prog (body lo) (\<lambda>x. case x of Some a \<Rightarrow> Return (Some a) | None \<Rightarrow> for_prog (Suc lo) n body)"

text \<open>
  The invariant rule for counted loops: \<open>I i\<close> holds before iteration \<open>i\<close>; every way to
  leave the loop satisfies \<open>Q\<close>.
\<close>

lemma wpt_for_prog:
  assumes "I lo s tr"
    and body: "\<And>i s tr. lo \<le> i \<Longrightarrow> i < lo + n \<Longrightarrow> I i s tr \<Longrightarrow>
          wpt G (\<lambda>x s tr. case x of Val None \<Rightarrow> I (Suc i) s tr | _ \<Rightarrow> Q x s tr) (body i) s tr"
    and exit: "\<And>s tr. I (lo + n) s tr \<Longrightarrow> Q (Val None) s tr"
  shows "wpt G Q (for_prog lo n body) s tr"
  using assms
proof (induction n arbitrary: lo s tr)
  case 0
  then show ?case by simp
next
  case (Suc n)
  have "wpt G (\<lambda>x s tr. case x of Val None \<Rightarrow> I (Suc lo) s tr | _ \<Rightarrow> Q x s tr) (body lo) s tr"
    using Suc.prems(1,2) by simp
  then have "wpt G (after G Q (\<lambda>x. case x of Some a \<Rightarrow> Return (Some a) | None \<Rightarrow> for_prog (Suc lo) n body))
      (body lo) s tr"
  proof (rule wpt_mono)
    fix x s tr
    assume "case x of Val None \<Rightarrow> I (Suc lo) s tr | _ \<Rightarrow> Q x s tr"
    moreover have "I (Suc lo) s tr \<Longrightarrow> wpt G Q (for_prog (Suc lo) n body) s tr"
      using Suc.prems(2,3) by (intro Suc.IH) auto
    ultimately show "after G Q (\<lambda>x. case x of Some a \<Rightarrow> Return (Some a) | None \<Rightarrow> for_prog (Suc lo) n body) x s tr"
      by (auto split: outcome.splits option.splits)
  qed
  then show ?case by simp
qed

section \<open>Programs that keep to some calls\<close>

primrec calls_only :: "('c \<Rightarrow> bool) \<Rightarrow> ('s, 'c, 'r, 'a) prog \<Rightarrow> bool" where
  "calls_only P (Leaf x) = True"
| "calls_only P (Call c k) = (P c \<and> (\<forall>r. calls_only P (k r)))"
| "calls_only P (Get k) = (\<forall>s. calls_only P (k s))"
| "calls_only P (Put s p) = calls_only P p"

lemma calls_only_Do [simp]: "calls_only P (Do c p) = (P c \<and> calls_only P p)"
  by (simp add: Do_def)

lemma calls_only_bind [intro]:
  "calls_only P p \<Longrightarrow> (\<And>a. calls_only P (f a)) \<Longrightarrow> calls_only P (bind_prog p f)"
  by (induction p) (auto split: outcome.splits)

lemma calls_only_for [intro]: "(\<And>i. calls_only P (body i)) \<Longrightarrow> calls_only P (for_prog lo n body)"
  by (induction n arbitrary: lo) (auto split: option.splits)

text \<open>A measure of the trace that none of the calls touches is untouched by the program.\<close>

lemma calls_only_keeps:
  assumes "calls_only P p" and "\<And>c a tr. P c \<Longrightarrow> m ((c, a) # tr) = m tr"
  shows "wpt G (\<lambda>x s' tr'. m tr' = m tr) p s tr"
  using assms(1)
proof (induction p arbitrary: s tr)
  case (Call c k)
  then show ?case using assms(2) by (auto intro!: wpt_mono [OF Call.IH])
qed auto

section \<open>Traces\<close>

text \<open>The events a trace holds, as a multiset of what \<open>f\<close> selects from each call.\<close>

definition collect :: "('c \<times> 'r \<Rightarrow> 'b option) \<Rightarrow> ('c, 'r) trace \<Rightarrow> 'b list" where
  "collect f tr = List.map_filter f tr"

lemma collect_simps [simp]:
  "collect f [] = []"
  "collect f (x # tr) = (case f x of Some y \<Rightarrow> y # collect f tr | None \<Rightarrow> collect f tr)"
  by (auto simp: collect_def List.map_filter_def split: option.splits)

section \<open>Words\<close>

text \<open>Clearing the low bits of a word rounds down to a multiple of a power of two.\<close>

lemma unat_and_not_mask:
  fixes x :: "'a::len word"
  shows "unat (and x (not (mask n))) = unat x - unat x mod 2 ^ n"
proof -
  have "and x (not (mask n)) = push_bit n (drop_bit n x)"
    by (rule bit_eqI) (auto simp: bit_simps)
  also have "\<dots> = x - take_bit n x"
    using bits_ident [of n x] by (simp add: eq_diff_eq)
  finally have eq: "and x (not (mask n)) = x - take_bit n x" .
  have t: "unat (take_bit n x) = unat x mod 2 ^ n"
    by (simp add: unsigned_take_bit_eq flip: take_bit_eq_mod)
  then have "take_bit n x \<le> x"
    by (simp add: word_le_nat_alt)
  then show ?thesis by (simp add: eq unat_sub t)
qed

lemma unat_add_small:
  fixes x y :: "'a::len word"
  shows "unat x + unat y < 2 ^ LENGTH('a) \<Longrightarrow> unat (x + y) = unat x + unat y"
  by (simp add: unat_word_ariths)

lemma unat_mult_small:
  fixes x y :: "'a::len word"
  shows "unat x * unat y < 2 ^ LENGTH('a) \<Longrightarrow> unat (x * y) = unat x * unat y"
  by (simp add: unat_word_ariths)

end
