(* ===== verification/Pool.thy ===== *)
theory Pool
  imports Prelude
begin

text \<open>
  The fixed-block free-list allocator of \<open>examples/c/custom-allocator/src/static_pool_allocator.c\<close>:
  its static state as a record, the reset loop and the three entries of the \<open>ZidlAllocator\<close> table,
  the interface they implement as a locale, and the interleaving of several threads through the
  mutex, one step per shared-memory access.

  A block is named by its index in \<open>g_pool\<close>; \<open>block_address\<close> gives the address of its first
  byte. \<open>node_next\<close> is the link word stored at the start of each block: the allocator reads it
  only for blocks on the free list, and a client may overwrite it while it owns the block.
\<close>

section \<open>State and operations\<close>

definition STATIC_POOL_BLOCK_SIZE :: nat where "STATIC_POOL_BLOCK_SIZE = 4096"
definition STATIC_POOL_BLOCK_COUNT :: nat where "STATIC_POOL_BLOCK_COUNT = 512"
definition STATIC_POOL_ALIGN :: nat where "STATIC_POOL_ALIGN = 16"

record pool =
  node_next :: "nat \<Rightarrow> nat option"
  g_free_list :: "nat option"

definition block_address :: "nat \<Rightarrow> nat \<Rightarrow> nat" where
  "block_address g_pool i = g_pool + i * STATIC_POOL_BLOCK_SIZE"

text \<open>\<open>node->next = g_free_list; g_free_list = node;\<close>, the body of the reset loop and of \<open>pool_free\<close>.\<close>

definition push_node :: "nat \<Rightarrow> pool \<Rightarrow> pool" where
  "push_node node p =
     p\<lparr>node_next := (node_next p)(node := g_free_list p), g_free_list := Some node\<rparr>"

definition static_pool_allocator_reset :: "pool \<Rightarrow> pool" where
  "static_pool_allocator_reset p =
     fold push_node [0..<STATIC_POOL_BLOCK_COUNT] (p\<lparr>g_free_list := None\<rparr>)"

definition pool_alloc :: "nat \<Rightarrow> nat \<Rightarrow> pool \<Rightarrow> nat option \<times> pool" where
  "pool_alloc len alignment p =
     (if len > STATIC_POOL_BLOCK_SIZE \<or> alignment > STATIC_POOL_ALIGN then (None, p)
      else (case g_free_list p of
              None \<Rightarrow> (None, p)
            | Some node \<Rightarrow> (Some node, p\<lparr>g_free_list := node_next p node\<rparr>)))"

definition pool_resize :: "nat option \<Rightarrow> nat \<Rightarrow> nat \<Rightarrow> nat \<Rightarrow> bool" where
  "pool_resize ptr old_len new_len alignment \<longleftrightarrow> new_len \<le> STATIC_POOL_BLOCK_SIZE"

definition pool_free :: "nat option \<Rightarrow> nat \<Rightarrow> nat \<Rightarrow> pool \<Rightarrow> pool" where
  "pool_free ptr len alignment p = (case ptr of None \<Rightarrow> p | Some node \<Rightarrow> push_node node p)"

section \<open>The free list as a list\<close>

primrec chain :: "(nat \<Rightarrow> nat option) \<Rightarrow> nat option \<Rightarrow> nat list \<Rightarrow> bool" where
  "chain h p [] \<longleftrightarrow> p = None"
| "chain h p (b # bs) \<longleftrightarrow> p = Some b \<and> chain h (h b) bs"

lemma chain_None [simp]: "chain h None bs \<longleftrightarrow> bs = []"
  by (cases bs) auto

lemma chain_Some: "chain h (Some b) bs \<longleftrightarrow> (\<exists>bs'. bs = b # bs' \<and> chain h (h b) bs')"
  by (cases bs) auto

lemma chain_upd [simp]: "b \<notin> set bs \<Longrightarrow> chain (h(b := v)) p bs = chain h p bs"
  by (induction bs arbitrary: p) auto

lemma chain_unique: "chain h p bs \<Longrightarrow> chain h p cs \<Longrightarrow> bs = cs"
proof (induction bs arbitrary: p cs)
  case (Cons b bs)
  then show ?case by (cases cs) auto
qed auto

text \<open>The blocks split into those on the free list and those handed out.\<close>

definition blocks :: "nat set" where
  "blocks = {..<STATIC_POOL_BLOCK_COUNT}"

definition free_blocks :: "pool \<Rightarrow> nat list \<Rightarrow> bool" where
  "free_blocks p bs \<longleftrightarrow> chain (node_next p) (g_free_list p) bs \<and> distinct bs"

definition pool_inv :: "pool \<Rightarrow> nat set \<Rightarrow> bool" where
  "pool_inv p live \<longleftrightarrow> (\<exists>bs. free_blocks p bs \<and> set bs \<inter> live = {} \<and> set bs \<union> live = blocks)"

lemma pool_invI:
  "free_blocks p bs \<Longrightarrow> set bs \<inter> live = {} \<Longrightarrow> set bs \<union> live = blocks \<Longrightarrow> pool_inv p live"
  by (auto simp: pool_inv_def)

lemma finite_blocks [simp]: "finite blocks"
  by (simp add: blocks_def)

lemma card_blocks [simp]: "card blocks = 512"
  by (simp add: blocks_def STATIC_POOL_BLOCK_COUNT_def)

lemma free_blocks_push:
  "free_blocks p bs \<Longrightarrow> b \<notin> set bs \<Longrightarrow> free_blocks (push_node b p) (b # bs)"
  by (simp add: free_blocks_def push_node_def)

lemma free_blocks_pop:
  "free_blocks p (b # bs) \<Longrightarrow> free_blocks (p\<lparr>g_free_list := node_next p b\<rparr>) bs"
  by (simp add: free_blocks_def)

lemma fold_push_node:
  "free_blocks p bs \<Longrightarrow> distinct xs \<Longrightarrow> set xs \<inter> set bs = {} \<Longrightarrow>
     free_blocks (fold push_node xs p) (rev xs @ bs)"
proof (induction xs arbitrary: p bs)
  case (Cons x xs)
  then have "free_blocks (push_node x p) (x # bs)"
    by (simp add: free_blocks_push)
  with Cons show ?case by (auto intro: Cons.IH)
qed simp

lemma pool_alloc_cases:
  assumes "pool_inv p live" and "pool_alloc len alignment p = (r, p')"
  shows "case r of
      None \<Rightarrow> p' = p \<and> (len > STATIC_POOL_BLOCK_SIZE \<or> alignment > STATIC_POOL_ALIGN \<or> live = blocks)
    | Some b \<Rightarrow> len \<le> STATIC_POOL_BLOCK_SIZE \<and> alignment \<le> STATIC_POOL_ALIGN \<and> b \<in> blocks \<and>
        b \<notin> live \<and> pool_inv p' (insert b live)"
proof -
  obtain bs where bs: "free_blocks p bs" "set bs \<inter> live = {}" "set bs \<union> live = blocks"
    using assms(1) by (auto simp: pool_inv_def)
  show ?thesis
  proof (cases bs)
    case Nil
    with bs assms(2) show ?thesis
      by (auto simp: pool_alloc_def free_blocks_def split: if_splits)
  next
    case (Cons b cs)
    with bs have "free_blocks (p\<lparr>g_free_list := node_next p b\<rparr>) cs"
      by (auto intro: free_blocks_pop)
    moreover from bs Cons have "b \<notin> set cs" and head: "g_free_list p = Some b"
      by (auto simp: free_blocks_def)
    ultimately have "pool_inv (p\<lparr>g_free_list := node_next p b\<rparr>) (insert b live)"
      using bs Cons by (intro pool_invI [of _ cs]) auto
    with head bs Cons assms(2) show ?thesis
      by (auto simp: pool_alloc_def split: if_splits option.splits)
  qed
qed

lemma pool_free_inv:
  assumes "pool_inv p live" and "b \<in> live"
  shows "pool_inv (pool_free (Some b) len alignment p) (live - {b})"
proof -
  obtain bs where bs: "free_blocks p bs" "set bs \<inter> live = {}" "set bs \<union> live = blocks"
    using assms(1) by (auto simp: pool_inv_def)
  with assms(2) have "free_blocks (push_node b p) (b # bs)"
    by (blast intro: free_blocks_push)
  with bs assms(2) show ?thesis
    unfolding pool_free_def by (auto intro!: pool_invI [of _ "b # bs"])
qed

section \<open>The allocator interface\<close>

text \<open>
  What the code that is handed a \<open>ZidlAllocator\<close> relies on, over the set of blocks it holds: a
  successful allocation hands out a block nobody holds, a failed one changes nothing, releasing a
  held block makes it available again, releasing null does nothing, and a request within the
  limits only fails when every block is held.
\<close>

locale block_allocator =
  fixes alloc :: "nat \<Rightarrow> nat \<Rightarrow> 's \<Rightarrow> 'b option \<times> 's"
    and free :: "'b option \<Rightarrow> 's \<Rightarrow> 's"
    and invar :: "'s \<Rightarrow> 'b set \<Rightarrow> bool"
    and capacity :: "'b set"
    and max_len :: nat
    and max_align :: nat
  assumes finite_capacity: "finite capacity"
    and held_capacity: "invar s held \<Longrightarrow> held \<subseteq> capacity"
    and alloc_Some: "invar s held \<Longrightarrow> alloc len al s = (Some b, s') \<Longrightarrow>
      b \<in> capacity - held \<and> len \<le> max_len \<and> al \<le> max_align \<and> invar s' (insert b held)"
    and alloc_None: "invar s held \<Longrightarrow> alloc len al s = (None, s') \<Longrightarrow>
      s' = s \<and> (len > max_len \<or> al > max_align \<or> held = capacity)"
    and free_held: "invar s held \<Longrightarrow> b \<in> held \<Longrightarrow> invar (free (Some b) s) (held - {b})"
    and free_null: "free None s = s"

text \<open>
  A client session: requests, and releases of the \<open>k\<close>-th block it holds (of null when it holds
  fewer). The session keeps the list of blocks it holds, in the order it got them.
\<close>

datatype request = Alloc nat nat | Release nat

fun session_step ::
  "(nat \<Rightarrow> nat \<Rightarrow> 's \<Rightarrow> 'b option \<times> 's) \<Rightarrow> ('b option \<Rightarrow> 's \<Rightarrow> 's)
     \<Rightarrow> request \<Rightarrow> 's \<times> 'b list \<Rightarrow> 's \<times> 'b list" where
  "session_step alloc free (Alloc len al) (s, held) =
     (case alloc len al s of (None, s') \<Rightarrow> (s', held) | (Some b, s') \<Rightarrow> (s', held @ [b]))"
| "session_step alloc free (Release k) (s, held) =
     (if k < length held then (free (Some (held ! k)) s, take k held @ drop (Suc k) held)
      else (free None s, held))"

definition session ::
  "(nat \<Rightarrow> nat \<Rightarrow> 's \<Rightarrow> 'b option \<times> 's) \<Rightarrow> ('b option \<Rightarrow> 's \<Rightarrow> 's)
     \<Rightarrow> request list \<Rightarrow> 's \<times> 'b list \<Rightarrow> 's \<times> 'b list" where
  "session alloc free rs = fold (session_step alloc free) rs"

lemma session_Cons [simp]:
  "session alloc free (r # rs) st = session alloc free rs (session_step alloc free r st)"
  by (simp add: session_def)

lemma session_Nil [simp]: "session alloc free [] st = st"
  by (simp add: session_def)

lemma set_remove_nth:
  assumes "distinct xs" and "k < length xs"
  shows "set (take k xs @ drop (Suc k) xs) = set xs - {xs ! k}"
    and "distinct (take k xs @ drop (Suc k) xs)"
proof -
  have "xs = take k xs @ xs ! k # drop (Suc k) xs"
    using assms(2) by (rule id_take_nth_drop)
  with assms(1) have "distinct (take k xs @ xs ! k # drop (Suc k) xs)"
    and "set xs = set (take k xs @ xs ! k # drop (Suc k) xs)" by metis+
  then show "set (take k xs @ drop (Suc k) xs) = set xs - {xs ! k}"
    and "distinct (take k xs @ drop (Suc k) xs)" by auto
qed

context block_allocator
begin

lemma session_step_inv:
  assumes "invar s (set held)" and "distinct held" and "session_step alloc free r (s, held) = (s', held')"
  shows "invar s' (set held') \<and> distinct held'"
proof (cases r)
  case (Alloc len al)
  with assms alloc_Some [OF assms(1), of len al] alloc_None [OF assms(1), of len al]
  show ?thesis by (auto split: prod.splits option.splits)
next
  case (Release k)
  with assms free_held [OF assms(1), of "held ! k"] set_remove_nth [OF assms(2), of k]
  show ?thesis by (auto simp: free_null split: if_splits)
qed

lemma session_inv:
  assumes "invar s (set held)" and "distinct held" and "session alloc free rs (s, held) = (s', held')"
  shows "invar s' (set held') \<and> distinct held'"
  using assms
proof (induction rs arbitrary: s held)
  case (Cons r rs)
  obtain s1 held1 where step: "session_step alloc free r (s, held) = (s1, held1)"
    by fastforce
  from session_step_inv [OF Cons.prems(1,2) step] Cons.prems(3) step show ?case
    by (metis Cons.IH session_Cons)
qed auto

lemma session_bounded:
  assumes "invar s (set held)" and "distinct held" and "session alloc free rs (s, held) = (s', held')"
  shows "length held' \<le> card capacity"
proof -
  have "invar s' (set held')" and "distinct held'"
    using session_inv [OF assms] by auto
  then show ?thesis
    using card_mono [OF finite_capacity held_capacity, of s' "set held'"]
    by (simp add: distinct_card)
qed

lemma alloc_available:
  assumes "invar s held" and "card held < card capacity" and "len \<le> max_len" and "al \<le> max_align"
  shows "\<exists>b s'. alloc len al s = (Some b, s')"
proof -
  obtain r s' where r: "alloc len al s = (r, s')" by fastforce
  from alloc_None [OF assms(1), of len al s'] r assms(2-4) show ?thesis
    by (cases r) auto
qed

lemma allocations_succeed:
  assumes "invar s (set held)" and "distinct held" and "length held + n \<le> card capacity"
    and "len \<le> max_len" and "al \<le> max_align"
  shows "\<exists>s' bs. session alloc free (replicate n (Alloc len al)) (s, held) = (s', held @ bs)
           \<and> length bs = n"
  using assms(1-3)
proof (induction n arbitrary: s held)
  case (Suc n)
  have "card (set held) < card capacity"
    using Suc.prems(2,3) by (simp add: distinct_card)
  then obtain b s1 where b: "alloc len al s = (Some b, s1)"
    using alloc_available [OF Suc.prems(1)] assms(4,5) by blast
  with alloc_Some [OF Suc.prems(1) b] have "invar s1 (set (held @ [b]))" and "distinct (held @ [b])"
    using Suc.prems(2) by auto
  from Suc.IH [OF this] Suc.prems(3) obtain s' bs where
    "session alloc free (replicate n (Alloc len al)) (s1, held @ [b]) = (s', (held @ [b]) @ bs)"
    and "length bs = n" by auto
  with b show ?case by (intro exI [of _ s'] exI [of _ "b # bs"]) simp
qed simp

end

interpretation spa: block_allocator pool_alloc "\<lambda>ptr p. pool_free ptr len alignment p" pool_inv
  blocks STATIC_POOL_BLOCK_SIZE STATIC_POOL_ALIGN
proof unfold_locales
  fix s held la al b s'
  assume inv: "pool_inv s held"
  show "pool_alloc la al s = (Some b, s') \<Longrightarrow>
      b \<in> blocks - held \<and> la \<le> STATIC_POOL_BLOCK_SIZE \<and> al \<le> STATIC_POOL_ALIGN \<and>
      pool_inv s' (insert b held)"
    using pool_alloc_cases [OF inv] by fastforce
  show "pool_alloc la al s = (None, s') \<Longrightarrow>
      s' = s \<and> (la > STATIC_POOL_BLOCK_SIZE \<or> al > STATIC_POOL_ALIGN \<or> held = blocks)"
    using pool_alloc_cases [OF inv] by fastforce
  show "held \<subseteq> blocks" using inv by (auto simp: pool_inv_def)
  show "b \<in> held \<Longrightarrow> pool_inv (pool_free (Some b) len alignment s) (held - {b})"
    using inv by (rule pool_free_inv)
qed (auto simp: pool_free_def)

section \<open>Properties\<close>

lemma reset_free_list:
  "free_blocks (static_pool_allocator_reset p) (rev [0..<STATIC_POOL_BLOCK_COUNT])"
  using fold_push_node [of "p\<lparr>g_free_list := None\<rparr>" "[]" "[0..<STATIC_POOL_BLOCK_COUNT]"]
  by (simp add: static_pool_allocator_reset_def free_blocks_def)

lemma reset_head [simp]: "g_free_list (static_pool_allocator_reset p) = Some 511"
proof -
  have "[0..<STATIC_POOL_BLOCK_COUNT] = [0..<511] @ [511]"
    using upt_Suc_append [of 0 511] by (simp add: STATIC_POOL_BLOCK_COUNT_def)
  with reset_free_list [of p] show ?thesis by (simp add: free_blocks_def)
qed

lemma reset_inv: "pool_inv (static_pool_allocator_reset p) {}"
  by (rule pool_invI [OF reset_free_list]) (auto simp: blocks_def)

text \<open>From any state, a reset links every block exactly once, last block first, whatever the
  link words held before.\<close>

theorem reset_links_all:
  "chain (node_next (static_pool_allocator_reset p)) (g_free_list (static_pool_allocator_reset p))
     (rev [0..<STATIC_POOL_BLOCK_COUNT])"
  using reset_free_list by (simp add: free_blocks_def)

text \<open>C33. After a reset, whatever sequence of requests and releases one client makes, the blocks it
  holds at any time are different blocks of the pool, never more than 512, and the others are all on
  the free list.\<close>

theorem pool_session_safe:
  assumes "session pool_alloc (\<lambda>ptr. pool_free ptr len alignment) rs (static_pool_allocator_reset p, []) = (p', held)"
  shows "distinct held \<and> length held \<le> STATIC_POOL_BLOCK_COUNT \<and> pool_inv p' (set held)"
  using spa.session_inv [of "static_pool_allocator_reset p" "[]", OF _ _ assms]
    spa.session_bounded [of "static_pool_allocator_reset p" "[]", OF _ _ assms]
  by (simp add: reset_inv STATIC_POOL_BLOCK_COUNT_def)

theorem pool_session_safe_witness:
  "pool_inv (snd (pool_alloc 24 8 (static_pool_allocator_reset \<lparr>node_next = \<lambda>_. None, g_free_list = None\<rparr>)))
     {511}"
proof -
  let ?p = "static_pool_allocator_reset \<lparr>node_next = \<lambda>_. None, g_free_list = None\<rparr>"
  have "session pool_alloc (\<lambda>ptr. pool_free ptr 0 0) [Alloc 24 8] (?p, []) =
      (snd (pool_alloc 24 8 ?p), [511])"
    by (simp add: pool_alloc_def STATIC_POOL_BLOCK_SIZE_def STATIC_POOL_ALIGN_def)
  from pool_session_safe [OF this] show ?thesis by simp
qed

text \<open>C34. Blocks come back: whatever happened before, a client that holds \<open>k\<close> blocks gets any
  \<open>n\<close> further blocks it asks for, as long as \<open>k + n\<close> is at most 512 and each request is within
  the block size and the alignment, and a request for more than 512 blocks fails without changing the
  pool.\<close>

theorem pool_session_complete:
  assumes "session pool_alloc (\<lambda>ptr. pool_free ptr 0 0) rs (static_pool_allocator_reset p, []) = (p', held)"
    and "len \<le> STATIC_POOL_BLOCK_SIZE" and "al \<le> STATIC_POOL_ALIGN"
  shows "(length held + n \<le> STATIC_POOL_BLOCK_COUNT \<longrightarrow>
            (\<exists>p'' bs. session pool_alloc (\<lambda>ptr. pool_free ptr 0 0) (replicate n (Alloc len al)) (p', held)
                        = (p'', held @ bs) \<and> length bs = n))
       \<and> (length held = STATIC_POOL_BLOCK_COUNT \<longrightarrow> pool_alloc len al p' = (None, p'))"
proof -
  have inv: "pool_inv p' (set held)" and dist: "distinct held"
    using spa.session_inv [of "static_pool_allocator_reset p" "[]", OF _ _ assms(1)] reset_inv by auto
  have "pool_alloc len al p' = (None, p')" if full: "length held = STATIC_POOL_BLOCK_COUNT"
  proof -
    obtain r q where r: "pool_alloc len al p' = (r, q)" by fastforce
    have "set held = blocks"
      using full dist spa.held_capacity [OF inv]
      by (intro card_seteq) (simp_all add: distinct_card STATIC_POOL_BLOCK_COUNT_def)
    with spa.alloc_Some [OF inv, of len al] spa.alloc_None [OF inv, of len al] r
    show ?thesis by (cases r) auto
  qed
  with spa.allocations_succeed [OF inv dist, of n len al] assms(2,3) show ?thesis
    by (auto simp: STATIC_POOL_BLOCK_COUNT_def)
qed

theorem pool_session_complete_witness:
  "\<exists>p'' bs. session pool_alloc (\<lambda>ptr. pool_free ptr 0 0) (replicate 512 (Alloc 4096 16))
      (static_pool_allocator_reset \<lparr>node_next = \<lambda>_. None, g_free_list = None\<rparr>, []) = (p'', bs)
     \<and> length bs = 512"
  using pool_session_complete [of "[]" "\<lparr>node_next = \<lambda>_. None, g_free_list = None\<rparr>" _ "[]" 4096 16 512]
  by (simp add: STATIC_POOL_BLOCK_COUNT_def STATIC_POOL_BLOCK_SIZE_def STATIC_POOL_ALIGN_def)

text \<open>Two blocks never overlap, and a block is aligned for every request the allocator accepts:
  with the pool's base aligned to 16 bytes, each block's address is a multiple of 16, lies wholly
  inside the array, and shares no byte with another block.\<close>

theorem block_layout:
  assumes "STATIC_POOL_ALIGN dvd g" and "i < STATIC_POOL_BLOCK_COUNT" and "j < STATIC_POOL_BLOCK_COUNT"
    and "i \<noteq> j"
  shows "STATIC_POOL_ALIGN dvd block_address g i
     \<and> block_address g i + STATIC_POOL_BLOCK_SIZE \<le> g + STATIC_POOL_BLOCK_COUNT * STATIC_POOL_BLOCK_SIZE
     \<and> {block_address g i..<block_address g i + STATIC_POOL_BLOCK_SIZE}
         \<inter> {block_address g j..<block_address g j + STATIC_POOL_BLOCK_SIZE} = {}"
proof -
  have "STATIC_POOL_ALIGN dvd block_address g i"
    using assms(1) by (auto simp: block_address_def STATIC_POOL_ALIGN_def STATIC_POOL_BLOCK_SIZE_def
        intro!: dvd_add dvd_mult)
  moreover from assms(4) have "i < j \<or> j < i" by auto
  ultimately show ?thesis
    using assms(2) by (auto simp: block_address_def STATIC_POOL_BLOCK_SIZE_def STATIC_POOL_BLOCK_COUNT_def)
qed

theorem block_layout_witness:
  "STATIC_POOL_ALIGN dvd block_address 4096 3
     \<and> {block_address 4096 3..<block_address 4096 3 + STATIC_POOL_BLOCK_SIZE}
         \<inter> {block_address 4096 7..<block_address 4096 7 + STATIC_POOL_BLOCK_SIZE} = {}"
  using block_layout [of 4096 3 7] by (simp add: STATIC_POOL_ALIGN_def STATIC_POOL_BLOCK_COUNT_def)

text \<open>Releasing a block twice is not detected and breaks the pool: afterwards the block heads a
  cyclic free list, so that every later request within the limits is answered with that same block.\<close>

theorem double_free_cycles:
  assumes "len \<le> STATIC_POOL_BLOCK_SIZE" and "al \<le> STATIC_POOL_ALIGN"
    and "q = pool_free (Some b) l2 a2 (pool_free (Some b) l1 a1 p)"
  shows "(\<nexists>bs. chain (node_next q) (g_free_list q) bs)
     \<and> session pool_alloc (\<lambda>ptr. pool_free ptr 0 0) (replicate n (Alloc len al)) (q, [])
         = (q, replicate n b)"
proof -
  have loop: "g_free_list q = Some b" "node_next q b = Some b"
    using assms(3) by (simp_all add: pool_free_def push_node_def)
  have "\<not> chain (node_next q) (Some b) bs" for bs
    using loop by (induction bs) auto
  moreover have "pool_alloc len al q = (Some b, q)"
    using loop assms(1,2) by (simp add: pool_alloc_def)
  then have "session pool_alloc (\<lambda>ptr. pool_free ptr 0 0) (replicate n (Alloc len al)) (q, replicate k b)
      = (q, replicate (n + k) b)" for k
  proof (induction n arbitrary: k)
    case (Suc n)
    then show ?case using Suc.IH [of "Suc k"] by (simp add: replicate_append_same)
  qed simp
  from this [of 0] have "session pool_alloc (\<lambda>ptr. pool_free ptr 0 0) (replicate n (Alloc len al)) (q, [])
      = (q, replicate n b)" by simp
  ultimately show ?thesis using loop by auto
qed

theorem double_free_cycles_witness:
  "\<exists>q. session pool_alloc (\<lambda>ptr. pool_free ptr 0 0) (replicate 2 (Alloc 64 8)) (q, []) = (q, [5, 5])"
  using double_free_cycles [of 64 8 _ 5 0 0 0 0 "\<lparr>node_next = \<lambda>_. None, g_free_list = None\<rparr>" 2]
  by (simp add: STATIC_POOL_BLOCK_SIZE_def STATIC_POOL_ALIGN_def numeral_2_eq_2) blast

text \<open>\<open>pool_resize\<close> never moves a block: it answers true exactly when the new length still fits
  in the block the client already has, so a resize of any block \<open>pool_alloc\<close> returned succeeds
  exactly when \<open>pool_alloc\<close> would have accepted the new length.\<close>

theorem resize_agrees_with_alloc:
  assumes "pool_inv p held" and "held \<noteq> blocks" and "al \<le> STATIC_POOL_ALIGN"
  shows "pool_resize (Some b) old_len new_len al \<longleftrightarrow> fst (pool_alloc new_len al p) \<noteq> None"
proof -
  obtain r q where r: "pool_alloc new_len al p = (r, q)" by fastforce
  from pool_alloc_cases [OF assms(1) r] assms(2,3) r show ?thesis
    by (auto simp: pool_resize_def split: option.splits)
qed

theorem resize_agrees_with_alloc_witness:
  "pool_resize (Some 0) 8 5000 8 \<longleftrightarrow>
     fst (pool_alloc 5000 8 (static_pool_allocator_reset \<lparr>node_next = \<lambda>_. None, g_free_list = None\<rparr>)) \<noteq> None"
proof (rule resize_agrees_with_alloc [OF reset_inv])
  show "{} \<noteq> blocks" by (metis card.empty card_blocks zero_neq_numeral)
qed (simp add: STATIC_POOL_ALIGN_def)

end
