(* ===== verification/Pool_Threads.thy ===== *)
theory Pool_Threads
  imports Pool
begin

text \<open>
  The pool under several threads. \<open>static_pool_allocator.c\<close> guards the free list with one mutex;
  here every access to \<open>g_free_list\<close> or to a link word between \<open>portable_mutex_lock\<close> and
  \<open>portable_mutex_unlock\<close> is a step of its own, threads interleave freely, and a thread may
  overwrite the link word of a block it owns at any moment. \<open>conc_inv\<close> is the invariant of
  every reachable state, \<open>conc_refines\<close> the simulation of the allocator's abstract behaviour,
  in which a block moves between the free list and a thread in one step.
\<close>

section \<open>Threads and steps\<close>

text \<open>
  Where a thread is: outside the allocator; in \<open>pool_alloc\<close> before the lock, after it, after
  loading \<open>g_free_list\<close>, after advancing it; in \<open>pool_free\<close> before the lock, after it, after
  storing the link word, after storing \<open>g_free_list\<close>.
\<close>

datatype pc =
    Outside
  | AllocCalled
  | AllocLocked
  | AllocLoaded "nat option"
  | AllocAdvanced "nat option"
  | FreeCalled nat
  | FreeLocked nat
  | FreeLinked nat
  | FreePushed

record threads =
  mem :: pool
  g_pool_mutex :: "nat option"
  pcs :: "nat \<Rightarrow> pc"
  owned :: "nat \<Rightarrow> nat set"

definition threads_start :: "pool \<Rightarrow> threads" where
  "threads_start p =
     \<lparr>mem = static_pool_allocator_reset p, g_pool_mutex = None, pcs = (\<lambda>_. Outside), owned = (\<lambda>_. {})\<rparr>"

definition advance :: "nat option \<Rightarrow> pool \<Rightarrow> pool" where
  "advance node p = (case node of None \<Rightarrow> p | Some b \<Rightarrow> p\<lparr>g_free_list := node_next p b\<rparr>)"

text \<open>Each step is one access to the shared memory, but for \<open>alloc_advance\<close>, which reads the link of the block
  and stores it as the new head; both accesses are inside the critical section, and no other thread touches
  the link of a free block or the head meanwhile.\<close>

inductive pool_step :: "threads \<Rightarrow> threads \<Rightarrow> bool" where
  alloc_call: "pcs s t = Outside \<Longrightarrow>
    pool_step s (s\<lparr>pcs := (pcs s)(t := AllocCalled)\<rparr>)"
| alloc_lock: "pcs s t = AllocCalled \<Longrightarrow> g_pool_mutex s = None \<Longrightarrow>
    pool_step s (s\<lparr>pcs := (pcs s)(t := AllocLocked), g_pool_mutex := Some t\<rparr>)"
| alloc_load: "pcs s t = AllocLocked \<Longrightarrow>
    pool_step s (s\<lparr>pcs := (pcs s)(t := AllocLoaded (g_free_list (mem s)))\<rparr>)"
| alloc_advance: "pcs s t = AllocLoaded node \<Longrightarrow>
    pool_step s (s\<lparr>pcs := (pcs s)(t := AllocAdvanced node), mem := advance node (mem s)\<rparr>)"
| alloc_unlock: "pcs s t = AllocAdvanced node \<Longrightarrow>
    pool_step s (s\<lparr>pcs := (pcs s)(t := Outside), g_pool_mutex := None,
                   owned := (owned s)(t := owned s t \<union> set_option node)\<rparr>)"
| free_call: "pcs s t = Outside \<Longrightarrow> b \<in> owned s t \<Longrightarrow>
    pool_step s (s\<lparr>pcs := (pcs s)(t := FreeCalled b), owned := (owned s)(t := owned s t - {b})\<rparr>)"
| free_lock: "pcs s t = FreeCalled b \<Longrightarrow> g_pool_mutex s = None \<Longrightarrow>
    pool_step s (s\<lparr>pcs := (pcs s)(t := FreeLocked b), g_pool_mutex := Some t\<rparr>)"
| free_link: "pcs s t = FreeLocked b \<Longrightarrow>
    pool_step s (s\<lparr>pcs := (pcs s)(t := FreeLinked b),
                   mem := (mem s)\<lparr>node_next := (node_next (mem s))(b := g_free_list (mem s))\<rparr>\<rparr>)"
| free_push: "pcs s t = FreeLinked b \<Longrightarrow>
    pool_step s (s\<lparr>pcs := (pcs s)(t := FreePushed), mem := (mem s)\<lparr>g_free_list := Some b\<rparr>\<rparr>)"
| free_unlock: "pcs s t = FreePushed \<Longrightarrow>
    pool_step s (s\<lparr>pcs := (pcs s)(t := Outside), g_pool_mutex := None\<rparr>)"
| scribble: "b \<in> owned s t \<Longrightarrow>
    pool_step s (s\<lparr>mem := (mem s)\<lparr>node_next := (node_next (mem s))(b := v)\<rparr>\<rparr>)"

inductive pool_reachable :: "pool \<Rightarrow> threads \<Rightarrow> bool" for p where
  start: "pool_reachable p (threads_start p)"
| step: "pool_reachable p s \<Longrightarrow> pool_step s s' \<Longrightarrow> pool_reachable p s'"

section \<open>The invariant\<close>

fun in_flight :: "pc \<Rightarrow> nat set" where
  "in_flight (AllocAdvanced (Some b)) = {b}"
| "in_flight (FreeCalled b) = {b}"
| "in_flight (FreeLocked b) = {b}"
| "in_flight (FreeLinked b) = {b}"
| "in_flight _ = {}"

fun critical :: "pc \<Rightarrow> bool" where
  "critical Outside = False"
| "critical AllocCalled = False"
| "critical (FreeCalled b) = False"
| "critical _ = True"

text \<open>The blocks that belong to a thread: those it owns and the one it is receiving or releasing.\<close>

definition holds :: "threads \<Rightarrow> nat \<Rightarrow> nat set" where
  "holds s t = owned s t \<union> in_flight (pcs s t)"

definition lock_inv :: "threads \<Rightarrow> bool" where
  "lock_inv s \<longleftrightarrow> (\<forall>t. critical (pcs s t) \<longleftrightarrow> g_pool_mutex s = Some t)"

text \<open>What a thread inside the critical section has read is still what the pool holds.\<close>

definition view_inv :: "threads \<Rightarrow> bool" where
  "view_inv s \<longleftrightarrow>
     (\<forall>t node. pcs s t = AllocLoaded node \<longrightarrow> g_free_list (mem s) = node) \<and>
     (\<forall>t b. pcs s t = FreeLinked b \<longrightarrow> node_next (mem s) b = g_free_list (mem s))"

text \<open>Free list and holdings split the blocks of the pool.\<close>

definition split_inv :: "threads \<Rightarrow> nat list \<Rightarrow> bool" where
  "split_inv s bs \<longleftrightarrow>
     free_blocks (mem s) bs \<and>
     (\<forall>t. set bs \<inter> holds s t = {}) \<and>
     (\<forall>t u b. b \<in> holds s t \<longrightarrow> b \<in> holds s u \<longrightarrow> t = u) \<and>
     (\<forall>t. owned s t \<inter> in_flight (pcs s t) = {}) \<and>
     set bs \<union> (\<Union>t. holds s t) = blocks"

definition conc_inv :: "threads \<Rightarrow> bool" where
  "conc_inv s \<longleftrightarrow> lock_inv s \<and> view_inv s \<and> (\<exists>bs. split_inv s bs)"

lemma critical_unique:
  "lock_inv s \<Longrightarrow> critical (pcs s t) \<Longrightarrow> critical (pcs s u) \<Longrightarrow> t = u"
  by (auto simp: lock_inv_def)

lemma lock_inv_step: "pool_step s s' \<Longrightarrow> lock_inv s \<Longrightarrow> lock_inv s'"
  by (induction rule: pool_step.induct) (force simp: lock_inv_def)+

lemma lock_inv_others:
  "lock_inv s \<Longrightarrow> pcs s t = x \<Longrightarrow> critical x \<Longrightarrow> u \<noteq> t \<Longrightarrow> \<not> critical (pcs s u)"
  by (metis critical_unique)

lemma lock_inv_free: "lock_inv s \<Longrightarrow> g_pool_mutex s = None \<Longrightarrow> \<not> critical (pcs s u)"
  by (auto simp: lock_inv_def)

lemma start_inv: "conc_inv (threads_start p)"
proof -
  have "free_blocks (static_pool_allocator_reset p) (rev [0..<STATIC_POOL_BLOCK_COUNT] @ [])"
    unfolding static_pool_allocator_reset_def by (rule fold_push_node) (simp_all add: free_blocks_def)
  then have "split_inv (threads_start p) (rev [0..<STATIC_POOL_BLOCK_COUNT])"
    by (auto simp: split_inv_def threads_start_def holds_def blocks_def)
  then show ?thesis
    by (auto simp: conc_inv_def lock_inv_def view_inv_def threads_start_def)
qed

section \<open>The abstract behaviour and the simulation\<close>

text \<open>
  The contract the mutex is there for: seen from outside, a block leaves the head of the free list
  and reaches one thread in a single step, and goes back in a single step.
\<close>

inductive spec_step :: "nat list \<times> (nat \<Rightarrow> nat set) \<Rightarrow> nat list \<times> (nat \<Rightarrow> nat set) \<Rightarrow> bool" where
  take: "spec_step (b # bs, H) (bs, H(t := insert b (H t)))"
| give: "b \<in> H t \<Longrightarrow> spec_step (bs, H) (b # bs, H(t := H t - {b}))"

lemma split_inv_free: "split_inv s bs \<Longrightarrow> free_blocks (mem s) bs"
  by (simp add: split_inv_def)

lemma split_inv_own: "split_inv s bs \<Longrightarrow> owned s t \<inter> in_flight (pcs s t) = {}"
  by (simp add: split_inv_def)

lemma holds_not_free: "split_inv s bs \<Longrightarrow> b \<in> holds s t \<Longrightarrow> b \<notin> set bs"
  by (auto simp: split_inv_def)

lemma holds_unique: "split_inv s bs \<Longrightarrow> b \<in> holds s t \<Longrightarrow> b \<in> holds s u \<Longrightarrow> t = u"
  unfolding split_inv_def by blast

lemma split_inv_frame:
  assumes "split_inv s bs" and "free_blocks (mem s') bs" and "holds s' = holds s"
    and "\<And>t. owned s' t \<inter> in_flight (pcs s' t) = {}"
  shows "split_inv s' bs"
  using assms by (simp add: split_inv_def)

lemma holds_upd:
  assumes "pcs s' = (pcs s)(t := x)" and "owned s' = (owned s)(t := B)"
  shows "holds s' = (holds s)(t := B \<union> in_flight x)"
  using assms by (auto simp: holds_def fun_eq_iff)

lemma free_blocks_link:
  "free_blocks p bs \<Longrightarrow> b \<notin> set bs \<Longrightarrow> free_blocks (p\<lparr>node_next := (node_next p)(b := v)\<rparr>) bs"
  by (simp add: free_blocks_def)

text \<open>A step that moves no block: the holdings stay and the free list is not touched.\<close>

lemma stutter:
  assumes inv: "split_inv s bs" and pcs: "pcs s' = (pcs s)(t := x)"
    and owned: "owned s' = (owned s)(t := B)"
    and same: "B \<union> in_flight x = holds s t" and disj: "B \<inter> in_flight x = {}"
    and mem: "free_blocks (mem s') bs"
  shows "split_inv s' bs \<and> holds s' = holds s"
proof
  show eq: "holds s' = holds s"
    using holds_upd [OF pcs owned] same by simp
  have "owned s' u \<inter> in_flight (pcs s' u) = {}" for u
    using inv disj pcs owned by (auto simp: split_inv_def)
  with inv mem eq show "split_inv s' bs"
    by (rule split_inv_frame)
qed

lemma take_block:
  assumes inv: "split_inv s (b # bs)" and pcs: "pcs s' = (pcs s)(t := AllocAdvanced (Some b))"
    and t: "in_flight (pcs s t) = {}"
    and owned: "owned s' = owned s" and mem: "mem s' = advance (Some b) (mem s)"
  shows "split_inv s' bs \<and> spec_step (b # bs, holds s) (bs, holds s')"
proof -
  have H: "holds s' = (holds s)(t := insert b (holds s t))"
    using pcs owned t by (auto simp: holds_def fun_eq_iff)
  have "free_blocks (mem s') bs"
    using inv mem free_blocks_pop by (auto simp: advance_def split_inv_def)
  moreover have "owned s' u \<inter> in_flight (pcs s' u) = {}" for u
    using inv pcs owned by (auto simp: split_inv_def holds_def)
  moreover have "\<forall>u. set bs \<inter> holds s' u = {}"
    and "\<forall>u v c. c \<in> holds s' u \<longrightarrow> c \<in> holds s' v \<longrightarrow> u = v"
    using inv unfolding H split_inv_def free_blocks_def by (auto split: if_splits)
  moreover have "set bs \<union> (\<Union>u. holds s' u) = blocks"
    using inv unfolding H split_inv_def by (auto split: if_splits)
  ultimately have "split_inv s' bs"
    by (simp add: split_inv_def)
  then show ?thesis
    using spec_step.take [of b bs "holds s" t] by (simp add: H)
qed

lemma give_block:
  assumes inv: "split_inv s bs" and t: "pcs s t = FreeLinked b"
    and link: "node_next (mem s) b = g_free_list (mem s)"
    and pcs: "pcs s' = (pcs s)(t := FreePushed)"
    and owned: "owned s' = owned s" and mem: "mem s' = (mem s)\<lparr>g_free_list := Some b\<rparr>"
  shows "split_inv s' (b # bs) \<and> spec_step (bs, holds s) (b # bs, holds s')"
proof -
  have b: "b \<in> holds s t" and own: "b \<notin> owned s t"
    using split_inv_own [OF inv, of t] t by (auto simp: holds_def)
  have H: "holds s' = (holds s)(t := holds s t - {b})"
    using pcs owned t own by (auto simp: holds_def fun_eq_iff)
  have "free_blocks (mem s') (b # bs)"
    using inv mem link holds_not_free [OF inv b] by (simp add: free_blocks_def split_inv_def)
  moreover have "owned s' u \<inter> in_flight (pcs s' u) = {}" for u
    using inv pcs owned by (auto simp: split_inv_def)
  moreover have "\<forall>u. set (b # bs) \<inter> holds s' u = {}"
    using inv holds_unique [OF inv b] unfolding H by (auto simp: split_inv_def)
  moreover have "\<forall>u v c. c \<in> holds s' u \<longrightarrow> c \<in> holds s' v \<longrightarrow> u = v"
    using holds_unique [OF inv] unfolding H by (auto split: if_splits)
  moreover have "set (b # bs) \<union> (\<Union>u. holds s' u) = blocks"
    using inv b unfolding H split_inv_def by (auto split: if_splits)
  ultimately have "split_inv s' (b # bs)"
    by (simp add: split_inv_def)
  then show ?thesis
    using spec_step.give [of b "holds s" t bs] b by (simp add: H)
qed

lemma stutter_sim:
  assumes "split_inv s bs" and "pcs s' = (pcs s)(t := x)" and "owned s' = (owned s)(t := B)"
    and "B \<union> in_flight x = holds s t" and "B \<inter> in_flight x = {}" and "free_blocks (mem s') bs"
  shows "\<exists>bs'. split_inv s' bs' \<and>
     ((bs', holds s') = (bs, holds s) \<or> spec_step (bs, holds s) (bs', holds s'))"
  using stutter [OF assms] by blast

lemma conc_simulation:
  assumes "pool_step s s'" and "conc_inv s" and inv: "split_inv s bs"
  shows "\<exists>bs'. split_inv s' bs' \<and>
     ((bs', holds s') = (bs, holds s) \<or> spec_step (bs, holds s) (bs', holds s'))"
  using assms
proof cases
  case (alloc_call t)
  show ?thesis
    by (rule stutter_sim [OF inv, of _ t AllocCalled "owned s t"])
      (use alloc_call inv in \<open>simp_all add: holds_def split_inv_free\<close>)
next
  case (alloc_lock t)
  show ?thesis
    by (rule stutter_sim [OF inv, of _ t AllocLocked "owned s t"])
      (use alloc_lock inv in \<open>simp_all add: holds_def split_inv_free\<close>)
next
  case (alloc_load t)
  show ?thesis
    by (rule stutter_sim [OF inv, of _ t "AllocLoaded (g_free_list (mem s))" "owned s t"])
      (use alloc_load inv in \<open>simp_all add: holds_def split_inv_free\<close>)
next
  case (alloc_advance t node)
  show ?thesis
  proof (cases node)
    case None
    show ?thesis
      by (rule stutter_sim [OF inv, of _ t "AllocAdvanced None" "owned s t"])
        (use alloc_advance None inv in \<open>simp_all add: holds_def split_inv_free advance_def\<close>)
  next
    case (Some b)
    with alloc_advance assms(2) have "g_free_list (mem s) = Some b"
      by (auto simp: conc_inv_def view_inv_def)
    with inv obtain cs where "bs = b # cs"
      by (auto simp: split_inv_def free_blocks_def chain_Some)
    with take_block [of s b cs s' t] inv alloc_advance Some show ?thesis by auto
  qed
next
  case (alloc_unlock t node)
  have "in_flight (AllocAdvanced node) = set_option node" by (cases node) auto
  then show ?thesis
    by (intro stutter_sim [OF inv, of _ t Outside "owned s t \<union> set_option node"])
      (use alloc_unlock inv in \<open>simp_all add: holds_def split_inv_free\<close>)
next
  case (free_call t b)
  show ?thesis
    by (rule stutter_sim [OF inv, of _ t "FreeCalled b" "owned s t - {b}"])
      (use free_call inv in \<open>auto simp: holds_def split_inv_free\<close>)
next
  case (free_lock t b)
  show ?thesis
    by (rule stutter_sim [OF inv, of _ t "FreeLocked b" "owned s t"])
      (use free_lock inv split_inv_own [OF inv, of t] in \<open>simp_all add: holds_def split_inv_free\<close>)
next
  case (free_link t b)
  then have "b \<in> holds s t" by (simp add: holds_def)
  from free_blocks_link [OF split_inv_free [OF inv] holds_not_free [OF inv this]] free_link
  show ?thesis
    by (intro stutter_sim [OF inv, of _ t "FreeLinked b" "owned s t"])
      (use split_inv_own [OF inv, of t] in \<open>simp_all add: holds_def\<close>)
next
  case (free_push t b)
  with assms(2) have "node_next (mem s) b = g_free_list (mem s)"
    by (auto simp: conc_inv_def view_inv_def)
  with free_push give_block [OF inv, of t b s'] show ?thesis by auto
next
  case (free_unlock t)
  show ?thesis
    by (rule stutter_sim [OF inv, of _ t Outside "owned s t"])
      (use free_unlock inv in \<open>simp_all add: holds_def split_inv_free\<close>)
next
  case (scribble b t v)
  then have "b \<in> holds s t" by (simp add: holds_def)
  from free_blocks_link [OF split_inv_free [OF inv] holds_not_free [OF inv this]] scribble
  show ?thesis
    by (intro stutter_sim [OF inv, of _ t "pcs s t" "owned s t"])
      (use split_inv_own [OF inv, of t] in \<open>simp_all add: holds_def\<close>)
qed

lemma view_inv_step:
  assumes "pool_step s s'" and "conc_inv s"
  shows "view_inv s'"
proof -
  obtain bs where inv: "lock_inv s" "view_inv s" "split_inv s bs"
    using assms(2) by (auto simp: conc_inv_def)
  have alone: "pcs s u \<noteq> AllocLoaded node \<and> pcs s u \<noteq> FreeLinked b"
    if "critical (pcs s t)" "u \<noteq> t" for t u node b
    using critical_unique [OF inv(1) that(1), of u] that(2) by auto
  have mine: "b \<noteq> c" if "b \<in> owned s t" "pcs s u = FreeLinked c" for b c t u
    using split_inv_own [OF inv(3), of u] holds_unique [OF inv(3), of b t u] that
    by (auto simp: holds_def)
  from assms(1) show ?thesis
  proof cases
    case (alloc_advance t node)
    with inv(2) alone [of t] show ?thesis by (auto simp: view_inv_def)
  next
    case (free_link t b)
    with inv(2) alone [of t] show ?thesis by (auto simp: view_inv_def)
  next
    case (free_push t b)
    with inv(2) alone [of t] show ?thesis by (auto simp: view_inv_def)
  next
    case (scribble b t v)
    with inv(2) mine [of b t] show ?thesis by (auto simp: view_inv_def)
  qed (use inv(2) in \<open>auto simp: view_inv_def\<close>)
qed

lemma conc_inv_step: "pool_step s s' \<Longrightarrow> conc_inv s \<Longrightarrow> conc_inv s'"
  using lock_inv_step view_inv_step conc_simulation unfolding conc_inv_def by metis

lemma reachable_conc_inv: "pool_reachable p s \<Longrightarrow> conc_inv s"
  by (induction rule: pool_reachable.induct) (auto intro: start_inv conc_inv_step)

lemma threads_start_simps [simp]:
  "pcs (threads_start p) t = Outside" "g_pool_mutex (threads_start p) = None"
  by (simp_all add: threads_start_def)

text \<open>A thread that finds the mutex free can run \<open>pool_alloc\<close> to its end.\<close>

lemma alloc_runs:
  assumes "pool_reachable p s" and "pcs s t = Outside" and "g_pool_mutex s = None"
  shows "pool_reachable p (s\<lparr>mem := advance (g_free_list (mem s)) (mem s),
           owned := (owned s)(t := owned s t \<union> set_option (g_free_list (mem s)))\<rparr>)"
proof -
  let ?h = "g_free_list (mem s)"
  let ?s1 = "s\<lparr>pcs := (pcs s)(t := AllocCalled)\<rparr>"
  let ?s2 = "s\<lparr>pcs := (pcs s)(t := AllocLocked), g_pool_mutex := Some t\<rparr>"
  let ?s3 = "s\<lparr>pcs := (pcs s)(t := AllocLoaded ?h), g_pool_mutex := Some t\<rparr>"
  let ?s4 = "s\<lparr>pcs := (pcs s)(t := AllocAdvanced ?h), g_pool_mutex := Some t, mem := advance ?h (mem s)\<rparr>"
  have "pool_step s ?s1"
    using pool_step.alloc_call [of s t] assms(2) by simp
  moreover have "pool_step ?s1 ?s2"
    using pool_step.alloc_lock [of ?s1 t] assms(3) by simp
  moreover have "pool_step ?s2 ?s3"
    using pool_step.alloc_load [of ?s2 t] by (cases s) simp
  moreover have "pool_step ?s3 ?s4"
    using pool_step.alloc_advance [of ?s3 t ?h] by (cases s) simp
  moreover have "pool_step ?s4 (s\<lparr>mem := advance ?h (mem s), owned := (owned s)(t := owned s t \<union> set_option ?h)\<rparr>)"
    using pool_step.alloc_unlock [of ?s4 t ?h] assms(2,3) by (cases s) (simp add: fun_upd_idem)
  ultimately show ?thesis
    using assms(1) by (meson pool_reachable.step)
qed

section \<open>Properties\<close>

text \<open>C10. However the threads interleave, and whatever they write into the blocks they own, no
  block is ever owned by two threads, and no owned block is on the free list: the free list stays a
  repetition-free chain, and together with what the threads hold it makes up all 512 blocks.\<close>

theorem pool_threads_exclusive:
  assumes "pool_reachable p s"
  shows "(\<forall>t u b. b \<in> owned s t \<longrightarrow> b \<in> owned s u \<longrightarrow> t = u)
     \<and> (\<exists>bs. chain (node_next (mem s)) (g_free_list (mem s)) bs \<and> distinct bs
          \<and> (\<forall>t. set bs \<inter> owned s t = {})
          \<and> set bs \<union> (\<Union>t. holds s t) = {..<STATIC_POOL_BLOCK_COUNT})"
proof -
  from reachable_conc_inv [OF assms] obtain bs where bs: "split_inv s bs"
    by (auto simp: conc_inv_def)
  have "t = u" if "b \<in> owned s t" "b \<in> owned s u" for t u b
    using holds_unique [OF bs, of b t u] that by (simp add: holds_def)
  moreover have "chain (node_next (mem s)) (g_free_list (mem s)) bs \<and> distinct bs"
    using bs by (simp add: split_inv_def free_blocks_def)
  moreover have "\<forall>t. set bs \<inter> owned s t = {}" and "set bs \<union> (\<Union>t. holds s t) = {..<STATIC_POOL_BLOCK_COUNT}"
    using bs by (auto simp: split_inv_def holds_def blocks_def)
  ultimately show ?thesis by blast
qed

theorem pool_threads_exclusive_witness:
  "\<exists>s bs. owned s 0 = {511} \<and> distinct bs \<and> set bs \<union> (\<Union>t. holds s t) = {..<STATIC_POOL_BLOCK_COUNT}"
proof -
  let ?p = "\<lparr>node_next = \<lambda>_. None, g_free_list = None\<rparr> :: pool"
  let ?s = "threads_start ?p"
  let ?s' = "?s\<lparr>mem := advance (g_free_list (mem ?s)) (mem ?s),
                owned := (owned ?s)(0 := owned ?s 0 \<union> set_option (g_free_list (mem ?s)))\<rparr>"
  have "pool_reachable ?p ?s'"
    by (rule alloc_runs [OF pool_reachable.start]) simp_all
  have "owned ?s' 0 = {511}"
    by (simp add: threads_start_def reset_head)
  moreover from this obtain bs where "distinct bs" and "set bs \<union> (\<Union>t. holds ?s' t) = {..<STATIC_POOL_BLOCK_COUNT}"
    using pool_threads_exclusive [OF \<open>pool_reachable ?p ?s'\<close>] by auto
  ultimately show ?thesis by (intro exI [of _ ?s'] exI [of _ bs]) simp
qed

text \<open>C1. The mutex makes the allocator atomic: every step of every interleaving either leaves the
  free list and the holdings as they are, or is exactly one step of the abstract allocator, in which
  one block moves from the head of the free list to one thread or back.\<close>

theorem pool_threads_refine:
  assumes "pool_reachable p s" and "pool_step s s'"
  shows "\<exists>bs bs'. split_inv s bs \<and> split_inv s' bs' \<and>
     ((bs', holds s') = (bs, holds s) \<or> spec_step (bs, holds s) (bs', holds s'))"
proof -
  have "conc_inv s" using assms(1) by (rule reachable_conc_inv)
  moreover from this obtain bs where "split_inv s bs" by (auto simp: conc_inv_def)
  ultimately show ?thesis using conc_simulation [OF assms(2)] by blast
qed

theorem pool_threads_refine_witness:
  "\<exists>bs bs'. split_inv (threads_start \<lparr>node_next = \<lambda>_. None, g_free_list = None\<rparr>) bs \<and>
     split_inv ((threads_start \<lparr>node_next = \<lambda>_. None, g_free_list = None\<rparr>)
       \<lparr>pcs := (\<lambda>_. Outside)(3 := AllocCalled)\<rparr>) bs'"
proof -
  let ?s = "threads_start \<lparr>node_next = \<lambda>_. None, g_free_list = None\<rparr>"
  have "pool_step ?s (?s\<lparr>pcs := (pcs ?s)(3 := AllocCalled)\<rparr>)"
    by (rule pool_step.alloc_call) simp
  from pool_threads_refine [OF pool_reachable.start this] show ?thesis
    by (auto simp: threads_start_def)
qed

end
