(* ===== verification/Noalloc_Guard.thy ===== *)
theory Noalloc_Guard
  imports Prelude
begin

unbundle bit_operations_syntax

text \<open>
  The heap guard of \<open>examples/c/custom-allocator/src/noalloc_guard_preload.c\<close>, the shared library
  that interposes \<open>malloc\<close>, \<open>calloc\<close>, \<open>realloc\<close> and \<open>free\<close>, and its client
  \<open>noalloc_guard_client.c\<close>. The statics of the file are a record; \<open>size_t\<close> and pointers are
  64-bit words, so the sums and the product of \<open>bootstrap_calloc\<close> wrap as they do in C.

  \<open>dlsym\<close> and the functions \<open>trip\<close> reports with may themselves allocate before they answer. The environment
  chooses the requests they make; each runs through this file's own functions, as it does in the
  process. How deep such requests may nest is a bound (\<open>guard_op\<close>), and running into it is the outcome \<open>OutOfFuel\<close>, which
  the theorems exclude: one level is enough, because of \<open>g_resolving\<close> and \<open>t_in_trip\<close>.\<close>

section \<open>State\<close>

type_synonym addr = "64 word"

definition BOOTSTRAP_POOL_SIZE :: addr where "BOOTSTRAP_POOL_SIZE = 4096"

text \<open>\<open>t_in_trip\<close> is thread-local: one flag per thread.\<close>

record guard =
  g_armed :: bool
  t_in_trip :: "nat \<Rightarrow> bool"
  real_malloc :: addr
  real_calloc :: addr
  real_realloc :: addr
  real_free :: addr
  g_bootstrap_pool :: addr
  boot_mem :: "nat \<Rightarrow> 8 word"
  g_bootstrap_used :: addr
  g_resolving :: bool

text \<open>A request to one of the interposed functions, and the library functions that may make some.\<close>

datatype request = ReqMalloc addr | ReqCalloc addr addr | ReqRealloc addr addr | ReqFree addr

datatype library = Dlsym string | Fprintf string | Backtrace | Backtrace_symbols_fd | Fflush

text \<open>A library function is entered, which is answered by the requests it makes, and then returns.\<close>

datatype guard_call =
    Enter library
  | Leave library
  | RealMalloc addr addr
  | RealCalloc addr addr addr
  | RealRealloc addr addr addr
  | RealFree addr addr

datatype guard_answer = Requests "request list" | Pointer addr

fun requests :: "guard_answer \<Rightarrow> request list" where
  "requests (Requests rs) = rs"
| "requests (Pointer p) = []"

fun pointer :: "guard_answer \<Rightarrow> addr" where
  "pointer (Pointer p) = p"
| "pointer (Requests rs) = 0"

type_synonym 'a guarded = "(guard, guard_call, guard_answer, 'a) prog"

section \<open>Operations\<close>

text \<open>
  The block of \<open>total\<close> bytes handed out is cleared with \<open>memset\<close>; a clear that runs past the end
  of \<open>g_bootstrap_pool\<close> overwrites whatever follows it, which is the \<open>Crash\<close> outcome here.
\<close>

definition bootstrap_calloc :: "addr \<Rightarrow> addr \<Rightarrow> addr guarded" where
  "bootstrap_calloc nmemb sz = Get (\<lambda>g.
     let total = nmemb * sz;
         total = (total + 15) AND NOT 15
     in if total = 0 \<or> g_bootstrap_used g + total > BOOTSTRAP_POOL_SIZE then Return 0
        else let used = g_bootstrap_used g; p = g_bootstrap_pool g + used
             in if unat used + unat total > 4096 then Leaf (Crash ''memset past g_bootstrap_pool'')
                else Put (g\<lparr>g_bootstrap_used := used + total,
                           boot_mem := (\<lambda>i. if unat used \<le> i \<and> i < unat used + unat total then 0
                                            else boot_mem g i)\<rparr>)
                     (Return p))"

definition from_bootstrap_pool :: "guard \<Rightarrow> addr \<Rightarrow> bool" where
  "from_bootstrap_pool g ptr \<longleftrightarrow>
     g_bootstrap_pool g \<le> ptr \<and> ptr < g_bootstrap_pool g + BOOTSTRAP_POOL_SIZE"

text \<open>The requests a library function makes, one after the other, each to \<open>again\<close>.\<close>

primrec serve :: "(request \<Rightarrow> addr guarded) \<Rightarrow> request list \<Rightarrow> unit guarded" where
  "serve again [] = Return ()"
| "serve again (r # rs) = bind_prog (again r) (\<lambda>_. serve again rs)"

definition library_call :: "(request \<Rightarrow> addr guarded) \<Rightarrow> library \<Rightarrow> addr guarded" where
  "library_call again f = Call (Enter f) (\<lambda>a.
     bind_prog (serve again (requests a)) (\<lambda>_. Call (Leave f) (\<lambda>r. Return (pointer r))))"

definition trip :: "(request \<Rightarrow> addr guarded) \<Rightarrow> nat \<Rightarrow> string \<Rightarrow> 'a guarded" where
  "trip again tid what = Get (\<lambda>g.
     Put (g\<lparr>t_in_trip := (t_in_trip g)(tid := True)\<rparr>) (
     bind_prog (library_call again (Fprintf what)) (\<lambda>_.
     bind_prog (library_call again Backtrace) (\<lambda>_.
     bind_prog (library_call again Backtrace_symbols_fd) (\<lambda>_.
     bind_prog (library_call again Fflush) (\<lambda>_.
     Leaf (Crash ''abort'')))))))"

text \<open>\<open>if (!real_x) real_x = dlsym(RTLD_NEXT, "x");\<close> for one of the four pointers.\<close>

definition resolve :: "(request \<Rightarrow> addr guarded) \<Rightarrow> string \<Rightarrow> (guard \<Rightarrow> addr) \<Rightarrow> (addr \<Rightarrow> guard \<Rightarrow> guard) \<Rightarrow> unit guarded" where
  "resolve again name field store = Get (\<lambda>g.
     if field g = 0 then bind_prog (library_call again (Dlsym name)) (\<lambda>f. Get (\<lambda>g. Put (store f g) (Return ())))
     else Return ())"

definition ensure_real_fns :: "(request \<Rightarrow> addr guarded) \<Rightarrow> unit guarded" where
  "ensure_real_fns again = Get (\<lambda>g.
     if real_malloc g \<noteq> 0 \<and> real_calloc g \<noteq> 0 \<and> real_realloc g \<noteq> 0 \<and> real_free g \<noteq> 0 then Return ()
     else if g_resolving g then Return ()
     else Put (g\<lparr>g_resolving := True\<rparr>)
       (bind_prog (resolve again ''malloc'' real_malloc (\<lambda>f g. g\<lparr>real_malloc := f\<rparr>)) (\<lambda>_.
        bind_prog (resolve again ''realloc'' real_realloc (\<lambda>f g. g\<lparr>real_realloc := f\<rparr>)) (\<lambda>_.
        bind_prog (resolve again ''free'' real_free (\<lambda>f g. g\<lparr>real_free := f\<rparr>)) (\<lambda>_.
        bind_prog (resolve again ''calloc'' real_calloc (\<lambda>f g. g\<lparr>real_calloc := f\<rparr>)) (\<lambda>_.
        Get (\<lambda>g. Put (g\<lparr>g_resolving := False\<rparr>) (Return ()))))))))"

definition noalloc_guard_arm :: "(request \<Rightarrow> addr guarded) \<Rightarrow> unit guarded" where
  "noalloc_guard_arm again =
     bind_prog (ensure_real_fns again) (\<lambda>_. Get (\<lambda>g. Put (g\<lparr>g_armed := True\<rparr>) (Return ())))"

definition noalloc_guard_disarm :: "unit guarded" where
  "noalloc_guard_disarm = Get (\<lambda>g. Put (g\<lparr>g_armed := False\<rparr>) (Return ()))"

text \<open>A call through a function pointer that is still null.\<close>

definition through :: "addr \<Rightarrow> 'a guarded \<Rightarrow> 'a guarded" where
  "through f p = (if f = 0 then Leaf (Crash ''call through a null function pointer'') else p)"

definition guard_malloc :: "(request \<Rightarrow> addr guarded) \<Rightarrow> nat \<Rightarrow> addr \<Rightarrow> addr guarded" where
  "guard_malloc again tid sz =
     bind_prog (ensure_real_fns again) (\<lambda>_. Get (\<lambda>g.
       if \<not> t_in_trip g tid \<and> g_armed g then trip again tid ''malloc''
       else through (real_malloc g) (Call (RealMalloc (real_malloc g) sz) (\<lambda>r. Return (pointer r)))))"

definition guard_calloc :: "(request \<Rightarrow> addr guarded) \<Rightarrow> nat \<Rightarrow> addr \<Rightarrow> addr \<Rightarrow> addr guarded" where
  "guard_calloc again tid nmemb sz =
     (let use_real = Get (\<lambda>g. if \<not> t_in_trip g tid \<and> g_armed g then trip again tid ''calloc''
                               else Call (RealCalloc (real_calloc g) nmemb sz) (\<lambda>r. Return (pointer r)))
      in Get (\<lambda>g. if real_calloc g = 0 then
                     (if g_resolving g then bootstrap_calloc nmemb sz
                      else bind_prog (ensure_real_fns again) (\<lambda>_. Get (\<lambda>g.
                             if real_calloc g = 0 then bootstrap_calloc nmemb sz else use_real)))
                   else use_real))"

definition guard_realloc :: "(request \<Rightarrow> addr guarded) \<Rightarrow> nat \<Rightarrow> addr \<Rightarrow> addr \<Rightarrow> addr guarded" where
  "guard_realloc again tid ptr sz =
     bind_prog (ensure_real_fns again) (\<lambda>_. Get (\<lambda>g.
       if \<not> t_in_trip g tid \<and> g_armed g then trip again tid ''realloc''
       else through (real_realloc g) (Call (RealRealloc (real_realloc g) ptr sz) (\<lambda>r. Return (pointer r)))))"

definition guard_free :: "(request \<Rightarrow> addr guarded) \<Rightarrow> nat \<Rightarrow> addr \<Rightarrow> unit guarded" where
  "guard_free again tid ptr = Get (\<lambda>g.
     if ptr = 0 \<or> from_bootstrap_pool g ptr then Return ()
     else bind_prog (ensure_real_fns again) (\<lambda>_. Get (\<lambda>g.
       if \<not> t_in_trip g tid \<and> g_armed g then trip again tid ''free''
       else through (real_free g) (Do (RealFree (real_free g) ptr) (Return ())))))"

text \<open>The interposed functions, with requests of the library nested up to a depth.\<close>

definition guard_request :: "(request \<Rightarrow> addr guarded) \<Rightarrow> nat \<Rightarrow> request \<Rightarrow> addr guarded" where
  "guard_request again tid r = (case r of
      ReqMalloc sz \<Rightarrow> guard_malloc again tid sz
    | ReqCalloc n sz \<Rightarrow> guard_calloc again tid n sz
    | ReqRealloc p sz \<Rightarrow> guard_realloc again tid p sz
    | ReqFree p \<Rightarrow> bind_prog (guard_free again tid p) (\<lambda>_. Return 0))"

primrec guard_op :: "nat \<Rightarrow> nat \<Rightarrow> request \<Rightarrow> addr guarded" where
  "guard_op 0 tid r = Leaf OutOfFuel"
| "guard_op (Suc depth) tid r = guard_request (guard_op depth tid) tid r"

text \<open>One request at a time, so that the requests of the library stay folded in proofs.\<close>

lemma guard_op_request:
  "guard_op (Suc d) tid (ReqMalloc sz) = guard_malloc (guard_op d tid) tid sz"
  "guard_op (Suc d) tid (ReqCalloc n sz) = guard_calloc (guard_op d tid) tid n sz"
  "guard_op (Suc d) tid (ReqRealloc p sz) = guard_realloc (guard_op d tid) tid p sz"
  "guard_op (Suc d) tid (ReqFree p) = bind_prog (guard_free (guard_op d tid) tid p) (\<lambda>_. Return 0)"
  by (simp_all add: guard_request_def)

declare guard_op.simps [simp del]

section \<open>The client\<close>

text \<open>
  \<open>noalloc_guard_client.c\<close> on a POSIX system. The answer to \<open>LookupSymbol\<close> is what \<open>dlsym\<close>
  returned and whether \<open>dlerror\<close> then reported an error.
\<close>

datatype client_call = LookupSymbol string | CallSymbol addr | Stderr string

type_synonym client_answer = "addr \<times> bool"

type_synonym 'a client = "(unit, client_call, client_answer, 'a) prog"

definition lookup_guard :: "string \<Rightarrow> addr client" where
  "lookup_guard name = Call (LookupSymbol name) (\<lambda>(sym, err). Return (if err then 0 else sym))"

definition noalloc_guard_try_arm :: "bool client" where
  "noalloc_guard_try_arm = bind_prog (lookup_guard ''noalloc_guard_arm'') (\<lambda>fn.
     if fn = 0 then Do (Stderr ''not preloaded'') (Return False)
     else Do (CallSymbol fn) (Do (Stderr ''armed'') (Return True)))"

definition noalloc_guard_try_disarm :: "bool client" where
  "noalloc_guard_try_disarm = bind_prog (lookup_guard ''noalloc_guard_disarm'') (\<lambda>fn.
     if fn = 0 then Return False else Do (CallSymbol fn) (Return True))"

section \<open>Facts about the operations\<close>

definition resolved :: "guard \<Rightarrow> bool" where
  "resolved g \<longleftrightarrow> real_malloc g \<noteq> 0 \<and> real_calloc g \<noteq> 0 \<and> real_realloc g \<noteq> 0 \<and> real_free g \<noteq> 0"

lemma ensure_resolved [simp]:
  "resolved g \<Longrightarrow> wpt G Q (ensure_real_fns again) g tr = Q (Val ()) g tr"
  by (simp add: ensure_real_fns_def resolved_def)

lemma through_nonnull [simp]: "f \<noteq> 0 \<Longrightarrow> through f p = p"
  by (simp add: through_def)

definition boot_total :: "nat \<Rightarrow> nat" where
  "boot_total n = (n + 15) - (n + 15) mod 16"

lemma boot_total_props: "n \<le> boot_total n" "boot_total n < n + 16" "16 dvd boot_total n"
  by (auto simp: boot_total_def dvd_minus_mod minus_mod_eq_mult_div)

lemma unat_boot_total:
  fixes n m :: addr
  assumes "unat n * unat m + 15 < 2 ^ 64"
  shows "unat ((n * m + 15) AND NOT 15) = boot_total (unat n * unat m)"
proof -
  have "(15::addr) = mask 4" by (simp add: mask_eq_exp_minus_1)
  then have "unat ((n * m + 15) AND NOT 15) = unat (n * m + 15) - unat (n * m + 15) mod 2 ^ 4"
    by (simp only: unat_and_not_mask)
  moreover have "unat (n * m) = unat n * unat m"
    using assms by (intro unat_mult_small) simp
  then have "unat (n * m + 15) = unat n * unat m + 15"
    using assms by (subst unat_add_small) simp_all
  ultimately show ?thesis by (simp add: boot_total_def)
qed

text \<open>The bootstrap pool's bookkeeping: what is used is a whole number of 16-byte units in the pool.\<close>

definition boot_wf :: "guard \<Rightarrow> bool" where
  "boot_wf g \<longleftrightarrow> unat (g_bootstrap_used g) \<le> 4096 \<and> 16 dvd unat (g_bootstrap_used g)"

text \<open>What resolving the real functions may change: the bootstrap pool only.\<close>

definition boot_frame :: "guard \<Rightarrow> guard \<Rightarrow> bool" where
  "boot_frame g g' \<longleftrightarrow>
     real_malloc g' = real_malloc g \<and> real_calloc g' = real_calloc g \<and>
     real_realloc g' = real_realloc g \<and> real_free g' = real_free g \<and>
     g_resolving g' = g_resolving g \<and> g_armed g' = g_armed g \<and> t_in_trip g' = t_in_trip g \<and>
     g_bootstrap_pool g' = g_bootstrap_pool g"

lemma bootstrap_calloc_frame:
  "wpt G (\<lambda>x g' tr'. tr' = tr \<and> boot_frame g g' \<and> (\<exists>v. x = Val v) \<or> x = Crash ''memset past g_bootstrap_pool'')
     (bootstrap_calloc n m) g tr"
  by (auto simp: bootstrap_calloc_def Let_def boot_frame_def)

fun asks_calloc :: "request \<Rightarrow> bool" where
  "asks_calloc (ReqCalloc n m) = True"
| "asks_calloc _ = False"

text \<open>While the functions are being resolved, a \<open>calloc\<close> is served from the bootstrap pool.\<close>

lemma serve_resolving:
  assumes "real_calloc g = 0" and "g_resolving g" and "list_all asks_calloc rs"
  shows "wpt G (\<lambda>x g' tr'. tr' = tr \<and> boot_frame g g' \<and> x = Val () \<or> x = Crash ''memset past g_bootstrap_pool'')
     (serve (guard_op (Suc d) tid) rs) g tr"
  using assms
proof (induction rs arbitrary: g)
  case (Cons r rs)
  obtain n m where r: "r = ReqCalloc n m" using Cons.prems(3) by (cases r) simp_all
  have "wpt G (\<lambda>x g' tr'. tr' = tr \<and> boot_frame g g' \<and> x = Val () \<or> x = Crash ''memset past g_bootstrap_pool'')
      (serve (guard_op (Suc d) tid) rs) g1 tr" if "boot_frame g g1" for g1
    by (rule wpt_mono [OF Cons.IH]) (use Cons.prems that in \<open>auto simp: boot_frame_def\<close>)
  then show ?case
    using Cons.prems
    by (auto simp: r guard_op_request guard_calloc_def Let_def intro!: wpt_mono [OF bootstrap_calloc_frame])
qed (simp add: boot_frame_def)

text \<open>
  What \<open>dlsym\<close> is taken to do, in the words of the source: it may request zeroed memory while it
  looks a symbol up, and makes no other request of the heap.
\<close>

definition dlsym_callocs :: "(guard_call, guard_answer) trace \<Rightarrow> guard_call \<Rightarrow> guard_answer \<Rightarrow> bool" where
  "dlsym_callocs tr c a = (case c of Enter (Dlsym name) \<Rightarrow> list_all asks_calloc (requests a) | _ \<Rightarrow> True)"

fun looked_up :: "guard_call \<times> guard_answer \<Rightarrow> string option" where
  "looked_up (Leave (Dlsym name), a) = Some name"
| "looked_up _ = None"

fun real_call :: "guard_call \<times> guard_answer \<Rightarrow> guard_call option" where
  "real_call (Enter f, a) = None"
| "real_call (Leave f, a) = None"
| "real_call (c, a) = Some c"

text \<open>
  Resolving one pointer while \<open>calloc\<close> itself is unresolved: one lookup, nothing reaches the real
  allocator, and only the bootstrap pool and that pointer change.
\<close>

lemma resolve_spec:
  assumes "real_calloc g = 0" and "g_resolving g" and "field g = 0"
    and R: "\<And>f g' tr'. boot_frame g g' \<Longrightarrow> collect looked_up tr' = name # collect looked_up tr \<Longrightarrow>
              collect real_call tr' = collect real_call tr \<Longrightarrow> Q (Val ()) (store f g') tr'"
    and C: "\<And>g' tr'. Q (Crash ''memset past g_bootstrap_pool'') g' tr'"
  shows "wpt dlsym_callocs Q (resolve (guard_op (Suc d) tid) name field store) g tr"
proof -
  have "wpt dlsym_callocs (\<lambda>x g' tr'. case x of Val v \<Rightarrow> boot_frame g g' \<and> collect looked_up tr' = name # collect looked_up tr \<and>
      collect real_call tr' = collect real_call tr | _ \<Rightarrow> x = Crash ''memset past g_bootstrap_pool'')
      (library_call (guard_op (Suc d) tid) (Dlsym name)) g tr"
    unfolding library_call_def using assms(1,2)
    by (auto simp: dlsym_callocs_def intro!: wpt_mono [OF serve_resolving])
  then show ?thesis
    unfolding resolve_def using assms(3) R C
    by (auto simp: after_def elim!: wpt_mono split: outcome.splits)
qed

text \<open>The call of the real allocator a request is answered with when it is let through.\<close>

definition forwarded :: "guard \<Rightarrow> request \<Rightarrow> guard_call option" where
  "forwarded g r = (case r of
      ReqMalloc sz \<Rightarrow> Some (RealMalloc (real_malloc g) sz)
    | ReqCalloc n sz \<Rightarrow> Some (RealCalloc (real_calloc g) n sz)
    | ReqRealloc p sz \<Rightarrow> Some (RealRealloc (real_realloc g) p sz)
    | ReqFree p \<Rightarrow> if p = 0 \<or> from_bootstrap_pool g p then None else Some (RealFree (real_free g) p))"

fun request_name :: "request \<Rightarrow> string" where
  "request_name (ReqMalloc sz) = ''malloc''"
| "request_name (ReqCalloc n sz) = ''calloc''"
| "request_name (ReqRealloc p sz) = ''realloc''"
| "request_name (ReqFree p) = ''free''"

lemma request_forwarded:
  assumes "resolved g" and "\<not> g_armed g \<or> t_in_trip g tid"
  shows "wpt G (\<lambda>x g' tr'. g' = g \<and> (case forwarded g r of
        None \<Rightarrow> x = Val 0 \<and> tr' = tr
      | Some c \<Rightarrow> \<exists>a. tr' = (c, a) # tr \<and> x = Val (case r of ReqFree p \<Rightarrow> 0 | _ \<Rightarrow> pointer a)))
     (guard_op (Suc d) tid r) g tr"
  using assms
  by (cases r) (auto simp: guard_op_request forwarded_def guard_malloc_def guard_calloc_def
      guard_realloc_def guard_free_def Let_def resolved_def)

lemma serve_forwarded:
  assumes "resolved g" and "\<not> g_armed g \<or> t_in_trip g tid"
  shows "wpt G (\<lambda>x g' tr'. x = Val () \<and> g' = g \<and>
      (\<exists>evs. tr' = evs @ tr \<and> map fst evs = rev (List.map_filter (forwarded g) rs)))
     (serve (guard_op (Suc d) tid) rs) g tr"
proof (induction rs arbitrary: tr)
  case (Cons r rs)
  show ?case unfolding serve.simps
  proof (rule wpt_bindI [OF request_forwarded [OF assms]])
    fix a s tr1
    assume "s = g \<and> (case forwarded g r of None \<Rightarrow> (Val a :: addr outcome) = Val 0 \<and> tr1 = tr
      | Some c \<Rightarrow> \<exists>b. tr1 = (c, b) # tr \<and> Val a = Val (case r of ReqFree p \<Rightarrow> 0 | _ \<Rightarrow> pointer b))"
    then show "wpt G (\<lambda>x g' tr'. x = Val () \<and> g' = g \<and>
      (\<exists>evs. tr' = evs @ tr \<and> map fst evs = rev (List.map_filter (forwarded g) (r # rs))))
     (serve (guard_op (Suc d) tid) rs) s tr1"
      by (auto simp: List.map_filter_simps intro!: wpt_mono [OF Cons.IH] split: option.splits)
  qed (auto split: option.splits)
qed (simp add: List.map_filter_simps)

text \<open>
  The events of a library function whose requests are all let through: it is entered, each
  request it makes is one call of the real allocator, in order, and it returns.
\<close>

definition lets_through :: "guard \<Rightarrow> library \<Rightarrow> (guard_call, guard_answer) trace \<Rightarrow> bool" where
  "lets_through g f evs \<longleftrightarrow> (\<exists>a l inner. evs = (Leave f, l) # inner @ [(Enter f, a)] \<and>
     map fst inner = rev (List.map_filter (forwarded g) (requests a)))"

lemma library_call_forwarded:
  assumes "resolved g" and "\<not> g_armed g \<or> t_in_trip g tid"
  shows "wpt G (\<lambda>x g' tr'. (\<exists>v. x = Val v) \<and> g' = g \<and> (\<exists>evs. lets_through g f evs \<and> tr' = evs @ tr))
     (library_call (guard_op (Suc d) tid) f) g tr"
  unfolding library_call_def lets_through_def
  by (auto intro!: wpt_mono [OF serve_forwarded [OF assms]])

definition reports :: "guard \<Rightarrow> string \<Rightarrow> (guard_call, guard_answer) trace \<Rightarrow> bool" where
  "reports g what evs \<longleftrightarrow> (\<exists>d1 d2 d3 d4. evs = d4 @ d3 @ d2 @ d1 \<and> lets_through g (Fprintf what) d1 \<and>
     lets_through g Backtrace d2 \<and> lets_through g Backtrace_symbols_fd d3 \<and> lets_through g Fflush d4)"

definition tripped :: "guard \<Rightarrow> nat \<Rightarrow> guard" where
  "tripped g tid = g\<lparr>t_in_trip := (t_in_trip g)(tid := True)\<rparr>"

lemma tripped_simps [simp]:
  "resolved (tripped g tid) = resolved g" "t_in_trip (tripped g tid) tid"
  "forwarded (tripped g tid) = forwarded g"
  by (auto simp: tripped_def resolved_def forwarded_def from_bootstrap_pool_def fun_eq_iff split: request.splits)

lemma lets_through_tripped [simp]: "lets_through (tripped g tid) = lets_through g"
  by (simp add: lets_through_def fun_eq_iff)

lemma trip_aborts:
  assumes "resolved g"
  shows "wpt G (\<lambda>x g' tr'. x = Crash ''abort'' \<and> g' = tripped g tid \<and> (\<exists>evs. reports g what evs \<and> tr' = evs @ tr))
     (trip (guard_op (Suc d) tid) tid what) g tr"
  unfolding trip_def wpt.simps tripped_def [symmetric] reports_def
  by (rule wpt_bindI, rule library_call_forwarded, simp add: assms, simp,
      elim conjE exE, simp only:, rule wpt_bindI, rule library_call_forwarded, simp add: assms, simp,
      elim conjE exE, simp only:, rule wpt_bindI, rule library_call_forwarded, simp add: assms, simp,
      elim conjE exE, simp only:, rule wpt_bindI, rule library_call_forwarded, simp add: assms, simp)
    (auto, metis)

section \<open>Properties\<close>

text \<open>C36. With the four real functions resolved and the guard armed, the first request by a thread
  that is not already reporting one aborts the process, whatever it is except \<open>free\<close> of null or of a
  bootstrap pointer. The request itself never reaches the real allocator. What happens first is the
  report, naming the function called: \<open>fprintf\<close>, \<open>backtrace\<close>, \<open>backtrace_symbols_fd\<close> and
  \<open>fflush\<close>, each once. Whatever heap requests these make are let through to the real allocator, one
  call each, and never trip the guard a second time.\<close>

theorem armed_guard_aborts:
  assumes "resolved g" and "g_armed g" and "\<not> t_in_trip g tid" and "forwarded g r \<noteq> None"
  shows "wpt any_answer (\<lambda>x g' tr'. x = Crash ''abort'' \<and> g' = tripped g tid \<and>
       (\<exists>evs. reports g (request_name r) evs \<and> tr' = evs @ tr))
     (guard_op (Suc (Suc d)) tid r) g tr"
  using assms
  by (cases r) (auto simp: guard_op_request forwarded_def guard_malloc_def guard_calloc_def
      guard_realloc_def guard_free_def Let_def resolved_def split: if_splits
      intro!: wpt_mono [OF trip_aborts])

text \<open>A guard state with all pointers resolved, for the witnesses.\<close>

definition demo_guard :: "bool \<Rightarrow> guard" where
  "demo_guard armed = \<lparr>g_armed = armed, t_in_trip = \<lambda>_. False, real_malloc = 1, real_calloc = 2,
     real_realloc = 3, real_free = 4, g_bootstrap_pool = 8192, boot_mem = \<lambda>_. 1, g_bootstrap_used = 0,
     g_resolving = False\<rparr>"

lemma demo_guard_resolved [simp]: "resolved (demo_guard b)"
  by (simp add: demo_guard_def resolved_def)

lemma demo_guard_frees: "forwarded (demo_guard True) (ReqFree 40960) = Some (RealFree 4 40960)"
  by (simp add: demo_guard_def forwarded_def from_bootstrap_pool_def BOOTSTRAP_POOL_SIZE_def)

theorem armed_guard_aborts_witness:
  "wpt any_answer (\<lambda>x g' tr'. x = Crash ''abort'' \<and> g' = tripped (demo_guard True) 7 \<and>
       reports (demo_guard True) ''free'' tr')
     (guard_op (Suc (Suc 0)) 7 (ReqFree 40960)) (demo_guard True) []"
proof -
  have "g_armed (demo_guard True)" "\<not> t_in_trip (demo_guard True) 7" by (simp_all add: demo_guard_def)
  then show ?thesis
    using armed_guard_aborts [of "demo_guard True" 7 "ReqFree 40960" "[]" 0] by (simp add: demo_guard_frees)
qed

text \<open>While the guard is not armed, or the calling thread is already reporting a violation, every
  request goes to the real allocator once, with the arguments it was given, and its answer is what the
  caller gets; the guard's own state does not change.\<close>

theorem unarmed_guard_forwards:
  assumes "resolved g" and "\<not> g_armed g \<or> t_in_trip g tid"
  shows "wpt any_answer (\<lambda>x g' tr'. g' = g \<and> (case forwarded g r of
        None \<Rightarrow> x = Val 0 \<and> tr' = tr
      | Some c \<Rightarrow> \<exists>a. tr' = (c, a) # tr \<and> x = Val (case r of ReqFree p \<Rightarrow> 0 | _ \<Rightarrow> pointer a)))
     (guard_op (Suc d) tid r) g tr"
  using assms by (rule request_forwarded)

theorem unarmed_guard_forwards_witness:
  "wpt any_answer (\<lambda>x g' tr'. g' = demo_guard False \<and> (\<exists>a. tr' = [(RealMalloc 1 24, a)] \<and> x = Val (pointer a)))
     (guard_op 1 0 (ReqMalloc 24)) (demo_guard False) []"
  using unarmed_guard_forwards [of "demo_guard False" 0 "[]" "ReqMalloc 24" 0]
  by (simp add: demo_guard_def resolved_def forwarded_def)

text \<open>\<open>free\<close> of null and of a bootstrap-pool pointer does nothing at all, armed or not, resolved
  or not.\<close>

theorem free_bootstrap_noop:
  assumes "ptr = 0 \<or> from_bootstrap_pool g ptr"
  shows "wpt any_answer (\<lambda>x g' tr'. x = Val () \<and> g' = g \<and> tr' = tr) (guard_free again tid ptr) g tr"
  using assms by (auto simp: guard_free_def)

theorem free_bootstrap_noop_witness:
  "wpt any_answer (\<lambda>x g' tr'. x = Val () \<and> g' = demo_guard True \<and> tr' = []) (guard_free (guard_op 1 3) 3 8208) (demo_guard True) []"
  by (rule free_bootstrap_noop) (simp add: demo_guard_def from_bootstrap_pool_def BOOTSTRAP_POOL_SIZE_def)

text \<open>A bootstrap request whose size does not overflow is either refused without any change, which
  happens exactly when it is empty or the rounded size no longer fits, or served by the next unused
  bytes of the pool: at least as many as asked for, a multiple of 16, inside the pool, all zero, and
  disjoint from everything handed out before; bytes outside the block keep their values.\<close>

theorem bootstrap_calloc_spec:
  assumes "boot_wf g" and "unat n * unat m + 15 + 4096 < 2 ^ 64"
  shows "wpt any_answer (\<lambda>x g' tr'. tr' = tr \<and>
      (let used = unat (g_bootstrap_used g); total = boot_total (unat n * unat m)
       in if total = 0 \<or> used + total > 4096 then x = Val 0 \<and> g' = g
          else x = Val (g_bootstrap_pool g + g_bootstrap_used g) \<and> unat n * unat m \<le> total \<and> 16 dvd total \<and>
               unat (g_bootstrap_used g') = used + total \<and> boot_wf g' \<and> boot_frame g g' \<and>
               (\<forall>i. boot_mem g' i = (if used \<le> i \<and> i < used + total then 0 else boot_mem g i))))
     (bootstrap_calloc n m) g tr"
proof -
  let ?u = "g_bootstrap_used g" and ?t = "(n * m + 15) AND NOT 15 :: addr"
  have t: "unat ?t = boot_total (unat n * unat m)"
    using assms(2) by (intro unat_boot_total) simp
  have "unat ?u \<le> 4096" using assms(1) by (simp add: boot_wf_def)
  then have sum: "unat (?u + ?t) = unat ?u + unat ?t"
    using assms(2) t boot_total_props(2) [of "unat n * unat m"] by (intro unat_add_small) simp
  have "?t = 0 \<longleftrightarrow> boot_total (unat n * unat m) = 0"
    using t by (simp add: unat_eq_zero flip: t)
  moreover have "?u + ?t > BOOTSTRAP_POOL_SIZE \<longleftrightarrow> unat ?u + boot_total (unat n * unat m) > 4096"
    using sum t by (simp add: word_less_nat_alt BOOTSTRAP_POOL_SIZE_def)
  moreover have "boot_wf (g\<lparr>g_bootstrap_used := ?u + ?t, boot_mem := f\<rparr>)"
    if "unat ?u + boot_total (unat n * unat m) \<le> 4096" for f
    using that assms(1) sum t boot_total_props(3) by (simp add: boot_wf_def)
  ultimately show ?thesis
    using sum t boot_total_props [of "unat n * unat m"]
    by (simp add: bootstrap_calloc_def Let_def boot_frame_def)
qed

theorem bootstrap_calloc_spec_witness:
  "wpt any_answer (\<lambda>x g' tr'. x = Val 8192 \<and> unat (g_bootstrap_used g') = 48) (bootstrap_calloc 5 8) (demo_guard False) []"
  using bootstrap_calloc_spec [of "demo_guard False" 5 8 "[]"]
  by (rule wpt_mono) (auto simp: demo_guard_def boot_wf_def boot_total_def)

text \<open>The product and the sums of \<open>bootstrap_calloc\<close> are not checked for overflow. A request for
  \<open>2^60 + 1\<close> objects of 16 bytes is answered with a block of 16 bytes; and once 32 bytes are used, a
  request for \<open>2^64 - 16\<close> bytes passes the capacity check because the sum wraps to 16, and the
  clearing of the block runs far past the pool.\<close>

theorem bootstrap_calloc_overflows:
  assumes "g_bootstrap_used g = 0" and "g_bootstrap_used h = 32"
  shows "wpt any_answer (\<lambda>x g' tr'. x = Val (g_bootstrap_pool g) \<and> unat (g_bootstrap_used g') = 16)
           (bootstrap_calloc 1152921504606846977 16) g tr
       \<and> unat (1152921504606846977 :: addr) * unat (16 :: addr) > 2 ^ 64
       \<and> wpt any_answer (\<lambda>x g' tr'. x = Crash ''memset past g_bootstrap_pool'')
           (bootstrap_calloc 1 18446744073709551600) h tr"
  using assms by (simp add: bootstrap_calloc_def Let_def BOOTSTRAP_POOL_SIZE_def)

theorem bootstrap_calloc_overflows_witness:
  "wpt any_answer (\<lambda>x g' tr'. x = Crash ''memset past g_bootstrap_pool'')
     (bootstrap_calloc 1 18446744073709551600) ((demo_guard False)\<lparr>g_bootstrap_used := 32\<rparr>) []"
  using bootstrap_calloc_overflows [of "demo_guard False" "(demo_guard False)\<lparr>g_bootstrap_used := 32\<rparr>"]
  by (simp add: demo_guard_def)

text \<open>C35. Resolving the real functions for the first time looks each of the four symbols up exactly
  once, in the order malloc, realloc, free, calloc, even when \<open>dlsym\<close> itself asks for zeroed memory,
  any number of times and in any sizes: each such request runs through the interposed \<open>calloc\<close>,
  finds the resolving flag set and is served by the bootstrap pool, so that resolving is never entered a
  second time and no request reaches an unresolved function. On return the resolving flag is clear again,
  and the four pointers are the only other thing that changed beside the bootstrap pool. The only other
  ending is the overflow of the bootstrap pool's arithmetic. \<open>dlsym\<close> is taken to make no heap request
  but \<open>calloc\<close>, which is the case the file provides for.\<close>

theorem first_resolution:
  assumes "real_malloc g = 0" and "real_calloc g = 0" and "real_realloc g = 0" and "real_free g = 0"
    and "\<not> g_resolving g"
  shows "wpt dlsym_callocs (\<lambda>x g' tr'.
       x = Val () \<and> \<not> g_resolving g' \<and> g_armed g' = g_armed g \<and> t_in_trip g' = t_in_trip g \<and>
         collect looked_up tr' = [''calloc'', ''free'', ''realloc'', ''malloc''] @ collect looked_up tr \<and>
         collect real_call tr' = collect real_call tr
       \<or> x = Crash ''memset past g_bootstrap_pool'')
     (ensure_real_fns (guard_op (Suc d) tid)) g tr"
  using assms unfolding ensure_real_fns_def
  by (simp, intro resolve_spec)
    (auto simp: boot_frame_def intro!: resolve_spec)

theorem first_resolution_witness:
  "wpt dlsym_callocs (\<lambda>x g' tr'.
       x = Val () \<and> \<not> g_resolving g' \<and> \<not> g_armed g' \<and> t_in_trip g' = (\<lambda>_. False) \<and>
         collect looked_up tr' = [''calloc'', ''free'', ''realloc'', ''malloc''] \<and> collect real_call tr' = []
       \<or> x = Crash ''memset past g_bootstrap_pool'')
     (ensure_real_fns (guard_op 1 0))
     ((demo_guard False)\<lparr>real_malloc := 0, real_calloc := 0, real_realloc := 0, real_free := 0\<rparr>) []"
  using first_resolution [of "(demo_guard False)\<lparr>real_malloc := 0, real_calloc := 0, real_realloc := 0, real_free := 0\<rparr>" "[]" 0 0]
  by (simp add: demo_guard_def)

text \<open>The client reports that the guard is armed exactly when the symbol was found and was called,
  and calls it exactly once; without the preloaded library it calls nothing and says so.\<close>

theorem try_arm_reports:
  "wpt any_answer (\<lambda>x s tr'. \<exists>sym err a b. if sym \<noteq> 0 \<and> \<not> err
       then x = Val True \<and> tr' = [(Stderr ''armed'', b), (CallSymbol sym, a), (LookupSymbol ''noalloc_guard_arm'', (sym, err))]
       else x = Val False \<and> tr' = [(Stderr ''not preloaded'', b), (LookupSymbol ''noalloc_guard_arm'', (sym, err))])
     noalloc_guard_try_arm () []"
  by (auto simp: noalloc_guard_try_arm_def lookup_guard_def)

end
