(* ===== verification/Dds.thy ===== *)
theory Dds
  imports Prelude
begin

text \<open>
  The constants of \<open>idl/dcps.idl\<close> that the C sources compare against: return codes, sample,
  view and instance states, and QoS policy identifiers.
\<close>

definition DDS_RETCODE_OK :: int where "DDS_RETCODE_OK = 0"
definition DDS_RETCODE_ERROR :: int where "DDS_RETCODE_ERROR = 1"
definition DDS_RETCODE_BAD_PARAMETER :: int where "DDS_RETCODE_BAD_PARAMETER = 3"
definition DDS_RETCODE_PRECONDITION_NOT_MET :: int where "DDS_RETCODE_PRECONDITION_NOT_MET = 4"
definition DDS_RETCODE_OUT_OF_RESOURCES :: int where "DDS_RETCODE_OUT_OF_RESOURCES = 5"
definition DDS_RETCODE_ALREADY_DELETED :: int where "DDS_RETCODE_ALREADY_DELETED = 9"
definition DDS_RETCODE_TIMEOUT :: int where "DDS_RETCODE_TIMEOUT = 10"
definition DDS_RETCODE_NO_DATA :: int where "DDS_RETCODE_NO_DATA = 11"

lemmas retcode_defs [simp] =
  DDS_RETCODE_OK_def DDS_RETCODE_ERROR_def DDS_RETCODE_BAD_PARAMETER_def
  DDS_RETCODE_PRECONDITION_NOT_MET_def DDS_RETCODE_OUT_OF_RESOURCES_def
  DDS_RETCODE_ALREADY_DELETED_def DDS_RETCODE_TIMEOUT_def DDS_RETCODE_NO_DATA_def

definition DDS_ALIVE_INSTANCE_STATE :: nat where "DDS_ALIVE_INSTANCE_STATE = 1"
definition DDS_NOT_ALIVE_DISPOSED_INSTANCE_STATE :: nat where "DDS_NOT_ALIVE_DISPOSED_INSTANCE_STATE = 2"
definition DDS_NOT_ALIVE_NO_WRITERS_INSTANCE_STATE :: nat where "DDS_NOT_ALIVE_NO_WRITERS_INSTANCE_STATE = 4"

lemmas instance_state_defs [simp] =
  DDS_ALIVE_INSTANCE_STATE_def DDS_NOT_ALIVE_DISPOSED_INSTANCE_STATE_def
  DDS_NOT_ALIVE_NO_WRITERS_INSTANCE_STATE_def

definition DDS_DURABILITY_QOS_POLICY_ID :: int where "DDS_DURABILITY_QOS_POLICY_ID = 2"
definition DDS_DEADLINE_QOS_POLICY_ID :: int where "DDS_DEADLINE_QOS_POLICY_ID = 4"
definition DDS_LATENCYBUDGET_QOS_POLICY_ID :: int where "DDS_LATENCYBUDGET_QOS_POLICY_ID = 5"
definition DDS_OWNERSHIP_QOS_POLICY_ID :: int where "DDS_OWNERSHIP_QOS_POLICY_ID = 6"
definition DDS_LIVELINESS_QOS_POLICY_ID :: int where "DDS_LIVELINESS_QOS_POLICY_ID = 8"
definition DDS_PARTITION_QOS_POLICY_ID :: int where "DDS_PARTITION_QOS_POLICY_ID = 10"
definition DDS_RELIABILITY_QOS_POLICY_ID :: int where "DDS_RELIABILITY_QOS_POLICY_ID = 11"
definition DDS_DESTINATIONORDER_QOS_POLICY_ID :: int where "DDS_DESTINATIONORDER_QOS_POLICY_ID = 12"
definition DDS_DATAREPRESENTATION_QOS_POLICY_ID :: int where "DDS_DATAREPRESENTATION_QOS_POLICY_ID = 23"

lemmas policy_id_defs [simp] =
  DDS_DURABILITY_QOS_POLICY_ID_def DDS_DEADLINE_QOS_POLICY_ID_def DDS_LATENCYBUDGET_QOS_POLICY_ID_def
  DDS_OWNERSHIP_QOS_POLICY_ID_def DDS_LIVELINESS_QOS_POLICY_ID_def DDS_PARTITION_QOS_POLICY_ID_def
  DDS_RELIABILITY_QOS_POLICY_ID_def DDS_DESTINATIONORDER_QOS_POLICY_ID_def
  DDS_DATAREPRESENTATION_QOS_POLICY_ID_def

end
