(* ===== verification/Jni_Runtime.thy ===== *)
theory Jni_Runtime
  imports Dds
begin

text \<open>
  The native half of \<open>io.zzdds.runtime.ZzddsRuntime\<close>, the first half of
  \<open>java_runtime/zzdds_java_runtime.c\<close> in the file's order: the checks at the boundary, the class
  caches and the bootstrap of factories, wait sets and conditions. Calls through the JNI function table,
  into the zzdds C ABI and into libc are the calls of the model; the answer record carries the value
  returned, whether a Java exception is pending afterwards, the data a call hands back, and whether an
  object it returns is a \<open>String\<close>. The
  function-local static caches, the other statics and the contents of the two heap-allocated context
  structures are the state. References, handles and method identifiers are naturals with 0 for null.
\<close>

section \<open>The environment\<close>

datatype native_fn =
    Create_factory | Factory_is_nil | Factory_as_DDS
  | Create_waitset | Waitset_is_nil | Destroy_waitset
  | Create_guardcondition | Guardcondition_is_nil | Destroy_guardcondition
  | Condition_register_external
  | Guard_as_Condition | Status_as_Condition | Query_as_Read | Read_as_Condition
  | Attach_condition | Attach_condition_with_release
  | Register_type_support
  | Register_instance_raw | Get_key_value_writer | Lookup_instance_writer
  | Get_key_value_reader | Lookup_instance_reader
  | Cft_match_sample
  | DataWriter_as_zzdds | Publisher_as_zzdds | Subscriber_as_zzdds | Cft_as_zzdds | Factory_as_zzdds
  | Configure_from_file

text \<open>What a field callback reports to the filter evaluator: \<open>zzdds_filter_value\<close>, or no value.
  A string value carries the pointer handed over and the text behind it.\<close>

datatype filter_value = NoField | IntField int | RealField nat | StringField nat string

datatype jni_call =
    GetObjectClass nat
  | GetFieldID nat string string
  | GetLongField nat nat
  | ExceptionClear
  | ExceptionCheck
  | FindClass string
  | ThrowNew nat string
  | GetStringUTFChars nat
  | ReleaseStringUTFChars nat nat
  | NewGlobalRef nat
  | DeleteGlobalRef nat
  | DeleteLocalRef nat
  | GetMethodID nat string string
  | GetStaticMethodID nat string string
  | IsInstanceOf nat nat
  | NewObject nat nat nat
  | NewByteArray int
  | SetByteArrayRegion nat "8 word list"
  | GetArrayLength nat
  | GetByteArrayRegion nat nat
  | NewStringUTF string
  | CallStaticObjectMethod nat nat "nat list"
  | CallObjectMethod nat nat "nat list"
  | CallLongMethod nat nat
  | CallDoubleMethod nat nat
  | RegisterNatives nat
  | GetEnv
  | MutexLock
  | MutexUnlock
  | Malloc
  | Free nat
  | FieldWanted filter_value
  | Native native_fn "nat list"

record jni_answer =
  ret :: nat
  rcode :: int
  throws :: bool
  data :: "8 word list"
  text_of :: string
  real_of :: nat
  is_string :: bool

text \<open>The function-local \<open>static zzdds_java_class_cache\<close> variables of the file.\<close>

datatype cache_id =
    CreateFactory_cache | CreateWaitSet_cache | CreateGuardCondition_cache | DestroyWaitSet_type_check
  | DestroyGuardCondition_type_check | Guard_cache | Status_cache | Query_cache
  | Read_cache | RegisterTypeSupport_type_check | RegisterInstanceRaw_type_check | GetKeyValueWriterRaw_type_check
  | LookupInstanceWriterRaw_type_check | GetKeyValueReaderRaw_type_check | LookupInstanceReaderRaw_type_check | CftMatchSample_type_check
  | AsZzddsDataWriter_type_check | AsZzddsDataWriter_cache | AsZzddsPublisher_type_check | AsZzddsPublisher_cache
  | AsZzddsSubscriber_type_check | AsZzddsSubscriber_cache | AsZzddsContentFilteredTopic_type_check | AsZzddsContentFilteredTopic_cache
  | AsZzddsFactory_type_check | AsZzddsFactory_cache

record class_cache =
  cache_cls :: nat
  cache_ctor :: nat

record ts_ctx =
  ts_cls :: nat
  ts_mid :: nat
  ts_key_only_mid :: nat
  ts_get_field_mid :: nat

record jni_state =
  caches :: "cache_id \<Rightarrow> class_cache"
  long_cls :: nat
  double_cls :: nat
  string_cls :: nat
  long_value_mid :: nat
  double_value_mid :: nat
  release_ctxs :: "nat \<Rightarrow> nat"
  ts_ctxs :: "nat \<Rightarrow> ts_ctx"

type_synonym jtrace = "(jni_call, jni_answer) trace"
type_synonym 'a jni = "(jni_state, jni_call, jni_answer, 'a) prog"

text \<open>A call whose integer or pointer result is used.\<close>

abbreviation Ask :: "jni_call \<Rightarrow> (nat \<Rightarrow> 'a jni) \<Rightarrow> 'a jni" where
  "Ask c k \<equiv> Call c (\<lambda>a. k (ret a))"

text \<open>\<open>(jsize)len\<close>: a 64-bit length cut to a signed 32-bit one.\<close>

definition jsize :: "nat \<Rightarrow> int" where
  "jsize len = sint (word_of_nat len :: 32 word)"

section \<open>Boundary checks\<close>

definition zzdds_java_unbox :: "nat \<Rightarrow> nat jni" where
  "zzdds_java_unbox obj =
     (if obj = 0 then Return 0
      else Ask (GetObjectClass obj) (\<lambda>cls.
           Ask (GetFieldID cls ''ptr_'' ''J'') (\<lambda>fid.
             if fid = 0 then Do ExceptionClear (Return 0)
             else Ask (GetLongField obj fid) Return)))"

text \<open>\<open>jclass c = FindClass(name); if (c != NULL) ThrowNew(c, msg);\<close>\<close>

definition throw_named :: "string \<Rightarrow> string \<Rightarrow> 'a jni \<Rightarrow> 'a jni" where
  "throw_named class_name msg p =
     Ask (FindClass class_name) (\<lambda>c. if c \<noteq> 0 then Do (ThrowNew c msg) p else p)"

definition zzdds_java_require_non_null :: "nat \<Rightarrow> string \<Rightarrow> bool jni" where
  "zzdds_java_require_non_null obj param_name =
     (if obj \<noteq> 0 then Return True
      else throw_named ''java/lang/NullPointerException'' param_name (Return False))"

definition zzdds_java_require_utf_chars :: "nat \<Rightarrow> string \<Rightarrow> nat jni" where
  "zzdds_java_require_utf_chars str param_name =
     bind_prog (zzdds_java_require_non_null str param_name) (\<lambda>ok.
       if \<not> ok then Return 0 else Ask (GetStringUTFChars str) Return)"

definition zzdds_java_require_unboxed :: "nat \<Rightarrow> string \<Rightarrow> nat jni" where
  "zzdds_java_require_unboxed obj param_name =
     bind_prog (zzdds_java_require_non_null obj param_name) (\<lambda>ok.
       if \<not> ok then Return 0
       else bind_prog (zzdds_java_unbox obj) (\<lambda>p.
         if p = 0 then throw_named ''java/lang/IllegalArgumentException'' param_name (Return p)
         else Return p))"

section \<open>Class caches\<close>

text \<open>\<open>cid\<close> names the static cache variable.\<close>

definition zzdds_java_get_or_cache_class :: "cache_id \<Rightarrow> string \<Rightarrow> bool jni" where
  "zzdds_java_get_or_cache_class cid class_name =
     Do MutexLock (Get (\<lambda>s.
       if cache_cls (caches s cid) = 0 then
         Ask (FindClass class_name) (\<lambda>local.
           if local = 0 then Do MutexUnlock (Return False)
           else Ask (NewGlobalRef local) (\<lambda>global.
             Do (DeleteLocalRef local)
               (if global = 0 then Do MutexUnlock (Return False)
                else Ask (GetMethodID global ''<init>'' ''(J)V'') (\<lambda>ctor.
                  if ctor = 0 then Do (DeleteGlobalRef global) (Do MutexUnlock (Return False))
                  else Get (\<lambda>s. Put (s\<lparr>caches := (caches s)(cid := \<lparr>cache_cls = global, cache_ctor = ctor\<rparr>)\<rparr>)
                         (Do MutexUnlock (Return True)))))))
       else Do MutexUnlock (Return True)))"

definition zzdds_java_require_instance_of :: "nat \<Rightarrow> cache_id \<Rightarrow> string \<Rightarrow> string \<Rightarrow> bool jni" where
  "zzdds_java_require_instance_of obj cid class_name param_name =
     bind_prog (zzdds_java_get_or_cache_class cid class_name) (\<lambda>ok.
       if ok then Get (\<lambda>s. Ask (IsInstanceOf obj (cache_cls (caches s cid))) (\<lambda>b.
              if b \<noteq> 0 then Return True
              else throw_named ''java/lang/IllegalArgumentException'' param_name (Return False)))
       else throw_named ''java/lang/IllegalArgumentException'' param_name (Return False))"

text \<open>The parallel arrays \<open>caches\<close> and \<open>class_names\<close> as one list of pairs.\<close>

fun zzdds_java_require_instance_of_any :: "nat \<Rightarrow> (cache_id \<times> string) list \<Rightarrow> string \<Rightarrow> bool jni" where
  "zzdds_java_require_instance_of_any obj [] param_name =
     throw_named ''java/lang/IllegalArgumentException'' param_name (Return False)"
| "zzdds_java_require_instance_of_any obj ((cid, class_name) # cs) param_name =
     bind_prog (zzdds_java_get_or_cache_class cid class_name) (\<lambda>ok.
       if ok then Get (\<lambda>s. Ask (IsInstanceOf obj (cache_cls (caches s cid))) (\<lambda>b.
              if b \<noteq> 0 then Return True else zzdds_java_require_instance_of_any obj cs param_name))
       else zzdds_java_require_instance_of_any obj cs param_name)"

text \<open>Resolve the wrapper class, then \<open>NewObject(cls, ctor, handle)\<close>.\<close>

definition box_handle :: "cache_id \<Rightarrow> string \<Rightarrow> nat \<Rightarrow> nat jni" where
  "box_handle cid class_name handle =
     bind_prog (zzdds_java_get_or_cache_class cid class_name) (\<lambda>ok.
       if \<not> ok then Return 0
       else Get (\<lambda>s. Ask (NewObject (cache_cls (caches s cid)) (cache_ctor (caches s cid)) handle) Return))"

section \<open>Factory, WaitSet and GuardCondition bootstrap\<close>

definition createFactory :: "nat jni" where
  "createFactory =
     Ask (Native Create_factory []) (\<lambda>zf.
     Ask (Native Factory_is_nil [zf]) (\<lambda>nil.
       if nil \<noteq> 0 then Return 0
       else Ask (Native Factory_as_DDS [zf]) (\<lambda>df.
         box_handle CreateFactory_cache ''io/zzdds/dcps/DomainParticipantFactoryImpl'' df)))"

definition zzdds_java_waitset_release_trampoline :: "nat \<Rightarrow> unit jni" where
  "zzdds_java_waitset_release_trampoline ctx =
     Ask GetEnv (\<lambda>env. Get (\<lambda>s.
       if env \<noteq> 0 then Do (DeleteGlobalRef (release_ctxs s ctx)) (Do (Free ctx) (Return ()))
       else Do (Free ctx) (Return ())))"

text \<open>\<open>get_or_cache_class(&c, n) && IsInstanceOf(cond, c.cls)\<close>, then one way or the other.\<close>

definition if_instance :: "nat \<Rightarrow> cache_id \<Rightarrow> string \<Rightarrow> 'a jni \<Rightarrow> 'a jni \<Rightarrow> 'a jni" where
  "if_instance obj cid class_name yes no =
     bind_prog (zzdds_java_get_or_cache_class cid class_name) (\<lambda>ok.
       if ok then Get (\<lambda>s. Ask (IsInstanceOf obj (cache_cls (caches s cid))) (\<lambda>b. if b \<noteq> 0 then yes else no))
       else no)"

definition zzdds_java_resolve_condition_handle :: "nat \<Rightarrow> nat jni" where
  "zzdds_java_resolve_condition_handle cond =
     bind_prog (zzdds_java_unbox cond) (\<lambda>raw.
       if_instance cond Guard_cache ''io/zzdds/dcps/GuardConditionImpl''
         (Ask (Native Guard_as_Condition [raw]) Return)
      (if_instance cond Status_cache ''io/zzdds/dcps/StatusConditionImpl''
         (Ask (Native Status_as_Condition [raw]) Return)
      (if_instance cond Query_cache ''io/zzdds/dcps/QueryConditionImpl''
         (Ask (Native Query_as_Read [raw]) (\<lambda>r. Ask (Native Read_as_Condition [r]) Return))
      (if_instance cond Read_cache ''io/zzdds/dcps/ReadConditionImpl''
         (Ask (Native Read_as_Condition [raw]) Return)
      (Return raw)))))"

definition zzdds_java_waitset_attach_condition :: "nat \<Rightarrow> nat \<Rightarrow> int jni" where
  "zzdds_java_waitset_attach_condition waitset cond =
     (if cond = 0 then Call (Native Attach_condition [waitset, 0]) (\<lambda>a. Return (rcode a))
      else bind_prog (zzdds_java_resolve_condition_handle cond) (\<lambda>h.
        Ask Malloc (\<lambda>ctx.
          if ctx = 0 then Return DDS_RETCODE_OUT_OF_RESOURCES
          else Ask (NewGlobalRef cond) (\<lambda>gref. Get (\<lambda>s. Put (s\<lparr>release_ctxs := (release_ctxs s)(ctx := gref)\<rparr>)
            (if gref = 0 then Do (Free ctx) (Return DDS_RETCODE_OUT_OF_RESOURCES)
             else Call (Native Attach_condition_with_release [waitset, h, ctx]) (\<lambda>a.
               let rc = rcode a; accepted = (ret a \<noteq> 0)
               in if rc \<noteq> DDS_RETCODE_OK \<or> \<not> accepted
                  then Do (DeleteGlobalRef gref) (Do (Free ctx) (Return rc))
                  else Return rc)))))))"

definition zzdds_java_waitset_natives_once_fn :: "unit jni" where
  "zzdds_java_waitset_natives_once_fn =
     Ask GetEnv (\<lambda>env.
       if env = 0 then Return ()
       else Ask (FindClass ''io/zzdds/dcps/WaitSetImpl'') (\<lambda>cls.
         if cls = 0 then Do ExceptionClear (Return ())
         else Do (RegisterNatives cls) (Do (DeleteLocalRef cls) (Return ()))))"

text \<open>\<open>pthread_once\<close>: the first caller runs the function; \<open>first\<close> tells whether this is it.\<close>

definition zzdds_java_ensure_waitset_natives_registered :: "bool \<Rightarrow> unit jni" where
  "zzdds_java_ensure_waitset_natives_registered first =
     (if first then zzdds_java_waitset_natives_once_fn else Return ())"

definition createWaitSet :: "bool \<Rightarrow> nat jni" where
  "createWaitSet first =
     bind_prog (zzdds_java_ensure_waitset_natives_registered first) (\<lambda>_.
     Ask (Native Create_waitset []) (\<lambda>ws.
     Ask (Native Waitset_is_nil [ws]) (\<lambda>nil.
       if nil \<noteq> 0 then Return 0
       else box_handle CreateWaitSet_cache ''io/zzdds/dcps/WaitSetImpl'' ws)))"

definition createGuardCondition :: "nat jni" where
  "createGuardCondition =
     Ask (Native Create_guardcondition []) (\<lambda>gc.
     Ask (Native Guardcondition_is_nil [gc]) (\<lambda>nil.
       if nil \<noteq> 0 then Return 0
       else bind_prog (box_handle CreateGuardCondition_cache ''io/zzdds/dcps/GuardConditionImpl'' gc) (\<lambda>obj.
         if obj = 0 then Return 0
         else Ask (Native Guard_as_Condition [gc]) (\<lambda>c.
              Do (Native Condition_register_external [c, obj]) (Return obj)))))"

definition destroyWaitSet :: "nat \<Rightarrow> unit jni" where
  "destroyWaitSet waitset =
     (if waitset = 0 then Return ()
      else bind_prog (zzdds_java_require_instance_of waitset DestroyWaitSet_type_check ''io/zzdds/dcps/WaitSetImpl'' ''waitset'') (\<lambda>ok.
        if \<not> ok then Return ()
        else bind_prog (zzdds_java_unbox waitset) (\<lambda>ws.
          if ws = 0 then Return () else Do (Native Destroy_waitset [ws]) (Return ()))))"

definition destroyGuardCondition :: "nat \<Rightarrow> unit jni" where
  "destroyGuardCondition guardcondition =
     (if guardcondition = 0 then Return ()
      else bind_prog (zzdds_java_require_instance_of guardcondition DestroyGuardCondition_type_check ''io/zzdds/dcps/GuardConditionImpl'' ''guardcondition'') (\<lambda>ok.
        if \<not> ok then Return ()
        else bind_prog (zzdds_java_unbox guardcondition) (\<lambda>gc.
          if gc = 0 then Return () else Do (Native Destroy_guardcondition [gc]) (Return ()))))"

end
