(* ===== verification/Jni_TypeSupport.thy ===== *)
theory Jni_TypeSupport
  imports Jni_Runtime
begin

text \<open>
  The second half of \<open>java_runtime/zzdds_java_runtime.c\<close>: type support registration and the
  trampolines zzdds calls on its own threads, the raw instance operations, content-filter matching
  with its callback into Java, and the narrowing functions to the zzdds extension views.
  A JNI function applied to a null reference where the JNI specification requires an object, or
  \<open>strlen\<close> of a null pointer, ends the model with \<open>Crash\<close>.
\<close>

section \<open>Key hashes\<close>

abbreviation zzdds_java_get_env :: "(nat \<Rightarrow> 'a jni) \<Rightarrow> 'a jni" where
  "zzdds_java_get_env k \<equiv> Ask GetEnv k"

text \<open>The result is the return code with the bytes stored in \<open>hash_out\<close>, if any were. The copy into the array is
  the whole payload: its length, cut to \<open>jsize\<close> in the code, is the one \<open>NewByteArray\<close> accepted.\<close>

definition zzdds_java_compute_key_hash_impl ::
  "ts_ctx \<Rightarrow> nat \<Rightarrow> 8 word list \<Rightarrow> (int \<times> 8 word list option) jni" where
  "zzdds_java_compute_key_hash_impl ctx mid payload =
     zzdds_java_get_env (\<lambda>env.
       if env = 0 then Return (- 1, None)
       else Ask (NewByteArray (jsize (length payload))) (\<lambda>arr.
         if arr = 0 then Do ExceptionClear (Return (- 1, None))
         else Do (SetByteArrayRegion arr payload)
           (Ask (CallStaticObjectMethod (ts_cls ctx) mid [arr]) (\<lambda>hash.
             Do (DeleteLocalRef arr)
               (Ask ExceptionCheck (\<lambda>exc.
                 if exc \<noteq> 0 then Do ExceptionClear (Return (- 1, None))
                 else if hash = 0 then Return (- 1, None)
                 else Ask (GetArrayLength hash) (\<lambda>n.
                   if n \<ge> 16
                   then Call (GetByteArrayRegion hash 16) (\<lambda>a.
                          Do (DeleteLocalRef hash) (Return (0, Some (data a))))
                   else Do (DeleteLocalRef hash) (Return (- 1, None)))))))))"

definition zzdds_java_compute_key_hash_ctx :: "nat \<Rightarrow> 8 word list \<Rightarrow> (int \<times> 8 word list option) jni" where
  "zzdds_java_compute_key_hash_ctx ctx payload =
     Get (\<lambda>s. zzdds_java_compute_key_hash_impl (ts_ctxs s ctx) (ts_mid (ts_ctxs s ctx)) payload)"

definition zzdds_java_compute_key_hash_key_only_ctx ::
  "nat \<Rightarrow> 8 word list \<Rightarrow> (int \<times> 8 word list option) jni" where
  "zzdds_java_compute_key_hash_key_only_ctx ctx payload =
     Get (\<lambda>s. zzdds_java_compute_key_hash_impl (ts_ctxs s ctx) (ts_key_only_mid (ts_ctxs s ctx)) payload)"

section \<open>Field access for content filters\<close>

text \<open>A call on a reference that must not be null.\<close>

abbreviation needs :: "nat \<Rightarrow> string \<Rightarrow> 'a jni \<Rightarrow> 'a jni" where
  "needs r what p \<equiv> (if r = 0 then Leaf (Crash what) else p)"

text \<open>The three function-local class caches of \<open>zzdds_java_get_field_from_cdr_ctx\<close>.\<close>

definition ensure_long_class :: "unit jni" where
  "ensure_long_class = Get (\<lambda>s.
     if long_cls s \<noteq> 0 then Return ()
     else Ask (FindClass ''java/lang/Long'') (\<lambda>local. Ask (NewGlobalRef local) (\<lambda>g.
          Put (s\<lparr>long_cls := g\<rparr>) (needs g ''GetMethodID''
            (Ask (GetMethodID g ''longValue'' ''()J'') (\<lambda>m.
               Put (s\<lparr>long_cls := g, long_value_mid := m\<rparr>) (Return ())))))))"

definition ensure_double_class :: "unit jni" where
  "ensure_double_class = Get (\<lambda>s.
     if double_cls s \<noteq> 0 then Return ()
     else Ask (FindClass ''java/lang/Double'') (\<lambda>local. Ask (NewGlobalRef local) (\<lambda>g.
          Put (s\<lparr>double_cls := g\<rparr>) (needs g ''GetMethodID''
            (Ask (GetMethodID g ''doubleValue'' ''()D'') (\<lambda>m.
               Put (s\<lparr>double_cls := g, double_value_mid := m\<rparr>) (Return ())))))))"

definition ensure_string_class :: "unit jni" where
  "ensure_string_class = Get (\<lambda>s.
     if string_cls s \<noteq> 0 then Return ()
     else Ask (FindClass ''java/lang/String'') (\<lambda>local. Ask (NewGlobalRef local) (\<lambda>g.
          Put (s\<lparr>string_cls := g\<rparr>) (Return ()))))"

text \<open>The conversion of the boxed result, from the first \<open>IsInstanceOf\<close> on. A string is reported
  with the address of the scratch buffer.\<close>

definition field_value_of :: "nat \<Rightarrow> nat \<Rightarrow> nat \<Rightarrow> filter_value jni" where
  "field_value_of result scratch scratch_len = Get (\<lambda>s.
     Ask (IsInstanceOf result (long_cls s)) (\<lambda>is_long.
       if is_long \<noteq> 0 then Call (CallLongMethod result (long_value_mid s)) (\<lambda>a. Return (IntField (rcode a)))
       else Ask (IsInstanceOf result (double_cls s)) (\<lambda>is_double.
         if is_double \<noteq> 0 then Call (CallDoubleMethod result (double_value_mid s)) (\<lambda>a. Return (RealField (real_of a)))
         else needs (string_cls s) ''IsInstanceOf'' (Ask (IsInstanceOf result (string_cls s)) (\<lambda>is_string.
           if is_string = 0 then Return NoField
           else Call (GetStringUTFChars result) (\<lambda>a.
             needs (ret a) ''strlen''
               (if length (text_of a) > scratch_len
                then Do (ReleaseStringUTFChars result (ret a)) (Return NoField)
                else Do (ReleaseStringUTFChars result (ret a))
                       (Return (StringField scratch (text_of a))))))))))"

definition zzdds_java_get_field_from_cdr_ctx ::
  "nat \<Rightarrow> 8 word list \<Rightarrow> string \<Rightarrow> nat \<Rightarrow> nat \<Rightarrow> filter_value jni" where
  "zzdds_java_get_field_from_cdr_ctx ctx_v payload field scratch scratch_len = Get (\<lambda>s.
     let ctx = ts_ctxs s ctx_v in
     if ts_get_field_mid ctx = 0 then Return NoField
     else zzdds_java_get_env (\<lambda>env.
       if env = 0 then Return NoField
       else Ask (NewByteArray (jsize (length payload))) (\<lambda>arr.
         needs arr ''SetByteArrayRegion'' (Do (SetByteArrayRegion arr payload)
           (if length field \<ge> 128 then Return NoField
            else Ask (NewStringUTF field) (\<lambda>jfield.
              Ask (CallStaticObjectMethod (ts_cls ctx) (ts_get_field_mid ctx) [arr, jfield]) (\<lambda>result.
              Ask ExceptionCheck (\<lambda>exc.
                if exc \<noteq> 0 then Do ExceptionClear (Return NoField)
                else if result = 0 then Return NoField
                else bind_prog ensure_long_class (\<lambda>_.
                     bind_prog ensure_double_class (\<lambda>_.
                     bind_prog ensure_string_class (\<lambda>_.
                     field_value_of result scratch scratch_len)))))))))))"

section \<open>Type support registration\<close>

definition zzdds_java_ts_ctx_deinit :: "nat \<Rightarrow> unit jni" where
  "zzdds_java_ts_ctx_deinit ctx =
     zzdds_java_get_env (\<lambda>env. Get (\<lambda>s.
       if env \<noteq> 0 then Do (DeleteGlobalRef (ts_cls (ts_ctxs s ctx))) (Do (Free ctx) (Return ()))
       else Do (Free ctx) (Return ())))"

text \<open>An optional method: a missing one clears the pending exception.\<close>

definition optional_static_method :: "nat \<Rightarrow> string \<Rightarrow> string \<Rightarrow> (nat \<Rightarrow> 'a jni) \<Rightarrow> 'a jni" where
  "optional_static_method cls name sig k =
     Ask (GetStaticMethodID cls name sig) (\<lambda>m. if m = 0 then Do ExceptionClear (k 0) else k m)"

definition of_bool_arg :: "bool \<Rightarrow> nat" where
  "of_bool_arg b = (if b then 1 else 0)"

text \<open>From the allocation of the context on. The two optional trampolines are passed to the native
  registration as flags: 1 for the trampoline, 0 for null.\<close>

definition install_type_support :: "nat \<Rightarrow> nat \<Rightarrow> nat \<Rightarrow> int jni" where
  "install_type_support p typeName typeClass =
     Ask Malloc (\<lambda>ctx.
       if ctx = 0 then Return (- 1)
       else Ask (NewGlobalRef typeClass) (\<lambda>cls.
         if cls = 0 then Do (Free ctx) (Return (- 1))
         else Ask (GetStaticMethodID typeClass ''computeKeyHashFromCdr'' ''([B)[B'') (\<lambda>mid.
           if mid = 0 then Do (DeleteGlobalRef cls) (Do (Free ctx) (Return (- 1)))
           else optional_static_method typeClass ''computeKeyHashFromCdrKeyOnly'' ''([B)[B'' (\<lambda>key_only.
                optional_static_method typeClass ''getFieldFromCdr'' ''([BLjava/lang/String;)Ljava/lang/Object;'' (\<lambda>get_field.
                Get (\<lambda>s. Put (s\<lparr>ts_ctxs := (ts_ctxs s)(ctx := \<lparr>ts_cls = cls, ts_mid = mid,
                       ts_key_only_mid = key_only, ts_get_field_mid = get_field\<rparr>)\<rparr>)
                (Ask (GetStringUTFChars typeName) (\<lambda>type_name_c.
                 Call (Native Register_type_support [p, type_name_c, of_bool_arg (key_only \<noteq> 0), of_bool_arg (get_field \<noteq> 0), ctx]) (\<lambda>a.
                 Do (ReleaseStringUTFChars typeName type_name_c)
                   (if rcode a \<noteq> 0
                    then Do (DeleteGlobalRef cls) (Do (Free ctx) (Return (rcode a)))
                    else Return (rcode a)))))))))))"

definition registerTypeSupport :: "nat \<Rightarrow> nat \<Rightarrow> nat \<Rightarrow> int jni" where
  "registerTypeSupport participant typeName typeClass =
     bind_prog (zzdds_java_require_non_null participant ''participant'') (\<lambda>ok1.
     if \<not> ok1 then Return (- 1) else
     bind_prog (zzdds_java_require_instance_of participant RegisterTypeSupport_type_check
       ''io/zzdds/dcps/DomainParticipantImpl'' ''participant'') (\<lambda>ok2.
     if \<not> ok2 then Return (- 1) else
     bind_prog (zzdds_java_unbox participant) (\<lambda>p.
     bind_prog (zzdds_java_require_non_null typeName ''typeName'') (\<lambda>ok3.
     if \<not> ok3 then Return (- 1) else
     bind_prog (zzdds_java_require_non_null typeClass ''typeClass'') (\<lambda>ok4.
     if \<not> ok4 then Return (- 1) else install_type_support p typeName typeClass)))))"

section \<open>Raw instance operations\<close>

text \<open>
  The checks shared by the five raw operations: a non-null entity of the expected class with a
  non-null handle, or the given default.
\<close>

definition with_entity :: "nat \<Rightarrow> cache_id \<Rightarrow> string \<Rightarrow> string \<Rightarrow> (nat \<Rightarrow> nat jni) \<Rightarrow> nat jni" where
  "with_entity obj cid class_name param_name body =
     bind_prog (zzdds_java_require_non_null obj param_name) (\<lambda>ok1.
     if \<not> ok1 then Return 0 else
     bind_prog (zzdds_java_require_instance_of obj cid class_name param_name) (\<lambda>ok2.
     if \<not> ok2 then Return 0 else
     bind_prog (zzdds_java_unbox obj) (\<lambda>h. if h = 0 then Return 0 else body h)))"

text \<open>\<open>hash_buf\<close> is read from the Java array and handed to a native lookup.\<close>

definition instance_by_hash :: "native_fn \<Rightarrow> nat \<Rightarrow> nat \<Rightarrow> nat jni" where
  "instance_by_hash fn keyHash h =
     needs keyHash ''GetByteArrayRegion'' (Call (GetByteArrayRegion keyHash 16) (\<lambda>a.
       Ask (Native fn (h # map unat (data a))) Return))"

text \<open>\<open>buf\<close> of 4096 bytes is filled by the native call and copied out into a new Java array.\<close>

definition key_value_by_handle :: "native_fn \<Rightarrow> nat \<Rightarrow> nat \<Rightarrow> nat jni" where
  "key_value_by_handle fn handle h =
     Call (Native fn [h, handle, 4096]) (\<lambda>a.
       if rcode a \<noteq> 0 then Return 0
       else Ask (NewByteArray (jsize (ret a))) (\<lambda>result.
         needs result ''SetByteArrayRegion''
           (if 4096 < ret a then Leaf (Crash ''read past buf'')
            else Do (SetByteArrayRegion result (take (ret a) (data a))) (Return result))))"

definition registerInstanceRaw :: "nat \<Rightarrow> nat \<Rightarrow> nat jni" where
  "registerInstanceRaw writer keyHash =
     with_entity writer RegisterInstanceRaw_type_check ''io/zzdds/dcps/DataWriterImpl'' ''writer''
       (instance_by_hash Register_instance_raw keyHash)"

definition getKeyValueWriterRaw :: "nat \<Rightarrow> nat \<Rightarrow> nat jni" where
  "getKeyValueWriterRaw writer handle =
     with_entity writer GetKeyValueWriterRaw_type_check ''io/zzdds/dcps/DataWriterImpl'' ''writer''
       (key_value_by_handle Get_key_value_writer handle)"

definition lookupInstanceWriterRaw :: "nat \<Rightarrow> nat \<Rightarrow> nat jni" where
  "lookupInstanceWriterRaw writer keyHash =
     with_entity writer LookupInstanceWriterRaw_type_check ''io/zzdds/dcps/DataWriterImpl'' ''writer''
       (instance_by_hash Lookup_instance_writer keyHash)"

definition getKeyValueReaderRaw :: "nat \<Rightarrow> nat \<Rightarrow> nat jni" where
  "getKeyValueReaderRaw reader handle =
     with_entity reader GetKeyValueReaderRaw_type_check ''io/zzdds/dcps/DataReaderImpl'' ''reader''
       (key_value_by_handle Get_key_value_reader handle)"

definition lookupInstanceReaderRaw :: "nat \<Rightarrow> nat \<Rightarrow> nat jni" where
  "lookupInstanceReaderRaw reader keyHash =
     with_entity reader LookupInstanceReaderRaw_type_check ''io/zzdds/dcps/DataReaderImpl'' ''reader''
       (instance_by_hash Lookup_instance_reader keyHash)"

section \<open>Content-filter matching\<close>

definition ZZDDS_JAVA_CFT_MAX_STRINGS :: nat where
  "ZZDDS_JAVA_CFT_MAX_STRINGS = 8"

text \<open>\<open>kept\<close> and \<open>kept_chars\<close> side by side, oldest first.\<close>

record cft_ctx =
  accessor :: nat
  get_mid :: nat
  kept :: "(nat \<times> nat) list"

text \<open>\<open>excepted\<close> says that an exception is pending when the callback is entered, and the last component of
  the result that one is pending when it returns: the callback leaves an exception of the accessor pending. JNI
  forbids the calls that follow \<open>Crash\<close> branches: a call other than the few for cleaning up with an exception
  pending, a null class or method, and \<open>GetStringUTFChars\<close> on an object that is no \<open>String\<close>.\<close>

definition zzdds_java_cft_get :: "cft_ctx \<Rightarrow> bool \<Rightarrow> string \<Rightarrow> (filter_value \<times> cft_ctx \<times> bool) jni" where
  "zzdds_java_cft_get ctx excepted field =
     (if length field \<ge> 64 then Return (NoField, ctx, excepted)
      else if excepted then Leaf (Crash ''NewStringUTF with an exception pending'')
      else Call (NewStringUTF field) (\<lambda>jfield.
        if throws jfield then Leaf (Crash ''CallObjectMethod with an exception pending'')
        else Call (CallObjectMethod (accessor ctx) (get_mid ctx) [ret jfield]) (\<lambda>result.
        Do (DeleteLocalRef (ret jfield))
        (if ret result = 0 then Return (NoField, ctx, throws result)
         else Ask ExceptionCheck (\<lambda>exc.
           if exc \<noteq> 0 then Return (NoField, ctx, True)
           else Ask (FindClass ''java/lang/Long'') (\<lambda>long.
             needs long ''IsInstanceOf'' (Ask (IsInstanceOf (ret result) long) (\<lambda>is_long.
               if is_long \<noteq> 0
               then Ask (GetMethodID long ''longValue'' ''()J'') (\<lambda>mid.
                      needs mid ''CallLongMethod'' (Call (CallLongMethod (ret result) mid) (\<lambda>a.
                        Do (DeleteLocalRef (ret result)) (Return (IntField (rcode a), ctx, throws a)))))
               else if length (kept ctx) \<ge> ZZDDS_JAVA_CFT_MAX_STRINGS
               then Do (DeleteLocalRef (ret result)) (Return (NoField, ctx, False))
               else if \<not> is_string result then Leaf (Crash ''GetStringUTFChars on an object that is no String'')
               else Call (GetStringUTFChars (ret result)) (\<lambda>a.
                 needs (ret a) ''strlen''
                   (Return (StringField (ret a) (text_of a), ctx\<lparr>kept := kept ctx @ [(ret result, ret a)]\<rparr>, False)))))))))))"

text \<open>
  \<open>zzdds_cft_match_sample\<close> evaluates the filter outside this file and calls the field callback
  while it does. \<open>FieldWanted v\<close> resumes the evaluator with the value of the last callback; its answer
  is either the next field it wants (\<open>ret\<close> nonzero, \<open>text_of\<close> the name) or the verdict
  (\<open>ret\<close> zero, \<open>rcode\<close> nonzero for a match). The number of callbacks one evaluation makes
  is bounded by the fuel.
\<close>

fun cft_evaluate :: "nat \<Rightarrow> cft_ctx \<Rightarrow> bool \<Rightarrow> filter_value \<Rightarrow> (bool \<times> cft_ctx) jni" where
  "cft_evaluate 0 ctx excepted v = Leaf OutOfFuel"
| "cft_evaluate (Suc n) ctx excepted v =
     Call (FieldWanted v) (\<lambda>a.
       if ret a = 0 then Return (rcode a \<noteq> 0, ctx)
       else bind_prog (zzdds_java_cft_get ctx excepted (text_of a)) (\<lambda>(v', ctx', excepted'). cft_evaluate n ctx' excepted' v'))"

fun release_kept :: "(nat \<times> nat) list \<Rightarrow> unit jni" where
  "release_kept [] = Return ()"
| "release_kept ((jstr, cstr) # rest) =
     Do (ReleaseStringUTFChars jstr cstr) (Do (DeleteLocalRef jstr) (release_kept rest))"

definition cftMatchSample :: "nat \<Rightarrow> nat \<Rightarrow> nat \<Rightarrow> bool jni" where
  "cftMatchSample fuel cft acc =
     (if cft = 0 then Return True else
      bind_prog (zzdds_java_require_instance_of cft CftMatchSample_type_check
        ''io/zzdds/dcps/ContentFilteredTopicImpl'' ''cft'') (\<lambda>ok1.
      if \<not> ok1 then Return False else
      bind_prog (zzdds_java_require_non_null acc ''accessor'') (\<lambda>ok2.
      if \<not> ok2 then Return False else
      bind_prog (zzdds_java_unbox cft) (\<lambda>c.
      Ask (GetObjectClass acc) (\<lambda>acc_cls.
      Ask (GetMethodID acc_cls ''get'' ''(Ljava/lang/String;)Ljava/lang/Object;'') (\<lambda>mid.
        if mid = 0 then Return True
        else Do (Native Cft_match_sample [c])
          (bind_prog (cft_evaluate fuel \<lparr>accessor = acc, get_mid = mid, kept = []\<rparr> False NoField) (\<lambda>(matched, ctx).
           bind_prog (release_kept (kept ctx)) (\<lambda>_. Return matched)))))))))"

section \<open>Extension views\<close>

text \<open>
  The five narrowing functions are one sequence with different names: check the argument, unbox it,
  call the narrowing function of the C ABI, box the result as the extension class.
\<close>

definition narrow :: "native_fn \<Rightarrow> cache_id \<Rightarrow> string \<Rightarrow> string \<Rightarrow> cache_id \<Rightarrow> string \<Rightarrow> nat \<Rightarrow> nat jni" where
  "narrow fn check_cid base_class param_name cid ext_class obj =
     bind_prog (zzdds_java_require_non_null obj param_name) (\<lambda>ok1.
     if \<not> ok1 then Return 0 else
     bind_prog (zzdds_java_require_instance_of obj check_cid base_class param_name) (\<lambda>ok2.
     if \<not> ok2 then Return 0 else
     bind_prog (zzdds_java_require_unboxed obj param_name) (\<lambda>h.
     if h = 0 then Return 0 else
     Ask (Native fn [h]) (\<lambda>z. box_handle cid ext_class z))))"

definition asZzddsDataWriter :: "nat \<Rightarrow> nat jni" where
  "asZzddsDataWriter = narrow DataWriter_as_zzdds AsZzddsDataWriter_type_check
     ''io/zzdds/dcps/DataWriterImpl'' ''writer'' AsZzddsDataWriter_cache ''io/zzdds/ext/DataWriterImpl''"

definition asZzddsPublisher :: "nat \<Rightarrow> nat jni" where
  "asZzddsPublisher = narrow Publisher_as_zzdds AsZzddsPublisher_type_check
     ''io/zzdds/dcps/PublisherImpl'' ''publisher'' AsZzddsPublisher_cache ''io/zzdds/ext/PublisherImpl''"

definition asZzddsSubscriber :: "nat \<Rightarrow> nat jni" where
  "asZzddsSubscriber = narrow Subscriber_as_zzdds AsZzddsSubscriber_type_check
     ''io/zzdds/dcps/SubscriberImpl'' ''subscriber'' AsZzddsSubscriber_cache ''io/zzdds/ext/SubscriberImpl''"

definition asZzddsContentFilteredTopic :: "nat \<Rightarrow> nat jni" where
  "asZzddsContentFilteredTopic = narrow Cft_as_zzdds AsZzddsContentFilteredTopic_type_check
     ''io/zzdds/dcps/ContentFilteredTopicImpl'' ''cft'' AsZzddsContentFilteredTopic_cache
     ''io/zzdds/ext/ContentFilteredTopicImpl''"

definition configureFromFile :: "nat \<Rightarrow> int jni" where
  "configureFromFile path =
     bind_prog (zzdds_java_require_utf_chars path ''path'') (\<lambda>c_path.
       if c_path = 0 then Return DDS_RETCODE_BAD_PARAMETER
       else Call (Native Configure_from_file [c_path, 0]) (\<lambda>a.
            Do (ReleaseStringUTFChars path c_path) (Return (rcode a))))"

definition asZzddsFactory :: "nat \<Rightarrow> nat jni" where
  "asZzddsFactory = narrow Factory_as_zzdds AsZzddsFactory_type_check
     ''io/zzdds/dcps/DomainParticipantFactoryImpl'' ''factory'' AsZzddsFactory_cache
     ''io/zzdds/ext/DomainParticipantFactoryImpl''"

end
