(* ===== verification/Jni_Contracts.thy ===== *)
theory Jni_Contracts
  imports Jni_TypeSupport
begin

text \<open>
  Contracts of the JNI runtime. A trace determines whether a Java exception is pending, how often
  each local and global reference, UTF buffer and heap block is still held, and whether the class
  cache mutex is held. \<open>jni_ok\<close> states what the JNI specification documents about failing calls;
  the theorems quantify over every environment with that behaviour.
\<close>

section \<open>Measures of a trace\<close>

fun pending :: "jtrace \<Rightarrow> bool" where
  "pending [] = False"
| "pending ((c, a) # tr) = (c \<noteq> ExceptionClear \<and> (throws a \<or> pending tr))"

text \<open>Calls that hand the caller a new local reference.\<close>

fun makes_local :: "jni_call \<Rightarrow> bool" where
  "makes_local (GetObjectClass _) = True"
| "makes_local (FindClass _) = True"
| "makes_local (NewObject _ _ _) = True"
| "makes_local (NewByteArray _) = True"
| "makes_local (NewStringUTF _) = True"
| "makes_local (CallStaticObjectMethod _ _ _) = True"
| "makes_local (CallObjectMethod _ _ _) = True"
| "makes_local _ = False"

fun makes_global :: "jni_call \<Rightarrow> bool" where
  "makes_global (NewGlobalRef _) = True"
| "makes_global _ = False"

fun makes_utf :: "jni_call \<Rightarrow> bool" where
  "makes_utf (GetStringUTFChars _) = True"
| "makes_utf _ = False"

fun frees_utf :: "jni_call \<Rightarrow> nat option" where
  "frees_utf (ReleaseStringUTFChars _ p) = Some p"
| "frees_utf _ = None"

text \<open>How often reference \<open>r\<close> was handed out minus how often it was given back.\<close>

definition gain :: "bool \<Rightarrow> bool \<Rightarrow> int" where
  "gain made given = of_bool made - of_bool given"

fun locals_of :: "nat \<Rightarrow> jtrace \<Rightarrow> int" where
  "locals_of r [] = 0"
| "locals_of r ((c, a) # tr) = gain (makes_local c \<and> ret a = r) (c = DeleteLocalRef r) + locals_of r tr"

fun globals_of :: "nat \<Rightarrow> jtrace \<Rightarrow> int" where
  "globals_of r [] = 0"
| "globals_of r ((c, a) # tr) = gain (makes_global c \<and> ret a = r) (c = DeleteGlobalRef r) + globals_of r tr"

fun utf_of :: "nat \<Rightarrow> jtrace \<Rightarrow> int" where
  "utf_of r [] = 0"
| "utf_of r ((c, a) # tr) = gain (makes_utf c \<and> ret a = r) (frees_utf c = Some r) + utf_of r tr"

fun heap_of :: "nat \<Rightarrow> jtrace \<Rightarrow> int" where
  "heap_of r [] = 0"
| "heap_of r ((c, a) # tr) = gain (c = Malloc \<and> ret a = r) (c = Free r) + heap_of r tr"

fun locked :: "jtrace \<Rightarrow> int" where
  "locked [] = 0"
| "locked ((c, a) # tr) = gain (c = MutexLock) (c = MutexUnlock) + locked tr"

lemma gain_simps [simp]: "gain b False = of_bool b" "gain False b = - of_bool b"
  by (simp_all add: gain_def)

text \<open>
  What the JNI specification documents: a class, method or field that is not found, an array or a
  UTF buffer that cannot be allocated leaves an exception pending; \<open>ThrowNew\<close> leaves one pending;
  every object has a class; \<open>ExceptionCheck\<close> reports whether one is pending.
\<close>

fun jni_ok :: "jtrace \<Rightarrow> jni_call \<Rightarrow> jni_answer \<Rightarrow> bool" where
  "jni_ok tr (FindClass _) a = (ret a = 0 \<longrightarrow> throws a)"
| "jni_ok tr (GetFieldID _ _ _) a = (ret a = 0 \<longrightarrow> throws a)"
| "jni_ok tr (GetMethodID _ _ _) a = (ret a = 0 \<longrightarrow> throws a)"
| "jni_ok tr (GetStaticMethodID _ _ _) a = (ret a = 0 \<longrightarrow> throws a)"
| "jni_ok tr (NewByteArray _) a = (ret a = 0 \<longleftrightarrow> throws a)"
| "jni_ok tr (GetStringUTFChars _) a = (ret a = 0 \<longrightarrow> throws a)"
| "jni_ok tr (ThrowNew _ _) a = throws a"
| "jni_ok tr (GetObjectClass _) a = (ret a \<noteq> 0 \<and> \<not> throws a)"
| "jni_ok tr ExceptionCheck a = ((ret a \<noteq> 0) = pending tr \<and> \<not> throws a)"
| "jni_ok tr (GetLongField _ _) a = (\<not> throws a)"
| "jni_ok tr (GetArrayLength _) a = (\<not> throws a)"
| "jni_ok tr (SetByteArrayRegion _ _) a = (\<not> throws a)"
| "jni_ok tr (GetByteArrayRegion r n) a =
     ((\<exists>b. (GetArrayLength r, b) \<in> set tr \<and> n \<le> ret b) \<longrightarrow> \<not> throws a \<and> length (data a) = n)"
| "jni_ok tr (NewObject _ _ _) a = (ret a = 0 \<longrightarrow> throws a)"
| "jni_ok tr (CallStaticObjectMethod _ _ _) a = (throws a \<longrightarrow> ret a = 0)"
| "jni_ok tr (DeleteLocalRef _) a = (\<not> throws a)"
| "jni_ok tr (DeleteGlobalRef _) a = (\<not> throws a)"
| "jni_ok tr GetEnv a = (\<not> throws a)"
| "jni_ok tr MutexLock a = (\<not> throws a)"
| "jni_ok tr MutexUnlock a = (\<not> throws a)"
| "jni_ok tr _ _ = True"

text \<open>A virtual machine in which every lookup succeeds, used to run the model.\<close>

definition jvm :: "(jni_call, jni_answer) env" where
  "jvm tr c = \<lparr>ret = (case c of ExceptionCheck \<Rightarrow> of_bool (pending tr) | Native Factory_is_nil _ \<Rightarrow> 0
       | Malloc \<Rightarrow> 9 | GetArrayLength _ \<Rightarrow> 16 | FieldWanted _ \<Rightarrow> 0 | _ \<Rightarrow> 7),
     rcode = 0, throws = (case c of ThrowNew _ _ \<Rightarrow> True | _ \<Rightarrow> False),
     data = (case c of GetByteArrayRegion _ n \<Rightarrow> replicate n 0 | _ \<Rightarrow> []), text_of = [], real_of = 0, is_string = False\<rparr>"

lemma jvm_ok: "jni_ok tr c (jvm tr c)"
  by (cases c) (auto simp: jvm_def)

definition jni_start :: jni_state where
  "jni_start = \<lparr>caches = (\<lambda>_. \<lparr>cache_cls = 0, cache_ctor = 0\<rparr>), long_cls = 0, double_cls = 0, string_cls = 0,
     long_value_mid = 0, double_value_mid = 0, release_ctxs = (\<lambda>_. 0), ts_ctxs = (\<lambda>_. \<lparr>ts_cls = 0, ts_mid = 0,
     ts_key_only_mid = 0, ts_get_field_mid = 0\<rparr>)\<rparr>"

section \<open>Boundary checks\<close>

lemmas check_defs = zzdds_java_require_unboxed_def zzdds_java_require_non_null_def
  zzdds_java_unbox_def throw_named_def

lemma throw_named_pending:
  "wpt jni_ok (\<lambda>x s' tr'. x = Val v \<and> s' = s \<and> pending tr' \<and> locked tr' = locked tr)
     (throw_named class_name msg (Return v)) s tr"
  by (simp add: throw_named_def)

text \<open>Every object handed to a native method is checked before its handle is used: for any Java
  object, whatever the virtual machine answers, \<open>zzdds_java_require_unboxed\<close> returns a handle, and
  when that handle is null a Java exception is pending, so the caller's early return always surfaces
  as an exception in Java; the runtime's statics are untouched.\<close>

theorem require_unboxed_contract:
  "wpt jni_ok (\<lambda>x s' tr'. s' = s \<and> (\<exists>p. x = Val p \<and> (p = 0 \<longrightarrow> pending tr')))
     (zzdds_java_require_unboxed obj param_name) s tr"
  by (auto simp: zzdds_java_require_unboxed_def zzdds_java_require_non_null_def zzdds_java_unbox_def
      throw_named_def)

theorem require_unboxed_contract_witness:
  "fst (run jvm (zzdds_java_require_unboxed 5 ''writer'') jni_start []) = Val 7 \<and>
   fst (run jvm (zzdds_java_require_unboxed 0 ''writer'') jni_start []) = Val 0 \<and>
   pending (snd (snd (run jvm (zzdds_java_require_unboxed 0 ''writer'') jni_start [])))"
proof -
  have eval: "fst (run jvm (zzdds_java_require_unboxed 5 ''writer'') jni_start []) = Val 7"
    "fst (run jvm (zzdds_java_require_unboxed 0 ''writer'') jni_start []) = Val 0"
    by (simp_all add: check_defs jvm_def)
  with wpt_run_result [OF require_unboxed_contract [of jni_start 0 "''writer''" "[]"] jvm_ok]
  show ?thesis by simp
qed

section \<open>Class caches\<close>

text \<open>A static cache is either untouched or holds both a class and its constructor.\<close>

definition cache_ok :: "jni_state \<Rightarrow> bool" where
  "cache_ok s \<longleftrightarrow> (\<forall>cid. (cache_ctor (caches s cid) = 0) = (cache_cls (caches s cid) = 0))"

lemma cache_ok_start [simp]: "cache_ok jni_start"
  by (simp add: cache_ok_def jni_start_def)

definition same_but_caches :: "jni_state \<Rightarrow> jni_state \<Rightarrow> bool" where
  "same_but_caches s s' \<longleftrightarrow> (\<exists>c. s' = s\<lparr>caches := c\<rparr>)"

lemma same_but_caches_refl [simp]: "same_but_caches s s"
  unfolding same_but_caches_def by (rule exI [of _ "caches s"]) simp

lemma same_but_caches_upd [simp]: "same_but_caches s (s\<lparr>caches := c\<rparr>)"
  unfolding same_but_caches_def by blast

lemma same_but_caches_trans [trans]:
  "same_but_caches s s' \<Longrightarrow> same_but_caches s' s'' \<Longrightarrow> same_but_caches s s''"
  unfolding same_but_caches_def by force

text \<open>The full effect of resolving a class: the answer says whether the cache is filled, a failure
  leaves the statics alone, a filled cache never changes, and every reference other than the class
  reference just cached is given back before the mutex is released.\<close>

definition cache_post :: "cache_id \<Rightarrow> jni_state \<Rightarrow> jtrace \<Rightarrow> bool outcome \<Rightarrow> jni_state \<Rightarrow> jtrace \<Rightarrow> bool" where
  "cache_post cid s tr x s' tr' \<longleftrightarrow>
     (\<exists>ok. x = Val ok \<and> ok = (cache_cls (caches s' cid) \<noteq> 0) \<and> (\<not> ok \<longrightarrow> s' = s)) \<and>
     cache_ok s' \<and> same_but_caches s s' \<and>
     (\<forall>c. cache_cls (caches s c) \<noteq> 0 \<longrightarrow> caches s' c = caches s c) \<and>
     (\<forall>c. c \<noteq> cid \<longrightarrow> caches s' c = caches s c) \<and>
     locked tr' = locked tr \<and>
     (\<forall>r. r \<noteq> 0 \<longrightarrow> locals_of r tr' = locals_of r tr) \<and>
     (\<forall>r. r \<noteq> 0 \<longrightarrow> globals_of r tr' = globals_of r tr
         + of_bool (cache_cls (caches s cid) = 0 \<and> cache_cls (caches s' cid) = r)) \<and>
     (\<forall>r. utf_of r tr' = utf_of r tr \<and> heap_of r tr' = heap_of r tr)"

lemma get_or_cache_class_post:
  "cache_ok s \<Longrightarrow> wpt any_answer (cache_post cid s tr) (zzdds_java_get_or_cache_class cid class_name) s tr"
  by (auto simp: zzdds_java_get_or_cache_class_def cache_post_def cache_ok_def)


text \<open>Resolving a class into its static cache, with every lookup free to fail: the answer says exactly
  whether the cache holds a class afterwards, a failure changes nothing, a filled cache is never
  replaced, class and constructor are always present together, every local reference and every
  global reference except the one cached is given back, and the mutex is released on every path.\<close>

theorem class_cache_contract:
  assumes "cache_ok s"
  shows "wpt any_answer (cache_post cid s tr) (zzdds_java_get_or_cache_class cid class_name) s tr"
  using assms by (rule get_or_cache_class_post)

theorem class_cache_contract_witness:
  "fst (run jvm (zzdds_java_get_or_cache_class Guard_cache ''G'') jni_start []) = Val True \<and>
   cache_post Guard_cache jni_start [] (Val True)
     (fst (snd (run jvm (zzdds_java_get_or_cache_class Guard_cache ''G'') jni_start [])))
     (snd (snd (run jvm (zzdds_java_get_or_cache_class Guard_cache ''G'') jni_start [])))"
proof -
  have "fst (run jvm (zzdds_java_get_or_cache_class Guard_cache ''G'') jni_start []) = Val True"
    by (simp add: zzdds_java_get_or_cache_class_def jni_start_def jvm_def)
  with wpt_run_result [OF class_cache_contract [OF cache_ok_start, of Guard_cache "[]" "''G''"] TrueI, of jvm]
  show ?thesis by simp
qed

section \<open>Narrowing\<close>

text \<open>Every call into the C ABI got one handle, read from the field of an object that passed an
  instance check before, and it is not null; every object is built with a resolved class and
  constructor.\<close>

fun guarded :: "nat \<Rightarrow> jtrace \<Rightarrow> bool" where
  "guarded obj [] = True"
| "guarded obj ((Native fn args, a) # tr) =
     (guarded obj tr \<and>
      (\<exists>c b. (IsInstanceOf obj c, b) \<in> set tr \<and> c \<noteq> 0 \<and> ret b \<noteq> 0) \<and>
      (\<exists>f b. (GetLongField obj f, b) \<in> set tr \<and> f \<noteq> 0 \<and> ret b \<noteq> 0 \<and> args = [ret b]))"
| "guarded obj ((NewObject cls ctor h, a) # tr) =
     (guarded obj tr \<and> cls \<noteq> 0 \<and> ctor \<noteq> 0 \<and> (\<exists>fn args b. (Native fn args, b) \<in> set tr \<and> ret b = h))"
| "guarded obj ((c, a) # tr) = guarded obj tr"

definition ref_exhausted :: "jtrace \<Rightarrow> bool" where
  "ref_exhausted tr \<longleftrightarrow> (\<exists>r a. (NewGlobalRef r, a) \<in> set tr \<and> ret a = 0)"

lemma ref_exhausted_Cons [simp]:
  "ref_exhausted ((c, a) # tr) \<longleftrightarrow> (\<exists>r. c = NewGlobalRef r \<and> ret a = 0) \<or> ref_exhausted tr"
  by (auto simp: ref_exhausted_def)

lemma cache_ok_iff:
  "cache_ok s \<longleftrightarrow> (\<forall>cid. (cache_ctor (caches s cid) = 0) = (cache_cls (caches s cid) = 0)) \<and>
     (\<forall>cid. (0 < cache_ctor (caches s cid)) = (0 < cache_cls (caches s cid)))"
  by (auto simp: cache_ok_def neq0_conv [symmetric] simp del: neq0_conv)

text \<open>The narrowing functions to the zzdds extension views are safe for every Java argument:
  the C ABI is called only with a non-null handle that was read from the very object that passed
  the instance check, the extension object is built only with a resolved class and constructor and
  wraps the handle the C ABI answered, the cache mutex is released, and a null result surfaces in
  Java as a pending exception unless the virtual machine ran out of global references.\<close>

theorem narrow_contract:
  assumes "cache_ok s" and "guarded obj tr"
  shows "wpt jni_ok (\<lambda>x s' tr'. guarded obj tr' \<and> cache_ok s' \<and> locked tr' = locked tr \<and>
           (\<exists>h. x = Val h \<and> (h = 0 \<longrightarrow> pending tr' \<or> ref_exhausted tr')))
         (narrow fn check_cid base_class param_name cid ext_class obj) s tr"
  using assms
  by (auto simp: narrow_def box_handle_def check_defs zzdds_java_require_instance_of_def
      zzdds_java_get_or_cache_class_def cache_ok_iff)

lemma narrow_contract_witness:
  "fst (run jvm (asZzddsPublisher 5) jni_start []) = Val 7 \<and>
   guarded 5 (snd (snd (run jvm (asZzddsPublisher 5) jni_start [])))"
proof -
  have "wpt jni_ok (\<lambda>x s' tr'. guarded 5 tr' \<and> cache_ok s' \<and> locked tr' = locked [] \<and>
           (\<exists>h. x = Val h \<and> (h = 0 \<longrightarrow> pending tr' \<or> ref_exhausted tr'))) (asZzddsPublisher 5) jni_start []"
    unfolding asZzddsPublisher_def by (rule narrow_contract) simp_all
  from wpt_run_result [OF this jvm_ok]
  have "guarded 5 (snd (snd (run jvm (asZzddsPublisher 5) jni_start [])))" by blast
  moreover have "fst (run jvm (asZzddsPublisher 5) jni_start []) = Val 7"
    by (simp add: asZzddsPublisher_def narrow_def box_handle_def check_defs zzdds_java_require_instance_of_def
      zzdds_java_get_or_cache_class_def jni_start_def jvm_def)
  ultimately show ?thesis by simp
qed

section \<open>Ownership\<close>

text \<open>The static class caches of the file, by name, and how often reference \<open>r\<close> is held by
  anything but one of them.\<close>

definition static_caches :: "cache_id list" where
  "static_caches = [CreateFactory_cache, CreateWaitSet_cache, CreateGuardCondition_cache, DestroyWaitSet_type_check,
     DestroyGuardCondition_type_check, Guard_cache, Status_cache, Query_cache,
     Read_cache, RegisterTypeSupport_type_check, RegisterInstanceRaw_type_check, GetKeyValueWriterRaw_type_check,
     LookupInstanceWriterRaw_type_check, GetKeyValueReaderRaw_type_check, LookupInstanceReaderRaw_type_check, CftMatchSample_type_check,
     AsZzddsDataWriter_type_check, AsZzddsDataWriter_cache, AsZzddsPublisher_type_check, AsZzddsPublisher_cache,
     AsZzddsSubscriber_type_check, AsZzddsSubscriber_cache, AsZzddsContentFilteredTopic_type_check, AsZzddsContentFilteredTopic_cache,
     AsZzddsFactory_type_check, AsZzddsFactory_cache]"

definition owned :: "nat \<Rightarrow> jni_state \<Rightarrow> jtrace \<Rightarrow> int" where
  "owned r s tr = globals_of r tr - (\<Sum>cid\<leftarrow>static_caches. of_bool (cache_cls (caches s cid) = r))"

lemma sum_list_point:
  fixes f g :: "'a \<Rightarrow> int"
  assumes "distinct xs" and "x \<in> set xs" and "\<And>y. y \<noteq> x \<Longrightarrow> f y = g y"
  shows "sum_list (map f xs) = sum_list (map g xs) + f x - g x"
  using assms
proof (induction xs)
  case (Cons a xs)
  show ?case
  proof (cases "a = x")
    case True
    then have "map f xs = map g xs"
      using Cons.prems by (metis (no_types, lifting) distinct.simps(2) map_eq_conv)
    then have "sum_list (map f xs) = sum_list (map g xs)" by (rule arg_cong)
    with True show ?thesis by simp
  next
    case False
    with Cons show ?thesis by simp
  qed
qed simp

lemma distinct_static_caches: "distinct static_caches"
  by (simp add: static_caches_def)

lemma owned_cache_post:
  assumes "cache_post cid s tr x s' tr'" and "cid \<in> set static_caches" and "r \<noteq> 0"
  shows "owned r s' tr' = owned r s tr"
proof -
  have keep: "caches s' c = caches s c" if "c \<noteq> cid" for c
    using assms(1) that unfolding cache_post_def by blast
  have g: "globals_of r tr' = globals_of r tr + of_bool (cache_cls (caches s cid) = 0 \<and> cache_cls (caches s' cid) = r)"
    using assms(1,3) unfolding cache_post_def by blast
  have same: "caches s' cid = caches s cid" if "cache_cls (caches s cid) \<noteq> 0"
    using assms(1) that unfolding cache_post_def by blast
  have "(\<Sum>c\<leftarrow>static_caches. of_bool (cache_cls (caches s' c) = r) :: int)
      = (\<Sum>c\<leftarrow>static_caches. of_bool (cache_cls (caches s c) = r))
        + of_bool (cache_cls (caches s' cid) = r) - of_bool (cache_cls (caches s cid) = r)"
    by (rule sum_list_point [OF distinct_static_caches assms(2)]) (simp add: keep)
  with g same assms(3) show ?thesis by (auto simp: owned_def)
qed

text \<open>Nothing is held or given back, apart from filling static caches.\<close>

definition quiet :: "jni_state \<Rightarrow> jtrace \<Rightarrow> jni_state \<Rightarrow> jtrace \<Rightarrow> bool" where
  "quiet s tr s' tr' \<longleftrightarrow> cache_ok s' \<and> same_but_caches s s' \<and> locked tr' = locked tr \<and>
     (\<forall>r. r \<noteq> 0 \<longrightarrow> owned r s' tr' = owned r s tr) \<and>
     (\<forall>r. utf_of r tr' = utf_of r tr) \<and> (\<forall>r. heap_of r tr' = heap_of r tr)"

lemma quiet_refl [simp]: "quiet s tr s tr \<longleftrightarrow> cache_ok s"
  by (auto simp: quiet_def)

lemma quiet_trans [trans]: "quiet s tr s' tr' \<Longrightarrow> quiet s' tr' s'' tr'' \<Longrightarrow> quiet s tr s'' tr''"
  by (auto simp: quiet_def intro: same_but_caches_trans)

text \<open>Calls that touch none of the measures.\<close>

fun neutral :: "jni_call \<Rightarrow> bool" where
  "neutral (NewGlobalRef _) = False"
| "neutral (DeleteGlobalRef _) = False"
| "neutral (GetStringUTFChars _) = False"
| "neutral (ReleaseStringUTFChars _ _) = False"
| "neutral Malloc = False"
| "neutral (Free _) = False"
| "neutral MutexLock = False"
| "neutral MutexUnlock = False"
| "neutral _ = True"

lemma neutral_measures:
  assumes "neutral c"
  shows "globals_of r ((c, a) # tr) = globals_of r tr" "utf_of r ((c, a) # tr) = utf_of r tr"
    "heap_of r ((c, a) # tr) = heap_of r tr" "locked ((c, a) # tr) = locked tr"
  using assms by (cases c; simp)+

lemma quiet_neutral [simp]: "neutral c \<Longrightarrow> quiet s tr s' ((c, a) # tr') \<longleftrightarrow> quiet s tr s' tr'"
  unfolding quiet_def owned_def by (simp only: neutral_measures)

lemma quiet_cache_post: "cache_post cid s tr x s' tr' \<Longrightarrow> cid \<in> set static_caches \<Longrightarrow> quiet s tr s' tr'"
  unfolding quiet_def using owned_cache_post [of cid s tr x s' tr'] unfolding cache_post_def by blast

definition returns :: "'a outcome \<Rightarrow> bool" where
  "returns x \<longleftrightarrow> (\<exists>v. x = Val v)"

lemma returns_simps [simp]:
  "returns (Val v)" "\<not> returns (Exit n)" "\<not> returns (Crash m)" "\<not> returns OutOfFuel"
  by (simp_all add: returns_def)

abbreviation quietly :: "jni_state \<Rightarrow> jtrace \<Rightarrow> 'a outcome \<Rightarrow> jni_state \<Rightarrow> jtrace \<Rightarrow> bool" where
  "quietly s tr x s' tr' \<equiv> returns x \<and> quiet s tr s' tr'"

lemma quietly_from: "quiet s0 tr0 s tr \<Longrightarrow> wpt G (quietly s tr) p s tr \<Longrightarrow> wpt G (quietly s0 tr0) p s tr"
  by (erule wpt_mono) (auto intro: quiet_trans)

lemma quietly_bind:
  assumes "wpt G (quietly s tr) p s tr"
    and "\<And>a s' tr'. quiet s tr s' tr' \<Longrightarrow> wpt G (quietly s tr) (f a) s' tr'"
  shows "wpt G (quietly s tr) (bind_prog p f) s tr"
  by (rule wpt_bindI [OF assms(1)]) (auto intro: assms(2))

lemma quiet_cache_ok: "quiet s tr s' tr' \<Longrightarrow> cache_ok s'"
  by (simp add: quiet_def)

lemma get_or_cache_class_quiet:
  "cache_ok s \<Longrightarrow> cid \<in> set static_caches \<Longrightarrow>
     wpt any_answer (quietly s tr) (zzdds_java_get_or_cache_class cid class_name) s tr"
  by (rule wpt_mono [OF get_or_cache_class_post]) (auto simp: returns_def dest: quiet_cache_post, auto simp: cache_post_def)

lemma unbox_quiet: "cache_ok s \<Longrightarrow> wpt any_answer (quietly s tr) (zzdds_java_unbox obj) s tr"
  by (simp add: zzdds_java_unbox_def)

lemma require_non_null_quiet: "cache_ok s \<Longrightarrow> wpt any_answer (quietly s tr) (zzdds_java_require_non_null obj param) s tr"
  by (simp add: zzdds_java_require_non_null_def throw_named_def)

lemma if_instance_quiet:
  assumes "cache_ok s" and "cid \<in> set static_caches"
    and "\<And>s' tr'. quiet s tr s' tr' \<Longrightarrow> wpt any_answer (quietly s tr) yes s' tr'"
    and "\<And>s' tr'. quiet s tr s' tr' \<Longrightarrow> wpt any_answer (quietly s tr) no s' tr'"
  shows "wpt any_answer (quietly s tr) (if_instance obj cid class_name yes no) s tr"
  unfolding if_instance_def
  by (rule quietly_bind [OF get_or_cache_class_quiet]) (simp_all add: assms)

lemma require_instance_of_quiet:
  assumes "cache_ok s" and "cid \<in> set static_caches"
  shows "wpt any_answer (quietly s tr) (zzdds_java_require_instance_of obj cid class_name param) s tr"
  unfolding zzdds_java_require_instance_of_def
  by (rule quietly_bind [OF get_or_cache_class_quiet]) (auto simp: assms throw_named_def)


section \<open>Attached conditions\<close>


text \<open>Holdings after against before: \<open>blk\<close> is the one heap block and \<open>ref\<close> the one global reference
  taken over by somebody else.\<close>

definition handed_over :: "nat option \<Rightarrow> nat option \<Rightarrow> jni_state \<Rightarrow> jtrace \<Rightarrow> jni_state \<Rightarrow> jtrace \<Rightarrow> bool" where
  "handed_over blk ref s tr s' tr' \<longleftrightarrow> cache_ok s' \<and> locked tr' = locked tr \<and>
     (\<forall>r. r \<noteq> 0 \<longrightarrow> heap_of r tr' = heap_of r tr + of_bool (blk = Some r)) \<and>
     (\<forall>r. r \<noteq> 0 \<longrightarrow> owned r s' tr' = owned r s tr + of_bool (ref = Some r)) \<and>
     (\<forall>r. r \<noteq> 0 \<longrightarrow> utf_of r tr' = utf_of r tr)"

lemma owned_state [simp]:
  "owned r (s\<lparr>release_ctxs := f\<rparr>) tr = owned r s tr" "owned r (s\<lparr>ts_ctxs := g\<rparr>) tr = owned r s tr"
  by (simp_all add: owned_def)

lemma owned_Cons: "owned r s ((c, a) # tr) = gain (makes_global c \<and> ret a = r) (c = DeleteGlobalRef r) + owned r s tr"
  by (simp add: owned_def)

lemma cache_ok_state [simp]:
  "cache_ok (s\<lparr>release_ctxs := f\<rparr>) = cache_ok s" "cache_ok (s\<lparr>ts_ctxs := g\<rparr>) = cache_ok s"
  by (simp_all add: cache_ok_def)


text \<open>The thread that gives a context back can reach the virtual machine.\<close>

definition attached :: "jtrace \<Rightarrow> jni_call \<Rightarrow> jni_answer \<Rightarrow> bool" where
  "attached tr c a \<longleftrightarrow> (c = GetEnv \<longrightarrow> ret a \<noteq> 0)"






section \<open>Key hashes\<close>

text \<open>C11. The key-hash trampolines run on zzdds's own receive thread, so nothing cleans up behind them. For
  any payload and any behaviour of the Java method (an exception, a null or a short array included)
  they leave no exception pending and no local reference behind, and either report failure with the
  output untouched or success with exactly 16 bytes written.\<close>

theorem key_hash_contract:
  assumes "\<not> pending tr"
  shows "wpt jni_ok (\<lambda>x s' tr'. s' = s \<and> \<not> pending tr' \<and>
           (\<forall>r. r \<noteq> 0 \<longrightarrow> locals_of r tr' = locals_of r tr) \<and>
           (x = Val (- 1, None) \<or> (\<exists>hash. x = Val (0, Some hash) \<and> length hash = 16)))
         (zzdds_java_compute_key_hash_impl ctx mid payload) s tr"
  using assms by (auto simp: zzdds_java_compute_key_hash_impl_def)

theorem key_hash_contract_witness:
  "fst (run jvm (zzdds_java_compute_key_hash_ctx 9 [1, 2, 3]) jni_start []) = Val (0, Some (replicate 16 0)) \<and>
   \<not> pending (snd (snd (run jvm (zzdds_java_compute_key_hash_ctx 9 [1, 2, 3]) jni_start [])))"
proof -
  have eval: "fst (run jvm (zzdds_java_compute_key_hash_ctx 9 [1, 2, 3]) jni_start []) = Val (0, Some (replicate 16 0))"
    by (simp add: zzdds_java_compute_key_hash_ctx_def zzdds_java_compute_key_hash_impl_def jni_start_def jvm_def)
  have "run jvm (zzdds_java_compute_key_hash_ctx 9 [1, 2, 3]) jni_start [] =
      run jvm (zzdds_java_compute_key_hash_impl (ts_ctxs jni_start 9) (ts_mid (ts_ctxs jni_start 9)) [1, 2, 3]) jni_start []"
    by (simp add: zzdds_java_compute_key_hash_ctx_def)
  with eval wpt_run_result [OF key_hash_contract [of "[]" jni_start "ts_ctxs jni_start 9" "ts_mid (ts_ctxs jni_start 9)" "[1, 2, 3]"] jvm_ok]
  show ?thesis by simp
qed

section \<open>Type support registration\<close>

fun installed_ctx :: "jtrace \<Rightarrow> nat option" where
  "installed_ctx ((ReleaseStringUTFChars _ _, _) # (Native Register_type_support [p, n, k, f, ctx], a) # tr) =
     (if rcode a = 0 then Some ctx else None)"
| "installed_ctx _ = None"

lemma install_accounting:
  assumes "cache_ok s"
  shows "wpt any_answer (\<lambda>x s' tr'. \<exists>rc. x = Val rc \<and>
           (rc = 0 \<longleftrightarrow> installed_ctx tr' \<noteq> None) \<and>
           handed_over (installed_ctx tr') (map_option (\<lambda>ctx. ts_cls (ts_ctxs s' ctx)) (installed_ctx tr')) s tr s' tr')
         (install_type_support p typeName typeClass) s tr"
  using assms unfolding install_type_support_def optional_static_method_def
  by (auto simp: handed_over_def owned_Cons)

lemma handed_over_quiet:
  "quiet s tr s' tr' \<Longrightarrow> handed_over b g s' tr' s'' tr'' \<Longrightarrow> handed_over b g s tr s'' tr''"
  by (simp add: quiet_def handed_over_def)

lemma ts_ctx_deinit_balance:
  assumes "handed_over (Some ctx) (Some (ts_cls (ts_ctxs s' ctx))) s tr s' tr'"
  shows "wpt attached (\<lambda>x s'' tr''. returns x \<and> handed_over None None s tr s'' tr'')
           (zzdds_java_ts_ctx_deinit ctx) s' tr'"
  using assms by (auto simp: zzdds_java_ts_ctx_deinit_def handed_over_def owned_Cons attached_def)

definition registration_post :: "jni_state \<Rightarrow> jtrace \<Rightarrow> int outcome \<Rightarrow> jni_state \<Rightarrow> jtrace \<Rightarrow> bool" where
  "registration_post s tr x s' tr' \<longleftrightarrow> returns x \<and>
     (if x = Val 0 then \<exists>ctx. installed_ctx tr' = Some ctx \<and>
        wpt attached (\<lambda>y s'' tr''. returns y \<and> handed_over None None s tr s'' tr'')
          (zzdds_java_ts_ctx_deinit ctx) s' tr'
      else handed_over None None s tr s' tr')"

lemma install_post:
  assumes "quiet s0 tr0 s tr"
  shows "wpt any_answer (registration_post s0 tr0) (install_type_support p typeName typeClass) s tr"
proof (rule wpt_mono [OF install_accounting [OF quiet_cache_ok [OF assms]]])
  fix x :: "int outcome" and s' tr'
  assume "\<exists>rc. x = Val rc \<and> (rc = 0) = (installed_ctx tr' \<noteq> None) \<and>
      handed_over (installed_ctx tr') (map_option (\<lambda>ctx. ts_cls (ts_ctxs s' ctx)) (installed_ctx tr')) s tr s' tr'"
  then show "registration_post s0 tr0 x s' tr'"
    using ts_ctx_deinit_balance [of _ s' s0 tr0 tr'] handed_over_quiet [OF assms]
    by (cases "installed_ctx tr'") (auto simp: registration_post_def)
qed

lemma quiet_failure [simp]: "quiet s tr s' tr' \<Longrightarrow> rc \<noteq> 0 \<Longrightarrow> registration_post s tr (Val rc) s' tr'"
  by (simp add: registration_post_def handed_over_def quiet_def)

lemma quiet_then:
  assumes "quiet s0 tr0 s tr" and "\<And>s tr. cache_ok s \<Longrightarrow> wpt G (quietly s tr) p s tr"
    and "\<And>a s' tr'. quiet s0 tr0 s' tr' \<Longrightarrow> wpt G Q (f a) s' tr'"
  shows "wpt G Q (bind_prog p f) s tr"
  by (rule wpt_bindI [OF assms(2) [OF quiet_cache_ok [OF assms(1)]]])
    (auto intro!: assms(3) dest: quiet_trans [OF assms(1)])

lemma check_then:
  assumes "quiet s0 tr0 s tr" and "\<And>s tr. cache_ok s \<Longrightarrow> wpt any_answer (quietly s tr) p s tr"
    and "\<And>s' tr'. quiet s0 tr0 s' tr' \<Longrightarrow> wpt any_answer (registration_post s0 tr0) q s' tr'"
  shows "wpt any_answer (registration_post s0 tr0) (bind_prog p (\<lambda>ok. if \<not> ok then Return (- 1) else q)) s tr"
  by (rule quiet_then [OF assms(1,2)]) (auto intro: assms(3))

text \<open>Registering a Java type support is leak free: a failed registration, for any of its reasons, gives
  back the context block, the class reference and the type name's characters; a successful one hands
  exactly one context to the participant, and the single \<open>ctx_deinit\<close> call zzdds promises gives
  back everything.\<close>

theorem registration_lifecycle:
  assumes "cache_ok s"
  shows "wpt any_answer (registration_post s tr) (registerTypeSupport participant typeName typeClass) s tr"
  unfolding registerTypeSupport_def
  by (intro check_then quiet_then [OF _ unbox_quiet] install_post require_non_null_quiet require_instance_of_quiet;
      simp add: assms static_caches_def)

theorem registration_lifecycle_witness:
  "installed_ctx (snd (snd (run jvm (registerTypeSupport 5 6 7) jni_start []))) = Some 9 \<and>
   registration_post jni_start [] (Val 0)
     (fst (snd (run jvm (registerTypeSupport 5 6 7) jni_start [])))
     (snd (snd (run jvm (registerTypeSupport 5 6 7) jni_start [])))"
proof -
  have eval: "fst (run jvm (registerTypeSupport 5 6 7) jni_start []) = Val 0"
    "installed_ctx (snd (snd (run jvm (registerTypeSupport 5 6 7) jni_start []))) = Some 9"
    by (simp_all add: registerTypeSupport_def install_type_support_def optional_static_method_def check_defs
        zzdds_java_require_instance_of_def zzdds_java_get_or_cache_class_def jni_start_def jvm_def of_bool_arg_def)
  with wpt_run_result [OF registration_lifecycle [OF cache_ok_start, of "[]" 5 6 7] TrueI, of jvm]
  show ?thesis by simp
qed

end
