(* ===== verification/Jni_Filter.thy ===== *)
theory Jni_Filter
  imports Jni_Contracts
begin

text \<open>
  Contracts of the content-filter half of the JNI runtime: the callback by which zzdds's filter
  evaluator reads fields of a Java object, and the field accessor installed with a type support.
\<close>

section \<open>Content-filter matching\<close>

text \<open>How many fields the evaluator has asked for.\<close>

fun fields_asked :: "jtrace \<Rightarrow> nat" where
  "fields_asked [] = 0"
| "fields_asked ((c, a) # tr) = (case c of FieldWanted v \<Rightarrow> of_bool (ret a \<noteq> 0) | _ \<Rightarrow> 0) + fields_asked tr"

text \<open>What the accessor's last call answered, and whether it left an exception pending.\<close>

fun last_result :: "jtrace \<Rightarrow> jni_answer option" where
  "last_result [] = None"
| "last_result ((c, a) # tr) = (case c of CallObjectMethod _ _ _ \<Rightarrow> Some a | _ \<Rightarrow> last_result tr)"

definition accessor_threw :: "jtrace \<Rightarrow> bool" where
  "accessor_threw tr \<longleftrightarrow> (case last_result tr of None \<Rightarrow> False | Some a \<Rightarrow> throws a)"

text \<open>A value of a wrong class: an object that is neither a \<open>String\<close> nor, when it is compared with the class
  just looked up, a \<open>Long\<close>.\<close>

definition must_be_long :: "jtrace \<Rightarrow> nat \<Rightarrow> nat \<Rightarrow> bool" where
  "must_be_long tr obj k \<longleftrightarrow> (case tr of
       (FindClass c, f) # rest \<Rightarrow> c = ''java/lang/Long'' \<and> ret f = k
         \<and> (case last_result rest of Some b \<Rightarrow> ret b = obj \<and> \<not> is_string b | None \<Rightarrow> False)
     | _ \<Rightarrow> False)"

text \<open>The filter asks for at most \<open>n\<close> fields, and for none after the accessor threw an exception; the accessor
  answers with null, a \<open>Long\<close> or a \<open>String\<close>, as its interface documents; \<open>ExceptionCheck\<close> tells whether the
  accessor threw; the class \<open>Long\<close> and its method exist, and the method does not throw; the strings and the
  string buffers can be had.\<close>

fun cft_env :: "nat \<Rightarrow> jtrace \<Rightarrow> jni_call \<Rightarrow> jni_answer \<Rightarrow> bool" where
  "cft_env n tr (FieldWanted v) a = (n \<le> fields_asked tr \<or> accessor_threw tr \<longrightarrow> ret a = 0)"
| "cft_env n tr (FindClass c) a = (c = ''java/lang/Long'' \<longrightarrow> ret a \<noteq> 0)"
| "cft_env n tr (GetMethodID k name sig) a = (name = ''longValue'' \<longrightarrow> ret a \<noteq> 0)"
| "cft_env n tr (CallLongMethod obj mid) a = (\<not> throws a)"
| "cft_env n tr (NewStringUTF f) a = (\<not> throws a)"
| "cft_env n tr (GetStringUTFChars r) a = (ret a \<noteq> 0)"
| "cft_env n tr ExceptionCheck a = (ret a \<noteq> 0 \<longrightarrow> accessor_threw tr)"
| "cft_env n tr (IsInstanceOf obj k) a = (must_be_long tr obj k \<longrightarrow> ret a \<noteq> 0)"
| "cft_env n tr _ a = True"

definition kept_count :: "cft_ctx \<Rightarrow> nat \<Rightarrow> int" where
  "kept_count ctx r = int (count_list (map snd (kept ctx)) r)"

text \<open>What a callback keeps: at most the bounded number of strings, each with one live buffer, and
  nothing else held.\<close>

definition cft_inv :: "jni_state \<Rightarrow> jtrace \<Rightarrow> cft_ctx \<Rightarrow> jni_state \<Rightarrow> jtrace \<Rightarrow> bool" where
  "cft_inv s tr ctx s' tr' \<longleftrightarrow> s' = s \<and> locked tr' = locked tr \<and>
     length (kept ctx) \<le> ZZDDS_JAVA_CFT_MAX_STRINGS \<and>
     (\<forall>r. utf_of r tr' = utf_of r tr + kept_count ctx r) \<and>
     (\<forall>r. owned r s' tr' = owned r s tr) \<and> (\<forall>r. heap_of r tr' = heap_of r tr)"

lemma cft_get_inv:
  assumes "cft_inv s0 tr0 ctx s tr" and "\<not> accessor_threw tr"
  shows "wpt (cft_env n) (\<lambda>x s' tr'. \<exists>v ctx' p. x = Val (v, ctx', p) \<and> cft_inv s0 tr0 ctx' s' tr' \<and>
           fields_asked tr' = fields_asked tr \<and> (p \<longrightarrow> accessor_threw tr'))
         (zzdds_java_cft_get ctx False field) s tr"
  using assms
  by (auto simp: zzdds_java_cft_get_def cft_inv_def owned_Cons kept_count_def accessor_threw_def must_be_long_def)

lemma cft_evaluate_inv:
  assumes "cft_inv s0 tr0 ctx s tr" and "n < fuel + fields_asked tr" and "fields_asked tr \<le> n" and "p \<longrightarrow> accessor_threw tr"
  shows "wpt (cft_env n) (\<lambda>x s' tr'. \<exists>m ctx'. x = Val (m, ctx') \<and> cft_inv s0 tr0 ctx' s' tr')
         (cft_evaluate fuel ctx p v) s tr"
  using assms
proof (induction fuel arbitrary: ctx p v s tr)
  case (Suc fuel)
  have stop: "cft_inv s0 tr0 ctx s ((FieldWanted v, a) # tr)" for a
    using Suc.prems(1) by (auto simp: cft_inv_def owned_Cons)
  have go_on: "wpt (cft_env n) (\<lambda>x s' tr'. \<exists>m ctx'. x = Val (m, ctx') \<and> cft_inv s0 tr0 ctx' s' tr')
      (bind_prog (zzdds_java_cft_get ctx p (text_of a)) (\<lambda>(v', ctx', p'). cft_evaluate fuel ctx' p' v'))
      s ((FieldWanted v, a) # tr)"
    if a: "ret a \<noteq> 0" "fields_asked tr < n" "\<not> accessor_threw tr" for a
  proof -
    have p: "\<not> p" using that Suc.prems(4) by blast
    have t: "\<not> accessor_threw ((FieldWanted v, a) # tr)" using a(3) by (simp add: accessor_threw_def)
    show ?thesis
      using a(1,2) Suc.prems(2) p
      by (simp only: eq_False [THEN iffD2, OF p], intro wpt_bindI [OF cft_get_inv [OF stop t]]) (auto intro!: Suc.IH)
  qed
  show ?case
    unfolding cft_evaluate.simps wpt.simps
  proof (intro allI impI)
    fix a
    assume "cft_env n tr (FieldWanted v) a"
    then have "ret a = 0 \<or> fields_asked tr < n \<and> \<not> accessor_threw tr" by auto
    then show "wpt (cft_env n) (\<lambda>x s' tr'. \<exists>m ctx'. x = Val (m, ctx') \<and> cft_inv s0 tr0 ctx' s' tr')
        (if ret a = 0 then Return (rcode a \<noteq> 0, ctx)
         else bind_prog (zzdds_java_cft_get ctx p (text_of a)) (\<lambda>(v', ctx', p'). cft_evaluate fuel ctx' p' v'))
        s ((FieldWanted v, a) # tr)"
      using stop go_on by (cases "ret a = 0") (simp_all del: wpt_bind)
  qed
qed simp

lemma release_kept_inv:
  "wpt G (\<lambda>x s' tr'. returns x \<and> s' = s \<and> locked tr' = locked tr \<and>
     (\<forall>r. utf_of r tr' = utf_of r tr - int (count_list (map snd ks) r)) \<and>
     (\<forall>r. owned r s tr' = owned r s tr) \<and> (\<forall>r. heap_of r tr' = heap_of r tr))
   (release_kept ks) s tr"
proof (induction ks arbitrary: tr)
  case (Cons k ks)
  show ?case
    by (cases k) (auto intro!: wpt_mono [OF Cons.IH] simp: owned_Cons)
qed simp

lemma cft_preface_fields:
  "wpt any_answer (\<lambda>x s' tr'. fields_asked tr' = fields_asked tr) (zzdds_java_require_instance_of obj cid class_name param) s tr"
  "wpt any_answer (\<lambda>x s' tr'. fields_asked tr' = fields_asked tr) (zzdds_java_require_non_null obj param) s tr"
  "wpt any_answer (\<lambda>x s' tr'. fields_asked tr' = fields_asked tr) (zzdds_java_unbox obj) s tr"
  by (auto simp: zzdds_java_require_instance_of_def zzdds_java_get_or_cache_class_def check_defs)

definition cft_post :: "jni_state \<Rightarrow> jtrace \<Rightarrow> bool outcome \<Rightarrow> jni_state \<Rightarrow> jtrace \<Rightarrow> bool" where
  "cft_post s tr x s' tr' \<longleftrightarrow> returns x \<and> cache_ok s' \<and> same_but_caches s s' \<and> locked tr' = locked tr \<and>
     (\<forall>r. r \<noteq> 0 \<longrightarrow> owned r s' tr' = owned r s tr) \<and> (\<forall>r. utf_of r tr' = utf_of r tr) \<and>
     (\<forall>r. heap_of r tr' = heap_of r tr)"

lemma cft_tail:
  assumes "quiet s0 tr0 s tr" and "fields_asked tr = 0" and "n < fuel"
  shows "wpt (cft_env n) (quietly s0 tr0)
    (bind_prog (cft_evaluate fuel \<lparr>accessor = acc, get_mid = mid, kept = []\<rparr> False NoField) (\<lambda>(matched, ctx).
       bind_prog (release_kept (kept ctx)) (\<lambda>_. Return matched))) s tr"
proof (rule wpt_bindI [OF cft_evaluate_inv [where ?tr0.0 = tr and ?s0.0 = s]])
  show "cft_inv s tr \<lparr>accessor = acc, get_mid = mid, kept = []\<rparr> s tr"
    by (simp add: cft_inv_def kept_count_def)
  show "n < fuel + fields_asked tr" "fields_asked tr \<le> n"
    using assms by simp_all
  fix a :: "bool \<times> cft_ctx" and s' tr'
  assume "\<exists>m ctx'. Val a = Val (m, ctx') \<and> cft_inv s tr ctx' s' tr'"
  then obtain m ctx where a: "a = (m, ctx)" and inv: "cft_inv s tr ctx s' tr'" by auto
  show "wpt (cft_env n) (quietly s0 tr0) (case a of (matched, ctx) \<Rightarrow>
      bind_prog (release_kept (kept ctx)) (\<lambda>_. Return matched)) s' tr'"
    unfolding a prod.case using inv assms(1)
    by (intro wpt_bindI [OF release_kept_inv]) (auto simp: cft_inv_def quiet_def kept_count_def)
qed auto

lemma quiet_fields:
  assumes "\<And>s tr. cache_ok s \<Longrightarrow> wpt any_answer (quietly s tr) p s tr"
    and "\<And>s tr. wpt any_answer (\<lambda>x s' tr'. fields_asked tr' = fields_asked tr) p s tr"
    and "quiet s0 tr0 s tr" and "fields_asked tr = 0"
    and "\<And>a s' tr'. quiet s0 tr0 s' tr' \<Longrightarrow> fields_asked tr' = 0 \<Longrightarrow> wpt G Q (f a) s' tr'"
  shows "wpt G Q (bind_prog p f) s tr"
proof -
  have "wpt any_answer (\<lambda>x s' tr'. quietly s tr x s' tr' \<and> fields_asked tr' = fields_asked tr) p s tr"
    by (rule wpt_conj [OF assms(1) assms(2)]) (rule quiet_cache_ok [OF assms(3)])
  then have "wpt G (\<lambda>x s' tr'. quietly s tr x s' tr' \<and> fields_asked tr' = fields_asked tr) p s tr"
    by (rule wpt_guarantee_mono) simp
  then show ?thesis
    by (rule wpt_bindI) (auto simp: assms(4) intro!: assms(5) dest: quiet_trans [OF assms(3)])
qed

lemma cft_check:
  assumes "\<And>s tr. cache_ok s \<Longrightarrow> wpt any_answer (quietly s tr) p s tr"
    and "\<And>s tr. wpt any_answer (\<lambda>x s' tr'. fields_asked tr' = fields_asked tr) p s tr"
    and "quiet s0 tr0 s tr" and "fields_asked tr = 0"
    and "\<And>s' tr'. quiet s0 tr0 s' tr' \<Longrightarrow> fields_asked tr' = 0 \<Longrightarrow> wpt G (quietly s0 tr0) q s' tr'"
  shows "wpt G (quietly s0 tr0) (bind_prog p (\<lambda>ok. if \<not> ok then Return False else q)) s tr"
  by (rule quiet_fields [OF assms(1-4)]) (simp_all add: assms(5))

text \<open>C32. Matching a sample against a content filter from Java comes back with everything it took returned.
  What is asked of the outside: the filter evaluator asks for at most \<open>n\<close> fields, and for none after the
  accessor threw; the accessor answers null, a \<open>Long\<close> or a \<open>String\<close>, as its interface documents, or throws;
  \<open>ExceptionCheck\<close> tells of an exception only when the accessor threw; the class \<open>Long\<close> and its method \<open>longValue\<close>
  are found and the method does not throw; the field name and the string buffers can be allocated. Then the call
  returns, with no use of JNI that the field callback may not make (a call with an exception pending, a null
  class, method or buffer, a string function on an object that is no \<open>String\<close>); every string buffer borrowed
  during the evaluation has been released exactly once, however many strings were asked for, and no heap
  block, global reference or lock is left held.\<close>

theorem cft_match_balanced:
  assumes "cache_ok s" and "fields_asked tr = 0" and "n < fuel"
  shows "wpt (cft_env n) (quietly s tr) (cftMatchSample fuel cft acc) s tr"
proof (cases "cft = 0")
  case True
  with assms(1) show ?thesis by (simp add: cftMatchSample_def)
next
  case False
  have tail: "wpt (cft_env n) (quietly s tr)
     (Ask (GetObjectClass acc) (\<lambda>acc_cls.
      Ask (GetMethodID acc_cls ''get'' ''(Ljava/lang/String;)Ljava/lang/Object;'') (\<lambda>mid.
        if mid = 0 then Return True
        else Do (Native Cft_match_sample [c])
          (bind_prog (cft_evaluate fuel \<lparr>accessor = acc, get_mid = mid, kept = []\<rparr> False NoField) (\<lambda>(matched, ctx).
           bind_prog (release_kept (kept ctx)) (\<lambda>_. Return matched)))))) s' tr'"
    if "quiet s tr s' tr'" and "fields_asked tr' = 0" for s' tr' c
    using that assms(3) by (auto simp del: wpt_bind intro!: cft_tail)
  show ?thesis
    unfolding cftMatchSample_def if_not_P [OF False]
    by (intro cft_check [OF require_instance_of_quiet cft_preface_fields(1)]
        cft_check [OF require_non_null_quiet cft_preface_fields(2)]
        quiet_fields [OF unbox_quiet cft_preface_fields(3)] tail)
      (simp_all add: assms static_caches_def)
qed

text \<open>A virtual machine and an accessor that answers every request with a string, and an evaluator that
  asks for two fields.\<close>

definition two_fields :: "(jni_call, jni_answer) env" where
  "two_fields tr c = (jvm tr c)\<lparr>ret := (case c of
       FieldWanted v \<Rightarrow> of_bool (fields_asked tr < 2 \<and> \<not> accessor_threw tr)
     | IsInstanceOf obj k \<Rightarrow> of_bool (obj = 5 \<or> must_be_long tr obj k) | ExceptionCheck \<Rightarrow> 0
     | CallObjectMethod _ _ _ \<Rightarrow> 20 + fields_asked tr | GetStringUTFChars r \<Rightarrow> 100 + r | _ \<Rightarrow> ret (jvm tr c)),
     is_string := True, text_of := (case c of FieldWanted v \<Rightarrow> ''color'' | GetStringUTFChars r \<Rightarrow> ''RED'' | _ \<Rightarrow> []),
     rcode := (case c of FieldWanted v \<Rightarrow> 1 | _ \<Rightarrow> 0)\<rparr>"

lemma two_fields_ok: "cft_env 2 tr c (two_fields tr c)"
  by (cases c) (auto simp: two_fields_def jvm_def)

theorem cft_match_balanced_witness:
  "fst (run two_fields (cftMatchSample 3 5 6) jni_start []) = Val True \<and>
   utf_of 121 (snd (snd (run two_fields (cftMatchSample 3 5 6) jni_start []))) = 0 \<and>
   length (filter (\<lambda>(c, a). \<exists>r p. c = ReleaseStringUTFChars r p) (snd (snd (run two_fields (cftMatchSample 3 5 6) jni_start [])))) = 2"
proof -
  have eval: "fst (run two_fields (cftMatchSample 3 5 6) jni_start []) = Val True"
    "length (filter (\<lambda>(c, a). \<exists>r p. c = ReleaseStringUTFChars r p) (snd (snd (run two_fields (cftMatchSample 3 5 6) jni_start [])))) = 2"
    by (simp_all add: cftMatchSample_def check_defs zzdds_java_require_instance_of_def numeral_3_eq_3
        zzdds_java_get_or_cache_class_def zzdds_java_cft_get_def ZZDDS_JAVA_CFT_MAX_STRINGS_def
        jni_start_def two_fields_def jvm_def run_bind_prog accessor_threw_def must_be_long_def)
  have "wpt (cft_env 2) (quietly jni_start []) (cftMatchSample 3 5 6) jni_start []"
    by (rule cft_match_balanced) simp_all
  from wpt_run_result [OF this two_fields_ok]
  have "utf_of 121 (snd (snd (run two_fields (cftMatchSample 3 5 6) jni_start []))) = utf_of 121 []"
    unfolding quiet_def by blast
  with eval show ?thesis by simp
qed

text \<open>The callback leaves an exception of the accessor pending. When the evaluator then asks for another field, it
  calls \<open>NewStringUTF\<close> with the exception pending, which JNI forbids: an accessor that throws, and an evaluator that
  goes on to the second field of its expression, are enough.\<close>

definition throwing_accessor :: "(jni_call, jni_answer) env" where
  "throwing_accessor tr c = (two_fields tr c)\<lparr>
     ret := (case c of CallObjectMethod _ _ _ \<Rightarrow> 0 | FieldWanted v \<Rightarrow> of_bool (fields_asked tr < 2) | _ \<Rightarrow> ret (two_fields tr c)),
     throws := (case c of CallObjectMethod _ _ _ \<Rightarrow> True | _ \<Rightarrow> False)\<rparr>"

theorem accessor_exception_misused:
  "fst (run throwing_accessor (cftMatchSample 3 5 6) jni_start []) = Crash ''NewStringUTF with an exception pending''"
  by (simp add: cftMatchSample_def check_defs zzdds_java_require_instance_of_def numeral_3_eq_3
      zzdds_java_get_or_cache_class_def zzdds_java_cft_get_def ZZDDS_JAVA_CFT_MAX_STRINGS_def
      jni_start_def throwing_accessor_def two_fields_def jvm_def run_bind_prog accessor_threw_def must_be_long_def)

section \<open>Field access\<close>

text \<open>None of the helpers gives a local reference back.\<close>

lemma ensure_class_keeps:
  assumes "\<And>r. base r \<le> locals_of r tr"
  shows "wpt G (\<lambda>x s' tr'. \<forall>r. base r \<le> locals_of r tr') ensure_long_class s tr"
    "wpt G (\<lambda>x s' tr'. \<forall>r. base r \<le> locals_of r tr') ensure_double_class s tr"
    "wpt G (\<lambda>x s' tr'. \<forall>r. base r \<le> locals_of r tr') ensure_string_class s tr"
    "wpt G (\<lambda>x s' tr'. \<forall>r. base r \<le> locals_of r tr') (field_value_of result scratch scratch_len) s tr"
  using assms
  by (auto simp: ensure_long_class_def ensure_double_class_def ensure_string_class_def field_value_of_def of_bool_def
      intro: order_trans [OF assms])


text \<open>No local reference was given back, and a call that found a value holds one more than before.\<close>

definition keeps_references :: "jtrace \<Rightarrow> filter_value outcome \<Rightarrow> jni_state \<Rightarrow> jtrace \<Rightarrow> bool" where
  "keeps_references tr x s' tr' \<longleftrightarrow> (\<forall>r. locals_of r tr \<le> locals_of r tr') \<and>
     (\<forall>v. x = Val v \<and> v \<noteq> NoField \<longrightarrow> (\<exists>r. r \<noteq> 0 \<and> locals_of r tr < locals_of r tr'))"

text \<open>The field accessor installed with a type support gives no local reference back on any path, and
  every call that finds a value ends holding at least one more non-null local reference than it
  started with: on a thread that never returns to Java the references accumulate.\<close>

theorem get_field_keeps_references:
  "wpt jni_ok (keeps_references tr)
   (zzdds_java_get_field_from_cdr_ctx ctx payload field scratch scratch_len) s tr"
proof -
  have tail: "wpt jni_ok (\<lambda>x s' tr'. \<forall>r. locals_of r tr + of_bool (r = arr) \<le> locals_of r tr')
     (bind_prog ensure_long_class (\<lambda>_. bind_prog ensure_double_class (\<lambda>_. bind_prog ensure_string_class (\<lambda>_.
        field_value_of result scratch scratch_len)))) s' tr'"
    if "\<And>r. locals_of r tr + of_bool (r = arr) \<le> locals_of r tr'" for arr result s' tr'
    by (intro wpt_bindI [OF ensure_class_keeps(1)] wpt_bindI [OF ensure_class_keeps(2)]
        wpt_bindI [OF ensure_class_keeps(3)] ensure_class_keeps(4)) (use that in auto)
  have fin: "wpt jni_ok (keeps_references tr)
     (bind_prog ensure_long_class (\<lambda>_. bind_prog ensure_double_class (\<lambda>_. bind_prog ensure_string_class (\<lambda>_.
        field_value_of result scratch scratch_len)))) s' tr'"
    if "arr \<noteq> 0" and "\<And>r. locals_of r tr + of_bool (r = arr) \<le> locals_of r tr'" for arr result s' tr'
  proof (rule wpt_mono [OF tail [OF that(2)]])
    fix x :: "filter_value outcome" and s'' tr''
    assume h: "\<forall>r. locals_of r tr + of_bool (r = arr) \<le> locals_of r tr''"
    have "locals_of r tr \<le> locals_of r tr''" for r
      using spec [OF h, of r] by (cases "r = arr") auto
    moreover have "locals_of arr tr < locals_of arr tr''"
      using spec [OF h, of arr] by simp
    ultimately show "keeps_references tr x s'' tr''"
      unfolding keeps_references_def using that(1) by blast
  qed
  show ?thesis
    unfolding zzdds_java_get_field_from_cdr_ctx_def Let_def
    apply (simp del: wpt_bind, intro conjI allI impI; (simp add: keeps_references_def; fail)?)
    subgoal for r1 r2 by (rule fin [of "ret r2"]) (auto simp: of_bool_def)
    done
qed

end
