(* ===== verification/Cstring.thy ===== *)
theory Cstring
  imports Prelude
begin

text \<open>
  The parts of the C library the command-line programs use on strings and numbers: \<open>strtol\<close> and its
  relatives with their saturation, decimal conversion \<open>%u\<close>, and the truncating copies \<open>snprintf\<close>
  and \<open>strncpy\<close>. \<open>long\<close> has 64 bits, as on the LP64 platforms the programs are built for. A C string
  is the list of characters before its terminating NUL.
\<close>

section \<open>Reading numbers\<close>

definition is_space :: "char \<Rightarrow> bool" where
  "is_space c \<longleftrightarrow> of_char c \<in> {9, 10, 11, 12, 13, 32 :: nat}"

definition is_digit :: "char \<Rightarrow> bool" where
  "is_digit c \<longleftrightarrow> (48 :: nat) \<le> of_char c \<and> of_char c \<le> (57 :: nat)"

definition digit_val :: "char \<Rightarrow> nat" where
  "digit_val c = of_char c - 48"

definition digits_val :: "string \<Rightarrow> nat" where
  "digits_val = foldl (\<lambda>n c. 10 * n + digit_val c) 0"

text \<open>The optional sign after leading white space.\<close>

fun read_sign :: "string \<Rightarrow> bool \<times> string" where
  "read_sign (c # s) = (if c = CHR ''-'' then (True, s) else if c = CHR ''+'' then (False, s) else (False, c # s))"
| "read_sign [] = (False, [])"

text \<open>Sign and magnitude of the longest number at the start, or nothing when there is no digit, in
  which case \<open>endp\<close> is left at the start of the string.\<close>

definition scan_int :: "string \<Rightarrow> (bool \<times> nat) option" where
  "scan_int s = (let (neg, t) = read_sign (dropWhile is_space s); ds = takeWhile is_digit t
     in if ds = [] then None else Some (neg, digits_val ds))"

definition strtol :: "string \<Rightarrow> int" where
  "strtol s = (case scan_int s of None \<Rightarrow> 0
     | Some (neg, m) \<Rightarrow> max (- (2 ^ 63)) (min (2 ^ 63 - 1) (if neg then - int m else int m)))"

definition strtoul :: "string \<Rightarrow> 64 word" where
  "strtoul s = (case scan_int s of None \<Rightarrow> 0
     | Some (neg, m) \<Rightarrow> if 2 ^ 64 \<le> m then - 1 else if neg then - of_nat m else of_nat m)"

text \<open>Conversions to the fixed-width types.\<close>

definition to_int32 :: "int \<Rightarrow> int" where
  "to_int32 x = sint (word_of_int x :: 32 word)"

definition to_uint32 :: "64 word \<Rightarrow> nat" where
  "to_uint32 w = unat (ucast w :: 32 word)"

definition to_uint16 :: "64 word \<Rightarrow> nat" where
  "to_uint16 w = unat (ucast w :: 16 word)"

lemma to_int32_bounds: "- (2 ^ 31) \<le> to_int32 x" "to_int32 x < 2 ^ 31"
  using sint_greater_eq [of "word_of_int x :: 32 word"] sint_less [of "word_of_int x :: 32 word"]
  by (simp_all add: to_int32_def)

lemma to_int32_id: "- (2 ^ 31) \<le> x \<Longrightarrow> x < 2 ^ 31 \<Longrightarrow> to_int32 x = x"
  by (simp add: to_int32_def signed_of_int signed_take_bit_int_eq_self)

lemma to_uint32_bound: "to_uint32 w < 2 ^ 32"
  using unsigned_less [of "ucast w :: 32 word"] by (simp add: to_uint32_def)

lemma to_uint16_bound: "to_uint16 w < 2 ^ 16"
  using unsigned_less [of "ucast w :: 16 word"] by (simp add: to_uint16_def)

lemma to_uint32_of_nat: "n < 2 ^ 32 \<Longrightarrow> to_uint32 (of_nat n) = n"
  by (simp add: to_uint32_def unsigned_ucast_eq unsigned_of_nat take_bit_nat_eq_self)

lemma strtol_bounds: "- (2 ^ 63) \<le> strtol s" "strtol s < 2 ^ 63"
  by (auto simp: strtol_def min_def max_def split: option.splits)

section \<open>Writing numbers\<close>

definition digit :: "nat \<Rightarrow> char" where
  "digit d = char_of (48 + d)"

fun dec :: "nat \<Rightarrow> string" where
  "dec n = (if n < 10 then [digit n] else dec (n div 10) @ [digit (n mod 10)])"

declare dec.simps [simp del]

lemma digit_props [simp]:
  assumes "d < 10"
  shows "is_digit (digit d)" "digit_val (digit d) = d" "\<not> is_space (digit d)"
    "digit d \<noteq> CHR ''-''" "digit d \<noteq> CHR ''+''"
proof -
  have c: "of_char (digit d) = 48 + d" using assms by (simp add: digit_def)
  then show "is_digit (digit d)" "digit_val (digit d) = d" "\<not> is_space (digit d)"
    using assms by (auto simp: is_digit_def digit_val_def is_space_def)
  show "digit d \<noteq> CHR ''-''" "digit d \<noteq> CHR ''+''"
    using c by (auto dest: arg_cong [where f = "of_char :: char \<Rightarrow> nat"])
qed

lemma dec_digits: "\<forall>c \<in> set (dec n). is_digit c"
proof (induction n rule: dec.induct)
  case (1 n)
  then show ?case by (subst dec.simps) auto
qed

lemma dec_hd: "\<exists>d ds. dec n = digit d # ds \<and> d < 10"
proof (induction n rule: dec.induct)
  case (1 n)
  then show ?case by (subst dec.simps) (fastforce simp: Let_def)
qed

lemma digits_val_dec: "digits_val (dec n) = n"
proof (induction n rule: dec.induct)
  case (1 n)
  then show ?case by (subst dec.simps) (auto simp: digits_val_def)
qed

lemma take_dec: "takeWhile is_digit (dec n) = dec n"
  using dec_digits by (simp add: takeWhile_eq_all_conv)

lemma scan_int_dec [simp]: "scan_int (dec n) = Some (False, n)"
proof -
  obtain d ds where d: "dec n = digit d # ds" "d < 10" using dec_hd by blast
  then have "dropWhile is_space (dec n) = dec n" and "read_sign (dec n) = (False, dec n)" and "dec n \<noteq> []"
    by simp_all
  then show ?thesis by (simp add: scan_int_def Let_def take_dec digits_val_dec)
qed

lemma scan_int_neg_dec [simp]: "scan_int (CHR ''-'' # dec n) = Some (True, n)"
proof -
  have "dec n \<noteq> []" using dec_hd [of n] by auto
  then show ?thesis by (simp add: scan_int_def Let_def take_dec digits_val_dec is_space_def)
qed

lemma strtol_dec: "n < 2 ^ 63 \<Longrightarrow> strtol (dec n) = int n"
  by (simp add: strtol_def)

lemma strtol_neg_dec: "n \<le> 2 ^ 63 \<Longrightarrow> strtol (CHR ''-'' # dec n) = - int n"
  by (simp add: strtol_def)

lemma strtoul_dec: "n < 2 ^ 64 \<Longrightarrow> strtoul (dec n) = of_nat n"
  by (simp add: strtoul_def)

lemma dec_inj: "dec m = dec n \<Longrightarrow> m = n"
  using digits_val_dec by metis

section \<open>Truncating copies\<close>

text \<open>What \<open>snprintf(buf, size, ...)\<close> leaves in the buffer, and what
  \<open>strncpy(field, s, sizeof field - 1)\<close> leaves in a field whose last byte is NUL.\<close>

definition snprintf :: "nat \<Rightarrow> string \<Rightarrow> string" where
  "snprintf n s = take (n - 1) s"

definition strncpy_field :: "nat \<Rightarrow> string \<Rightarrow> string" where
  "strncpy_field n s = take (n - 1) s"

end
