(* ===== verification/Shape_Options.thy ===== *)
theory Shape_Options
  imports Cstring Dds
begin

text \<open>
  The Shapes demo, part one (\<open>examples/c/shape/src/shape_main.c\<close>): the options structure and its
  defaults, the command line, the QoS builders and the names derived from the options. Unsigned
  fields are naturals below the width of their type, signed ones are integers within it.
\<close>

section \<open>Options\<close>

definition MAX_TOPICS :: nat where "MAX_TOPICS = 16"
definition MAX_SAMPLES_PER_READ :: nat where "MAX_SAMPLES_PER_READ = 256"
definition MAX_IH_CACHE :: nat where "MAX_IH_CACHE = 256"

record options =
  publish :: bool
  subscribe :: bool
  domain_id :: nat
  best_effort :: bool
  reliable :: bool
  history_depth :: int
  deadline_ms :: nat
  lifespan_ms :: nat
  ownership_strength :: int
  topic_name :: string
  color :: "string option"
  partition_name :: "string option"
  durability :: char
  data_representation :: nat
  print_writer_samples :: bool
  shapesize :: int
  write_period_ms :: int
  read_period_ms :: int
  num_iterations :: int
  num_instances :: nat
  additional_payload :: nat
  size_modulo :: int
  cft_expression :: "string option"
  time_filter_ms :: nat
  final_instance_state :: char
  access_scope :: char
  ordered_access :: bool
  coherent_access :: bool
  num_topics :: nat
  take_read :: bool
  read_only :: bool
  coherent_sample_count :: nat
  periodic_announcement_ms :: nat
  config_path :: "string option"
  datafrag_size :: nat

definition default_options :: options where
  "default_options = \<lparr>publish = False, subscribe = False, domain_id = 0, best_effort = False, reliable = False,
     history_depth = - 1, deadline_ms = 0, lifespan_ms = 0, ownership_strength = - 1, topic_name = ''Square'',
     color = None, partition_name = None, durability = CHR ''v'', data_representation = 1,
     print_writer_samples = False, shapesize = 20, write_period_ms = 33, read_period_ms = 100,
     num_iterations = - 1, num_instances = 1, additional_payload = 0, size_modulo = 0, cft_expression = None,
     time_filter_ms = 0, final_instance_state = CHR 0x00, access_scope = CHR ''i'', ordered_access = False,
     coherent_access = False, num_topics = 1, take_read = False, read_only = False, coherent_sample_count = 0,
     periodic_announcement_ms = 0, config_path = None, datafrag_size = 0\<rparr>"

definition policy_name :: "int \<Rightarrow> string" where
  "policy_name pid =
     (if pid = DDS_DURABILITY_QOS_POLICY_ID then ''DURABILITY''
      else if pid = DDS_DEADLINE_QOS_POLICY_ID then ''DEADLINE''
      else if pid = DDS_LATENCYBUDGET_QOS_POLICY_ID then ''LATENCYBUDGET''
      else if pid = DDS_OWNERSHIP_QOS_POLICY_ID then ''OWNERSHIP''
      else if pid = DDS_LIVELINESS_QOS_POLICY_ID then ''LIVELINESS''
      else if pid = DDS_PARTITION_QOS_POLICY_ID then ''PARTITION''
      else if pid = DDS_RELIABILITY_QOS_POLICY_ID then ''RELIABILITY''
      else if pid = DDS_DESTINATIONORDER_QOS_POLICY_ID then ''DESTINATIONORDER''
      else if pid = DDS_DATAREPRESENTATION_QOS_POLICY_ID then ''DATAREPRESENTATION''
      else ''UNKNOWN'')"

section \<open>The command line\<close>

text \<open>Options without a value.\<close>

definition flag_option :: "string \<Rightarrow> (options \<Rightarrow> options) option" where
  "flag_option arg =
     (if arg = ''-P'' then Some (publish_update (\<lambda>_. True))
      else if arg = ''-S'' then Some (subscribe_update (\<lambda>_. True))
      else if arg = ''-b'' then Some (best_effort_update (\<lambda>_. True))
      else if arg = ''-r'' then Some (reliable_update (\<lambda>_. True))
      else if arg = ''-w'' then Some (print_writer_samples_update (\<lambda>_. True))
      else if arg = ''-R'' then Some (read_only_update (\<lambda>_. True))
      else if arg = ''--ordered'' then Some (ordered_access_update (\<lambda>_. True))
      else if arg = ''--coherent'' then Some (coherent_access_update (\<lambda>_. True))
      else if arg = ''--take-read'' then Some (take_read_update (\<lambda>_. True))
      else None)"

text \<open>\<open>argv[i][0] ? argv[i][0] : d\<close>\<close>

definition first_char :: "char \<Rightarrow> string \<Rightarrow> char" where
  "first_char d s = (case s of [] \<Rightarrow> d | c # _ \<Rightarrow> c)"

definition set_datafrag_size :: "string \<Rightarrow> options \<Rightarrow> options option" where
  "set_datafrag_size v o1 =
     (if scan_int v = None \<or> 65535 < unat (strtoul v) then None
      else Some (o1\<lparr>datafrag_size := to_uint16 (strtoul v)\<rparr>))"

text \<open>Options with a value; \<open>None\<close> from the setter is the argument error of \<open>--datafrag-size\<close>.\<close>

definition value_option :: "string \<Rightarrow> (string \<Rightarrow> options \<Rightarrow> options option) option" where
  "value_option arg =
     (if arg = ''-d'' then Some (\<lambda>v o1. Some (o1\<lparr>domain_id := to_uint32 (strtoul v)\<rparr>))
      else if arg = ''-k'' then Some (\<lambda>v o1. Some (o1\<lparr>history_depth := to_int32 (strtol v)\<rparr>))
      else if arg = ''-f'' \<or> arg = ''--deadline'' then Some (\<lambda>v o1. Some (o1\<lparr>deadline_ms := unat (strtoul v)\<rparr>))
      else if arg = ''-s'' then Some (\<lambda>v o1. Some (o1\<lparr>ownership_strength := to_int32 (strtol v)\<rparr>))
      else if arg = ''-t'' then Some (\<lambda>v o1. Some (o1\<lparr>topic_name := v\<rparr>))
      else if arg = ''-c'' then Some (\<lambda>v o1. Some (o1\<lparr>color := Some v\<rparr>))
      else if arg = ''-p'' then Some (\<lambda>v o1. Some (o1\<lparr>partition_name := Some v\<rparr>))
      else if arg = ''-D'' then Some (\<lambda>v o1. Some (o1\<lparr>durability := first_char CHR ''v'' v\<rparr>))
      else if arg = ''-x'' then Some (\<lambda>v o1. Some (o1\<lparr>data_representation :=
             (let r = to_uint16 (strtoul v) in if r \<noteq> 2 then 1 else r)\<rparr>))
      else if arg = ''-z'' then Some (\<lambda>v o1. Some (o1\<lparr>shapesize := to_int32 (strtol v)\<rparr>))
      else if arg = ''-n'' \<or> arg = ''--num-instances'' then Some (\<lambda>v o1. Some (o1\<lparr>num_instances := to_uint32 (strtoul v)\<rparr>))
      else if arg = ''--write-period'' then Some (\<lambda>v o1. Some (o1\<lparr>write_period_ms := strtol v\<rparr>))
      else if arg = ''--read-period'' then Some (\<lambda>v o1. Some (o1\<lparr>read_period_ms := strtol v\<rparr>))
      else if arg = ''-i'' \<or> arg = ''--num-iterations'' then Some (\<lambda>v o1. Some (o1\<lparr>num_iterations := strtol v\<rparr>))
      else if arg = ''--additional-payload'' \<or> arg = ''--additional-payload-size''
           then Some (\<lambda>v o1. Some (o1\<lparr>additional_payload := to_uint32 (strtoul v)\<rparr>))
      else if arg = ''--size-modulo'' then Some (\<lambda>v o1. Some (o1\<lparr>size_modulo := to_int32 (strtol v)\<rparr>))
      else if arg = ''--cft'' then Some (\<lambda>v o1. Some (o1\<lparr>cft_expression := Some v\<rparr>))
      else if arg = ''--time-filter'' then Some (\<lambda>v o1. Some (o1\<lparr>time_filter_ms := unat (strtoul v)\<rparr>))
      else if arg = ''--lifespan'' then Some (\<lambda>v o1. Some (o1\<lparr>lifespan_ms := unat (strtoul v)\<rparr>))
      else if arg = ''--final-instance-state'' then Some (\<lambda>v o1. Some (o1\<lparr>final_instance_state := first_char CHR 0x00 v\<rparr>))
      else if arg = ''--access-scope'' then Some (\<lambda>v o1. Some (o1\<lparr>access_scope := first_char CHR ''i'' v\<rparr>))
      else if arg = ''--num-topics'' then Some (\<lambda>v o1. Some (o1\<lparr>num_topics := to_uint32 (strtoul v)\<rparr>))
      else if arg = ''--coherent-sample-count'' then Some (\<lambda>v o1. Some (o1\<lparr>coherent_sample_count := to_uint32 (strtoul v)\<rparr>))
      else if arg = ''--periodic-announcement'' then Some (\<lambda>v o1. Some (o1\<lparr>periodic_announcement_ms := to_uint32 (strtoul v)\<rparr>))
      else if arg = ''--config'' then Some (\<lambda>v o1. Some (o1\<lparr>config_path := Some v\<rparr>))
      else if arg = ''-Z'' \<or> arg = ''--datafrag-size'' then Some set_datafrag_size
      else if arg = ''--publisher-matches'' \<or> arg = ''--subscriber-matches'' then Some (\<lambda>v o1. Some o1)
      else None)"

text \<open>\<open>exit(0)\<close> after the help text, \<open>return -1\<close>, or the filled-in options. The list holds
  \<open>argv[1]\<close> onwards; an unrecognised option is reported and skipped.\<close>

datatype parsed = Help | Argument_error | Parsed options

fun parse_args :: "string list \<Rightarrow> options \<Rightarrow> parsed" where
  "parse_args [] opts =
     Parsed (if publish opts \<and> color opts = None then opts\<lparr>color := Some ''BLUE''\<rparr> else opts)"
| "parse_args (arg # args) opts =
     (case flag_option arg of
        Some f \<Rightarrow> parse_args args (f opts)
      | None \<Rightarrow>
        (case value_option arg of
           Some f \<Rightarrow>
             (case args of
                [] \<Rightarrow> Argument_error
              | v # rest \<Rightarrow> (case f v opts of None \<Rightarrow> Argument_error | Some opts' \<Rightarrow> parse_args rest opts'))
         | None \<Rightarrow> if arg = ''-h'' \<or> arg = ''--help'' then Help else parse_args args opts))"

section \<open>QoS\<close>

record duration =
  sec :: int
  nanosec :: nat

record presentation_qos =
  scope :: nat
  coherent :: bool
  ordered :: bool

text \<open>\<open>DDS_PublisherQos\<close> and \<open>DDS_SubscriberQos\<close>, of which the program sets the same fields.\<close>

record group_qos =
  autoenable :: bool
  presentation :: presentation_qos
  partitions :: "string list"

record endpoint_qos =
  reliability_k :: nat
  history_k :: nat
  history_n :: int
  durability_k :: nat
  deadline_period :: duration
  ownership_k :: nat
  representation :: "nat list"

record writer_qos = endpoint_qos +
  lifespan_duration :: duration
  strength :: int

record reader_qos = endpoint_qos +
  minimum_separation :: duration

definition reliability_kind :: "options \<Rightarrow> nat" where
  "reliability_kind opts = (if best_effort opts \<and> \<not> reliable opts then 0 else 1)"

definition durability_kind :: "char \<Rightarrow> nat" where
  "durability_kind d = (if d = CHR ''l'' then 1 else if d = CHR ''t'' then 2 else if d = CHR ''p'' then 3 else 0)"

definition set_representation :: "nat \<Rightarrow> nat list" where
  "set_representation repr = [if repr = 2 then 2 else 0]"

definition set_duration_from_ms :: "nat \<Rightarrow> duration" where
  "set_duration_from_ms ms = \<lparr>sec = to_int32 (int (ms div 1000)), nanosec = (ms mod 1000) * 1000000\<rparr>"

definition set_partition :: "string option \<Rightarrow> string list" where
  "set_partition name = (case name of None \<Rightarrow> [] | Some p \<Rightarrow> [p])"

definition access_scope_kind :: "char \<Rightarrow> nat" where
  "access_scope_kind c = (if c = CHR ''t'' then 1 else if c = CHR ''g'' then 2 else 0)"

definition build_group_qos :: "options \<Rightarrow> group_qos" where
  "build_group_qos opts = \<lparr>autoenable = True,
     presentation = \<lparr>scope = access_scope_kind (access_scope opts), coherent = coherent_access opts,
       ordered = ordered_access opts\<rparr>,
     partitions = set_partition (partition_name opts)\<rparr>"

text \<open>The common part of the two builders, on top of the defaults the middleware answered.\<close>

definition set_history :: "options \<Rightarrow> nat \<times> int \<Rightarrow> nat \<times> int" where
  "set_history opts h = (if history_depth opts = 0 then (1, snd h)
     else if history_depth opts > 0 then (0, history_depth opts) else h)"

definition build_writer_qos :: "writer_qos \<Rightarrow> options \<Rightarrow> writer_qos" where
  "build_writer_qos q opts = (let h = set_history opts (history_k q, history_n q) in
     q\<lparr>reliability_k := reliability_kind opts, history_k := fst h, history_n := snd h,
       durability_k := durability_kind (durability opts),
       deadline_period := (if deadline_ms opts > 0 then set_duration_from_ms (deadline_ms opts) else deadline_period q),
       lifespan_duration := (if lifespan_ms opts > 0 then set_duration_from_ms (lifespan_ms opts) else lifespan_duration q),
       ownership_k := (if ownership_strength opts \<ge> 0 then 1 else ownership_k q),
       strength := (if ownership_strength opts \<ge> 0 then ownership_strength opts else strength q),
       representation := set_representation (data_representation opts)\<rparr>)"

definition build_reader_qos :: "reader_qos \<Rightarrow> options \<Rightarrow> reader_qos" where
  "build_reader_qos q opts = (let h = set_history opts (history_k q, history_n q) in
     q\<lparr>reliability_k := reliability_kind opts, history_k := fst h, history_n := snd h,
       durability_k := durability_kind (durability opts),
       deadline_period := (if deadline_ms opts > 0 then set_duration_from_ms (deadline_ms opts) else deadline_period q),
       ownership_k := (if ownership_strength opts \<ge> 0 then 1 else ownership_k q),
       minimum_separation := (if time_filter_ms opts > 0 then set_duration_from_ms (time_filter_ms opts) else minimum_separation q),
       representation := set_representation (data_representation opts)\<rparr>)"

section \<open>Names\<close>

definition extra_topic_name :: "options \<Rightarrow> nat \<Rightarrow> string" where
  "extra_topic_name opts i = snprintf 160 (topic_name opts @ dec (i + 1))"

definition instance_color :: "string \<Rightarrow> nat \<Rightarrow> string" where
  "instance_color base inst = (if inst = 0 then base else snprintf 160 (base @ dec inst))"

section \<open>What the command line can produce\<close>

definition int32_range :: "int \<Rightarrow> bool" where
  "int32_range x \<longleftrightarrow> - (2 ^ 31) \<le> x \<and> x < 2 ^ 31"

definition int64_range :: "int \<Rightarrow> bool" where
  "int64_range x \<longleftrightarrow> - (2 ^ 63) \<le> x \<and> x < 2 ^ 63"

text \<open>Every field fits its C type, and the two normalised fields have one of their legal values.\<close>

definition options_ok :: "options \<Rightarrow> bool" where
  "options_ok opts \<longleftrightarrow>
     (\<forall>n \<in> {domain_id opts, num_instances opts, additional_payload opts, num_topics opts,
            coherent_sample_count opts, periodic_announcement_ms opts}. n < 2 ^ 32) \<and>
     (\<forall>n \<in> {deadline_ms opts, lifespan_ms opts, time_filter_ms opts}. n < 2 ^ 64) \<and>
     (\<forall>x \<in> {history_depth opts, ownership_strength opts, shapesize opts, size_modulo opts}. int32_range x) \<and>
     (\<forall>x \<in> {write_period_ms opts, read_period_ms opts, num_iterations opts}. int64_range x) \<and>
     data_representation opts \<in> {1, 2} \<and> datafrag_size opts < 2 ^ 16"

lemma default_options_ok: "options_ok default_options"
  by (simp add: options_ok_def default_options_def int32_range_def int64_range_def)

lemma strtoul_bound: "unat (strtoul v) < 2 ^ 64"
  using unsigned_less [of "strtoul v"] by simp

lemma ranges [simp]: "int32_range (to_int32 x)" "int64_range (strtol v)"
  using to_int32_bounds strtol_bounds by (simp_all add: int32_range_def int64_range_def)

lemmas width_bounds = to_uint32_bound [simplified] to_uint16_bound [simplified] strtoul_bound [simplified]

lemma if_SomeE:
  assumes "(if b then Some g else x) = Some f" obtains "f = g" | "x = Some f"
  using assms by (cases b) simp_all

lemma flag_option_ok: "flag_option arg = Some f \<Longrightarrow> options_ok opts \<Longrightarrow> options_ok (f opts)"
  unfolding flag_option_def by (elim if_SomeE; simp add: options_ok_def)

lemma value_option_ok:
  "value_option arg = Some f \<Longrightarrow> f v opts = Some opts' \<Longrightarrow> options_ok opts \<Longrightarrow> options_ok opts'"
  unfolding value_option_def
  by (elim if_SomeE; hypsubst?; simp add: set_datafrag_size_def split: if_splits;
      hypsubst?; simp add: width_bounds options_ok_def Let_def)


text \<open>C39. Whatever the command line holds, a successful parse leaves every option within the range of its C
  type, the data representation is 1 or 2 and the fragment size fits 16 bits, and a publisher always
  has a color.\<close>

theorem parse_args_bounds:
  assumes "parse_args args opts = Parsed opts'" and "options_ok opts"
  shows "options_ok opts' \<and> (publish opts' \<longrightarrow> color opts' \<noteq> None)"
  using assms
proof (induction args opts rule: parse_args.induct)
  case (1 opts)
  have "options_ok (opts\<lparr>color := c\<rparr>)" for c
    using "1.prems"(2) by (simp add: options_ok_def)
  with 1 show ?case by (auto split: if_splits)
next
  case (2 arg args opts)
  show ?case
  proof (cases "flag_option arg")
    case (Some f)
    with 2 flag_option_ok [OF Some] show ?thesis by simp
  next
    case flag: None
    show ?thesis
    proof (cases "value_option arg")
      case None
      with 2 flag show ?thesis by (simp split: if_splits)
    next
      case (Some f)
      with "2.prems" flag obtain v rest opts1 where "args = v # rest" and "f v opts = Some opts1"
        and "parse_args rest opts1 = Parsed opts'"
        by (auto split: list.splits option.splits)
      with "2.IH"(2) [OF flag Some] "2.prems"(2) value_option_ok [OF Some] show ?thesis by simp
    qed
  qed
qed

theorem parse_args_bounds_witness:
  "options_ok (default_options\<lparr>publish := True, num_topics := 7, color := Some ''BLUE''\<rparr>)"
proof -
  have "parse_args [''-P'', ''--num-topics'', ''7''] default_options =
      Parsed (default_options\<lparr>publish := True, num_topics := 7, color := Some ''BLUE''\<rparr>)"
    by (simp add: flag_option_def value_option_def default_options_def strtoul_def scan_int_def is_space_def
        is_digit_def digits_val_def digit_val_def to_uint32_def)
  from parse_args_bounds [OF this default_options_ok] show ?thesis by simp
qed

text \<open>The options that take a number: name, width, and the field the number belongs in. The unsigned ones hold
  numbers below \<open>2 ^ w\<close>, the signed ones numbers from \<open>- (2 ^ w)\<close> to \<open>2 ^ w - 1\<close>.\<close>

definition unsigned_options :: "(string \<times> nat \<times> (nat \<Rightarrow> options \<Rightarrow> options)) list" where
  "unsigned_options =
    [(''-d'', 32, \<lambda>n o1. o1\<lparr>domain_id := n\<rparr>),
     (''-n'', 32, \<lambda>n o1. o1\<lparr>num_instances := n\<rparr>),
     (''--num-instances'', 32, \<lambda>n o1. o1\<lparr>num_instances := n\<rparr>),
     (''--num-topics'', 32, \<lambda>n o1. o1\<lparr>num_topics := n\<rparr>),
     (''--additional-payload'', 32, \<lambda>n o1. o1\<lparr>additional_payload := n\<rparr>),
     (''--additional-payload-size'', 32, \<lambda>n o1. o1\<lparr>additional_payload := n\<rparr>),
     (''--coherent-sample-count'', 32, \<lambda>n o1. o1\<lparr>coherent_sample_count := n\<rparr>),
     (''--periodic-announcement'', 32, \<lambda>n o1. o1\<lparr>periodic_announcement_ms := n\<rparr>),
     (''-f'', 64, \<lambda>n o1. o1\<lparr>deadline_ms := n\<rparr>),
     (''--deadline'', 64, \<lambda>n o1. o1\<lparr>deadline_ms := n\<rparr>),
     (''--time-filter'', 64, \<lambda>n o1. o1\<lparr>time_filter_ms := n\<rparr>),
     (''--lifespan'', 64, \<lambda>n o1. o1\<lparr>lifespan_ms := n\<rparr>),
     (''-Z'', 16, \<lambda>n o1. o1\<lparr>datafrag_size := n\<rparr>),
     (''--datafrag-size'', 16, \<lambda>n o1. o1\<lparr>datafrag_size := n\<rparr>)]"

definition signed_options :: "(string \<times> nat \<times> (int \<Rightarrow> options \<Rightarrow> options)) list" where
  "signed_options =
    [(''-k'', 31, \<lambda>x o1. o1\<lparr>history_depth := x\<rparr>),
     (''-s'', 31, \<lambda>x o1. o1\<lparr>ownership_strength := x\<rparr>),
     (''-z'', 31, \<lambda>x o1. o1\<lparr>shapesize := x\<rparr>),
     (''--size-modulo'', 31, \<lambda>x o1. o1\<lparr>size_modulo := x\<rparr>),
     (''--write-period'', 63, \<lambda>x o1. o1\<lparr>write_period_ms := x\<rparr>),
     (''--read-period'', 63, \<lambda>x o1. o1\<lparr>read_period_ms := x\<rparr>),
     (''-i'', 63, \<lambda>x o1. o1\<lparr>num_iterations := x\<rparr>),
     (''--num-iterations'', 63, \<lambda>x o1. o1\<lparr>num_iterations := x\<rparr>)]"

definition signed_dec :: "int \<Rightarrow> string" where
  "signed_dec x = (if x < 0 then CHR ''-'' # dec (nat (- x)) else dec (nat x))"

lemma strtol_signed_dec: "- (2 ^ 63) \<le> x \<Longrightarrow> x < 2 ^ 63 \<Longrightarrow> strtol (signed_dec x) = x"
  using strtol_neg_dec [of "nat (- x)"] strtol_dec [of "nat x"] by (simp add: signed_dec_def)

lemma read_back:
  "n < 2 ^ 32 \<Longrightarrow> to_uint32 (strtoul (dec n)) = n"
  "n < 2 ^ 64 \<Longrightarrow> unat (strtoul (dec n)) = n"
  "n < 2 ^ 16 \<Longrightarrow> set_datafrag_size (dec n) o1 = Some (o1\<lparr>datafrag_size := n\<rparr>)"
  "- (2 ^ 31) \<le> x \<Longrightarrow> x < 2 ^ 31 \<Longrightarrow> to_int32 (strtol (signed_dec x)) = x"
  "- (2 ^ 63) \<le> x \<Longrightarrow> x < 2 ^ 63 \<Longrightarrow> strtol (signed_dec x) = x"
  by (simp_all add: strtoul_dec to_uint32_of_nat unsigned_of_nat take_bit_nat_eq_self set_datafrag_size_def
      to_uint16_def unsigned_ucast_eq strtol_signed_dec to_int32_id)

lemma numeric_flags:
  "flag_option ''-d'' = None"
  "flag_option ''-n'' = None"
  "flag_option ''--num-instances'' = None"
  "flag_option ''--num-topics'' = None"
  "flag_option ''--additional-payload'' = None"
  "flag_option ''--additional-payload-size'' = None"
  "flag_option ''--coherent-sample-count'' = None"
  "flag_option ''--periodic-announcement'' = None"
  "flag_option ''-f'' = None"
  "flag_option ''--deadline'' = None"
  "flag_option ''--time-filter'' = None"
  "flag_option ''--lifespan'' = None"
  "flag_option ''-Z'' = None"
  "flag_option ''--datafrag-size'' = None"
  "flag_option ''-k'' = None"
  "flag_option ''-s'' = None"
  "flag_option ''-z'' = None"
  "flag_option ''--size-modulo'' = None"
  "flag_option ''--write-period'' = None"
  "flag_option ''--read-period'' = None"
  "flag_option ''-i'' = None"
  "flag_option ''--num-iterations'' = None"
  by (simp_all add: flag_option_def)

lemma numeric_values:
  "value_option ''-d'' = Some (\<lambda>v o1. Some (o1\<lparr>domain_id := to_uint32 (strtoul v)\<rparr>))"
  "value_option ''-n'' = Some (\<lambda>v o1. Some (o1\<lparr>num_instances := to_uint32 (strtoul v)\<rparr>))"
  "value_option ''--num-instances'' = Some (\<lambda>v o1. Some (o1\<lparr>num_instances := to_uint32 (strtoul v)\<rparr>))"
  "value_option ''--num-topics'' = Some (\<lambda>v o1. Some (o1\<lparr>num_topics := to_uint32 (strtoul v)\<rparr>))"
  "value_option ''--additional-payload'' = Some (\<lambda>v o1. Some (o1\<lparr>additional_payload := to_uint32 (strtoul v)\<rparr>))"
  "value_option ''--additional-payload-size'' = Some (\<lambda>v o1. Some (o1\<lparr>additional_payload := to_uint32 (strtoul v)\<rparr>))"
  "value_option ''--coherent-sample-count'' = Some (\<lambda>v o1. Some (o1\<lparr>coherent_sample_count := to_uint32 (strtoul v)\<rparr>))"
  "value_option ''--periodic-announcement'' = Some (\<lambda>v o1. Some (o1\<lparr>periodic_announcement_ms := to_uint32 (strtoul v)\<rparr>))"
  "value_option ''-f'' = Some (\<lambda>v o1. Some (o1\<lparr>deadline_ms := unat (strtoul v)\<rparr>))"
  "value_option ''--deadline'' = Some (\<lambda>v o1. Some (o1\<lparr>deadline_ms := unat (strtoul v)\<rparr>))"
  "value_option ''--time-filter'' = Some (\<lambda>v o1. Some (o1\<lparr>time_filter_ms := unat (strtoul v)\<rparr>))"
  "value_option ''--lifespan'' = Some (\<lambda>v o1. Some (o1\<lparr>lifespan_ms := unat (strtoul v)\<rparr>))"
  "value_option ''-Z'' = Some set_datafrag_size"
  "value_option ''--datafrag-size'' = Some set_datafrag_size"
  "value_option ''-k'' = Some (\<lambda>v o1. Some (o1\<lparr>history_depth := to_int32 (strtol v)\<rparr>))"
  "value_option ''-s'' = Some (\<lambda>v o1. Some (o1\<lparr>ownership_strength := to_int32 (strtol v)\<rparr>))"
  "value_option ''-z'' = Some (\<lambda>v o1. Some (o1\<lparr>shapesize := to_int32 (strtol v)\<rparr>))"
  "value_option ''--size-modulo'' = Some (\<lambda>v o1. Some (o1\<lparr>size_modulo := to_int32 (strtol v)\<rparr>))"
  "value_option ''--write-period'' = Some (\<lambda>v o1. Some (o1\<lparr>write_period_ms := strtol v\<rparr>))"
  "value_option ''--read-period'' = Some (\<lambda>v o1. Some (o1\<lparr>read_period_ms := strtol v\<rparr>))"
  "value_option ''-i'' = Some (\<lambda>v o1. Some (o1\<lparr>num_iterations := strtol v\<rparr>))"
  "value_option ''--num-iterations'' = Some (\<lambda>v o1. Some (o1\<lparr>num_iterations := strtol v\<rparr>))"
  by (simp_all add: value_option_def)

lemma value_set:
  "flag_option arg = None \<Longrightarrow> value_option arg = Some f \<Longrightarrow> parse_args (arg # v # rest) opts
     = (case f v opts of None \<Rightarrow> Argument_error | Some opts' \<Rightarrow> parse_args rest opts')"
  by simp

lemma unsigned_option_set:
  "\<forall>(name, w, put) \<in> set unsigned_options. \<forall>n rest opts. n < 2 ^ w \<longrightarrow>
     parse_args (name # dec n # rest) opts = parse_args rest (put n opts)"
  unfolding unsigned_options_def list.set ball_simps split
  by (intro conjI allI impI TrueI; simp only: value_set numeric_flags numeric_values read_back option.case)

lemma signed_option_set:
  "\<forall>(name, w, put) \<in> set signed_options. \<forall>x rest opts. - (2 ^ w) \<le> x \<and> x < 2 ^ w \<longrightarrow>
     parse_args (name # signed_dec x # rest) opts = parse_args rest (put x opts)"
  unfolding signed_options_def list.set ball_simps split
  by (intro conjI allI impI TrueI; elim conjE; simp only: value_set numeric_flags numeric_values read_back option.case)

text \<open>C38. Numbers given on the command line arrive unchanged. For each of the 22 option names that take a number (all but
  \<open>-x\<close>, which normalises its number to 1 or 2), at any place of the command line and whatever options were set before:
  the decimal form of any number in the range of the option's field (unsigned with 32, 64 or 16 bits, signed with 32
  or 64 bits, the smallest and the largest number included) sets that field to that number, changes no other field and
  leaves the rest of the command line to be parsed.\<close>

theorem parse_args_roundtrip:
  "(\<forall>(name, w, put) \<in> set unsigned_options. \<forall>n rest opts. n < 2 ^ w \<longrightarrow>
      parse_args (name # dec n # rest) opts = parse_args rest (put n opts)) \<and>
   (\<forall>(name, w, put) \<in> set signed_options. \<forall>x rest opts. - (2 ^ w) \<le> x \<and> x < 2 ^ w \<longrightarrow>
      parse_args (name # signed_dec x # rest) opts = parse_args rest (put x opts))"
  by (intro conjI unsigned_option_set signed_option_set)

theorem parse_args_roundtrip_witness:
  "parse_args [''-n'', dec 300, ''-k'', signed_dec (- 2147483648), ''--write-period'', signed_dec (2 ^ 63 - 1), ''-Z'', dec 1344] default_options =
     parse_args [] (default_options\<lparr>num_instances := 300, history_depth := - 2147483648, write_period_ms := 2 ^ 63 - 1, datafrag_size := 1344\<rparr>)"
proof -
  note all = parse_args_roundtrip [unfolded unsigned_options_def signed_options_def list.set ball_simps split]
  have "parse_args (''-n'' # dec n # rest) opts = parse_args rest (opts\<lparr>num_instances := n\<rparr>)" if "n < 2 ^ 32" for n rest opts
    using that by (simp only: all)
  moreover have "parse_args (''-Z'' # dec n # rest) opts = parse_args rest (opts\<lparr>datafrag_size := n\<rparr>)" if "n < 2 ^ 16" for n rest opts
    using that by (simp only: all)
  moreover have "parse_args (''-k'' # signed_dec x # rest) opts = parse_args rest (opts\<lparr>history_depth := x\<rparr>)"
    if "- (2 ^ 31) \<le> x \<and> x < 2 ^ 31" for x rest opts
    using that by (simp only: all)
  moreover have "parse_args (''--write-period'' # signed_dec x # rest) opts = parse_args rest (opts\<lparr>write_period_ms := x\<rparr>)"
    if "- (2 ^ 63) \<le> x \<and> x < 2 ^ 63" for x rest opts
    using that by (simp only: all)
  ultimately show ?thesis
    by (simp del: parse_args.simps)
qed

text \<open>A duration option below \<open>2^31\<close> seconds is converted without loss: seconds and nanoseconds recombine to
  the milliseconds asked for and the nanoseconds are a proper fraction.\<close>

theorem set_duration_exact:
  assumes "ms < 2 ^ 31 * 1000"
  shows "sec (set_duration_from_ms ms) * 1000 * 1000000 + int (nanosec (set_duration_from_ms ms)) = int ms * 1000000
       \<and> nanosec (set_duration_from_ms ms) < 1000000000 \<and> 0 \<le> sec (set_duration_from_ms ms)"
proof -
  have "to_int32 (int (ms div 1000)) = int (ms div 1000)"
    using assms by (intro to_int32_id) auto
  moreover have "int (ms div 1000) * 1000 + int (ms mod 1000) = int ms"
    by (metis div_mult_mod_eq of_nat_add of_nat_mult of_nat_numeral)
  moreover have "ms mod 1000 < 1000" by simp
  ultimately show ?thesis by (simp add: set_duration_from_ms_def algebra_simps)
qed

theorem set_duration_exact_witness:
  "sec (set_duration_from_ms 2500) = 2 \<and> nanosec (set_duration_from_ms 2500) = 500000000"
  using set_duration_exact [of 2500] by (simp add: set_duration_from_ms_def)

section \<open>Instance keys\<close>

lemma length_dec: "n < 10 ^ Suc k \<Longrightarrow> length (dec n) \<le> Suc k"
proof (induction k arbitrary: n)
  case 0
  then show ?case by (subst dec.simps) simp
next
  case (Suc k)
  then have "n div 10 < 10 ^ Suc k" by simp
  with Suc.IH show ?case by (subst dec.simps) simp
qed

text \<open>The instances a publisher writes have different keys: with a base color of at most 118
  characters the color field, which keeps 128 characters, still holds the whole color with its number.\<close>

theorem instance_keys_distinct:
  assumes "length base \<le> 118" and "i < 2 ^ 32" and "j < 2 ^ 32"
    and "strncpy_field 129 (instance_color base i) = strncpy_field 129 (instance_color base j)"
  shows "i = j"
proof -
  have len: "length (dec k) \<le> 10" if "k < 2 ^ 32" for k
    using length_dec [of k 9] that by simp
  have id: "strncpy_field 129 (instance_color base k) = (if k = 0 then base else base @ dec k)" if "k < 2 ^ 32" for k
    using len [OF that] assms(1) by (simp add: strncpy_field_def instance_color_def snprintf_def)
  have "dec k \<noteq> []" for k using dec_hd [of k] by auto
  then show ?thesis
    using assms(4) dec_inj [of i j] unfolding id [OF assms(2)] id [OF assms(3)]
    by (auto split: if_splits)
qed

theorem instance_keys_distinct_witness:
  "strncpy_field 129 (instance_color ''BLUE'' 1) \<noteq> strncpy_field 129 (instance_color ''BLUE'' 11)"
  using instance_keys_distinct [of "''BLUE''" 1 11] by auto

end
