(* ===== verification/Shape_Cache.thy ===== *)
theory Shape_Cache
  imports Shape_Options
begin

text \<open>
  The instance-handle cache of the Shapes subscriber: a fixed table that remembers the color of each
  instance. The table is specified as a partial map with a capacity; the subscriber's checks rely on
  the laws of that interface only.
\<close>

section \<open>The table\<close>

record ih_entry =
  ih_handle :: nat
  ih_color :: string
  ih_used :: bool

type_synonym ih_table = "ih_entry list"

definition empty_ih_cache :: ih_table where
  "empty_ih_cache = replicate MAX_IH_CACHE \<lparr>ih_handle = 0, ih_color = [], ih_used = False\<rparr>"

text \<open>The first index that satisfies a predicate: the shape of the three loops.\<close>

fun first_index :: "('a \<Rightarrow> bool) \<Rightarrow> 'a list \<Rightarrow> nat option" where
  "first_index P [] = None"
| "first_index P (x # xs) = (if P x then Some 0 else map_option Suc (first_index P xs))"

abbreviation holds_handle :: "nat \<Rightarrow> ih_entry \<Rightarrow> bool" where
  "holds_handle h e \<equiv> ih_used e \<and> ih_handle e = h"

definition ih_cache_put :: "nat \<Rightarrow> string \<Rightarrow> ih_table \<Rightarrow> ih_table" where
  "ih_cache_put h c t =
     (case first_index (holds_handle h) t of
        Some i \<Rightarrow> t[i := (t ! i)\<lparr>ih_color := strncpy_field 129 c\<rparr>]
      | None \<Rightarrow>
        (case first_index (\<lambda>e. \<not> ih_used e) t of
           Some i \<Rightarrow> t[i := (t ! i)\<lparr>ih_used := True, ih_handle := h, ih_color := strncpy_field 129 c\<rparr>]
         | None \<Rightarrow> t))"

definition ih_cache_get :: "nat \<Rightarrow> ih_table \<Rightarrow> string" where
  "ih_cache_get h t =
     (case first_index (holds_handle h) t of Some i \<Rightarrow> ih_color (t ! i) | None \<Rightarrow> [])"

section \<open>First index\<close>

lemma first_index_None: "first_index P xs = None \<longleftrightarrow> (\<forall>x \<in> set xs. \<not> P x)"
  by (induction xs) auto

lemma first_index_Some: "first_index P xs = Some i \<Longrightarrow> i < length xs \<and> P (xs ! i) \<and> (\<forall>j < i. \<not> P (xs ! j))"
proof (induction xs arbitrary: i)
  case (Cons x xs)
  then show ?case by (auto split: if_splits simp: nth_Cons less_Suc_eq_0_disj split: nat.splits)
qed simp

section \<open>The interface\<close>

text \<open>A bounded map: a lookup with a default, an insertion that may be refused when the map is full, and the
  set of keys it knows.\<close>

locale bounded_map =
  fixes put :: "'k \<Rightarrow> 'v \<Rightarrow> 't \<Rightarrow> 't" and get :: "'k \<Rightarrow> 't \<Rightarrow> 'v" and keys :: "'t \<Rightarrow> 'k set"
    and stored :: "'v \<Rightarrow> 'v" and missing :: 'v and wf :: "'t \<Rightarrow> bool" and capacity :: nat
  assumes wf_put: "wf t \<Longrightarrow> wf (put k v t)"
    and keys_finite: "wf t \<Longrightarrow> finite (keys t) \<and> card (keys t) \<le> capacity"
    and put_known: "wf t \<Longrightarrow> k \<in> keys t \<Longrightarrow> keys (put k v t) = keys t"
    and put_new: "wf t \<Longrightarrow> k \<notin> keys t \<Longrightarrow> card (keys t) < capacity \<Longrightarrow> keys (put k v t) = insert k (keys t)"
    and put_full: "wf t \<Longrightarrow> k \<notin> keys t \<Longrightarrow> \<not> card (keys t) < capacity \<Longrightarrow> put k v t = t"
    and get_missing: "wf t \<Longrightarrow> k \<notin> keys t \<Longrightarrow> get k t = missing"
    and get_put_same: "wf t \<Longrightarrow> k \<in> keys (put k v t) \<Longrightarrow> get k (put k v t) = stored v"
    and get_put_other: "wf t \<Longrightarrow> k' \<noteq> k \<Longrightarrow> get k' (put k v t) = get k' t"
begin

text \<open>A sequence of insertions.\<close>

definition puts :: "('k \<times> 'v) list \<Rightarrow> 't \<Rightarrow> 't" where
  "puts kvs t = foldl (\<lambda>t (k, v). put k v t) t kvs"

lemma puts_simps [simp]: "puts [] t = t" "puts ((k, v) # kvs) t = puts kvs (put k v t)"
  by (simp_all add: puts_def)

lemma puts_append: "puts (xs @ ys) t = puts ys (puts xs t)"
  by (simp add: puts_def)

lemma wf_puts: "wf t \<Longrightarrow> wf (puts kvs t)"
  by (induction kvs arbitrary: t) (auto simp: wf_put)

lemma keys_put: "wf t \<Longrightarrow> keys t \<subseteq> keys (put k v t) \<and> keys (put k v t) \<subseteq> insert k (keys t)"
  using put_known put_new put_full by (cases "k \<in> keys t"; cases "card (keys t) < capacity") auto

lemma keys_puts: "wf t \<Longrightarrow> keys t \<subseteq> keys (puts kvs t)"
proof (induction kvs arbitrary: t)
  case (Cons kv kvs)
  obtain k v where kv: "kv = (k, v)" by fastforce
  from keys_put [OF Cons.prems, of k v] Cons.IH [OF wf_put [OF Cons.prems], of k v]
  show ?case unfolding kv puts_simps by blast
qed simp

text \<open>As long as the different keys fit, the last insertion for a key is what a lookup returns.\<close>

lemma puts_room:
  assumes "wf t" and "card (keys t \<union> fst ` set kvs) \<le> capacity"
  shows "keys (puts kvs t) = keys t \<union> fst ` set kvs"
  using assms
proof (induction kvs arbitrary: t)
  case (Cons kv kvs)
  obtain k v where kv: "kv = (k, v)" by fastforce
  have fin: "finite (keys t)" using keys_finite Cons.prems(1) by blast
  have step: "keys (put k v t) = insert k (keys t)"
  proof (cases "k \<in> keys t")
    case False
    have "card (insert k (keys t)) \<le> card (keys t \<union> fst ` set (kv # kvs))"
      using fin by (intro card_mono) (auto simp: kv)
    with False fin Cons.prems(2) have "card (keys t) < capacity" by simp
    with False Cons.prems(1) show ?thesis by (simp add: put_new)
  qed (use Cons.prems(1) put_known in auto)
  have "keys (puts kvs (put k v t)) = keys (put k v t) \<union> fst ` set kvs"
    using Cons.prems by (intro Cons.IH) (simp_all add: wf_put step kv)
  then show ?case by (simp add: kv step)
qed simp

lemma get_puts:
  assumes "wf t" and "card (keys t \<union> fst ` set kvs) \<le> capacity"
  shows "get k (puts kvs t) = (case map_of (rev kvs) k of Some v \<Rightarrow> stored v | None \<Rightarrow> get k t)"
  using assms
proof (induction kvs rule: rev_induct)
  case (snoc kv kvs)
  obtain k' v where kv: "kv = (k', v)" by fastforce
  have fin: "finite (keys t)" using keys_finite snoc.prems(1) by blast
  have "card (keys t \<union> fst ` set kvs) \<le> card (keys t \<union> fst ` set (kvs @ [kv]))"
    using fin by (intro card_mono) auto
  then have room: "card (keys t \<union> fst ` set kvs) \<le> capacity" using snoc.prems(2) by simp
  have all: "keys (puts (kvs @ [kv]) t) = keys t \<union> fst ` set (kvs @ [kv])"
    by (rule puts_room [OF snoc.prems])
  have w: "wf (puts kvs t)" by (rule wf_puts [OF snoc.prems(1)])
  show ?case
  proof (cases "k = k'")
    case True
    with all have "k \<in> keys (put k v (puts kvs t))" by (simp add: puts_append kv)
    with True get_put_same [OF w] show ?thesis by (simp add: puts_append kv)
  next
    case False
    with snoc.IH [OF snoc.prems(1) room] get_put_other [OF w] show ?thesis by (simp add: puts_append kv)
  qed
qed simp

end

section \<open>The table is a bounded map\<close>

definition ih_wf :: "ih_table \<Rightarrow> bool" where
  "ih_wf t \<longleftrightarrow> length t = MAX_IH_CACHE \<and>
     (\<forall>i < length t. \<forall>j < length t. ih_used (t ! i) \<longrightarrow> ih_used (t ! j) \<longrightarrow> ih_handle (t ! i) = ih_handle (t ! j) \<longrightarrow> i = j)"

definition ih_keys :: "ih_table \<Rightarrow> nat set" where
  "ih_keys t = ih_handle ` {e \<in> set t. ih_used e}"

lemma ih_keys_iff: "h \<in> ih_keys t \<longleftrightarrow> (\<exists>i < length t. holds_handle h (t ! i))"
  by (auto simp: ih_keys_def in_set_conv_nth image_iff)

lemma first_holds_None: "first_index (holds_handle h) t = None \<longleftrightarrow> h \<notin> ih_keys t"
  by (auto simp: first_index_None ih_keys_def)

lemma ih_get_at:
  assumes "ih_wf t" and "i < length t" and "holds_handle h (t ! i)"
  shows "first_index (holds_handle h) t = Some i" and "ih_cache_get h t = ih_color (t ! i)"
proof -
  have "h \<in> ih_keys t" using assms by (auto simp: ih_keys_iff)
  then obtain j where j: "first_index (holds_handle h) t = Some j"
    using first_holds_None by (metis not_None_eq)
  with first_index_Some [OF j] assms show "first_index (holds_handle h) t = Some i"
    unfolding ih_wf_def by metis
  then show "ih_cache_get h t = ih_color (t ! i)" by (simp add: ih_cache_get_def)
qed

lemma ih_used_card:
  assumes "ih_wf t"
  shows "card (ih_keys t) = card {i. i < length t \<and> ih_used (t ! i)}"
proof -
  have "ih_keys t = (\<lambda>i. ih_handle (t ! i)) ` {i. i < length t \<and> ih_used (t ! i)}"
    by (auto simp: ih_keys_iff)
  moreover have "inj_on (\<lambda>i. ih_handle (t ! i)) {i. i < length t \<and> ih_used (t ! i)}"
    using assms by (auto simp: inj_on_def ih_wf_def)
  ultimately show ?thesis by (simp add: card_image)
qed

lemma ih_full:
  assumes "ih_wf t"
  shows "first_index (\<lambda>e. \<not> ih_used e) t = None \<longleftrightarrow> \<not> card (ih_keys t) < MAX_IH_CACHE"
proof -
  let ?U = "{i. i < length t \<and> ih_used (t ! i)}"
  have sub: "?U \<subseteq> {..<length t}" by auto
  have "first_index (\<lambda>e. \<not> ih_used e) t = None \<longleftrightarrow> ?U = {..<length t}"
    unfolding first_index_None all_set_conv_all_nth set_eq_iff mem_Collect_eq lessThan_iff not_not by meson
  also have "\<dots> \<longleftrightarrow> card ?U = length t"
    by (metis card_lessThan card_subset_eq finite_lessThan sub)
  also have "\<dots> \<longleftrightarrow> \<not> card ?U < length t"
    using card_mono [OF finite_lessThan sub] unfolding card_lessThan by linarith
  finally show ?thesis using assms ih_used_card [OF assms] by (simp add: ih_wf_def)
qed

text \<open>The two ways an insertion changes the table.\<close>

lemma ih_put_cases:
  assumes "ih_wf t"
  obtains (known) i where "h \<in> ih_keys t" "i < length t" "holds_handle h (t ! i)"
      "ih_cache_put h c t = t[i := (t ! i)\<lparr>ih_color := strncpy_field 129 c\<rparr>]"
    | (new) i where "h \<notin> ih_keys t" "card (ih_keys t) < MAX_IH_CACHE" "i < length t" "\<not> ih_used (t ! i)"
      "ih_cache_put h c t = t[i := (t ! i)\<lparr>ih_used := True, ih_handle := h, ih_color := strncpy_field 129 c\<rparr>]"
    | (full) "h \<notin> ih_keys t" "\<not> card (ih_keys t) < MAX_IH_CACHE" "ih_cache_put h c t = t"
proof (cases "first_index (holds_handle h) t")
  case (Some i)
  with first_index_Some [OF Some] show ?thesis
    by (intro known [of i]) (auto simp: ih_cache_put_def ih_keys_iff)
next
  case None
  then have nk: "h \<notin> ih_keys t" by (simp add: first_holds_None)
  show ?thesis
  proof (cases "first_index (\<lambda>e. \<not> ih_used e) t")
    case (Some i)
    with None first_index_Some [OF Some] ih_full [OF assms] nk show ?thesis
      by (intro new [of i]) (auto simp: ih_cache_put_def)
  next
    case no_room: None
    with None ih_full [OF assms] nk show ?thesis
      by (intro full) (auto simp: ih_cache_put_def)
  qed
qed

lemma ih_wf_put: "ih_wf t \<Longrightarrow> ih_wf (ih_cache_put h c t)"
  by (rule ih_put_cases [of t h c]; auto simp: ih_wf_def ih_keys_iff nth_list_update)

lemma ih_keys_update:
  "i < length t \<Longrightarrow> ih_keys (t[i := e]) =
     {ih_handle (t ! j) | j. j < length t \<and> j \<noteq> i \<and> ih_used (t ! j)} \<union> (if ih_used e then {ih_handle e} else {})"
  by (auto simp: ih_keys_iff nth_list_update split: if_splits)

lemma ih_get_upd_other:
  assumes "ih_wf t" and "ih_wf t'" and "length t' = length t" and "h' \<noteq> h"
    and "\<And>j. j < length t \<Longrightarrow> t' ! j = t ! j \<or> \<not> holds_handle h' (t ! j) \<and> \<not> holds_handle h' (t' ! j)"
  shows "ih_cache_get h' t' = ih_cache_get h' t"
proof (cases "h' \<in> ih_keys t")
  case True
  then obtain i where i: "i < length t" "holds_handle h' (t ! i)" by (auto simp: ih_keys_iff)
  with assms(5) [OF i(1)] have "t' ! i = t ! i" by auto
  with i ih_get_at(2) [OF assms(1)] ih_get_at(2) [OF assms(2)] assms(3) show ?thesis by metis
next
  case False
  then have "h' \<notin> ih_keys t'"
    using assms(3,5) unfolding ih_keys_iff by metis
  with False show ?thesis by (simp add: ih_cache_get_def first_holds_None [symmetric])
qed

lemma ih_get_put_same:
  assumes "ih_wf t" and "h \<in> ih_keys (ih_cache_put h c t)"
  shows "ih_cache_get h (ih_cache_put h c t) = strncpy_field 129 c"
  using assms(1)
proof (cases rule: ih_put_cases [of t h c])
  case (known i)
  then show ?thesis
    using ih_get_at(2) [OF ih_wf_put [OF assms(1)], of i h c h] by simp
next
  case (new i)
  then show ?thesis
    using ih_get_at(2) [OF ih_wf_put [OF assms(1)], of i h c h] by simp
next
  case full
  with assms(2) show ?thesis by simp
qed

interpretation ih: bounded_map ih_cache_put ih_cache_get ih_keys "strncpy_field 129" "[]" ih_wf MAX_IH_CACHE
proof
  fix t h c h'
  assume wf: "ih_wf t"
  show wf': "ih_wf (ih_cache_put h c t)" by (rule ih_wf_put [OF wf])
  show "finite (ih_keys t) \<and> card (ih_keys t) \<le> MAX_IH_CACHE"
    using wf card_mono [of "{..<length t}" "{i. i < length t \<and> ih_used (t ! i)}"]
    by (auto simp: ih_keys_def ih_used_card [unfolded ih_keys_def] ih_wf_def)
  show "h \<in> ih_keys t \<Longrightarrow> ih_keys (ih_cache_put h c t) = ih_keys t"
    by (rule ih_put_cases [OF wf, of h c]) (auto simp: ih_keys_update ih_keys_iff)
  show "h \<notin> ih_keys t \<Longrightarrow> card (ih_keys t) < MAX_IH_CACHE \<Longrightarrow> ih_keys (ih_cache_put h c t) = insert h (ih_keys t)"
    by (rule ih_put_cases [OF wf, of h c]) (auto simp: ih_keys_update ih_keys_iff)
  show "h \<notin> ih_keys t \<Longrightarrow> \<not> card (ih_keys t) < MAX_IH_CACHE \<Longrightarrow> ih_cache_put h c t = t"
    by (rule ih_put_cases [OF wf, of h c]) auto
  show "h \<notin> ih_keys t \<Longrightarrow> ih_cache_get h t = []"
    by (simp add: ih_cache_get_def first_holds_None [symmetric])
  show "h \<in> ih_keys (ih_cache_put h c t) \<Longrightarrow> ih_cache_get h (ih_cache_put h c t) = strncpy_field 129 c"
    by (rule ih_get_put_same [OF wf])
  show "h' \<noteq> h \<Longrightarrow> ih_cache_get h' (ih_cache_put h c t) = ih_cache_get h' t"
    by (rule ih_put_cases [OF wf, of h c]; (rule ih_get_upd_other [OF wf wf'])?) (auto simp: nth_list_update)
qed

lemma empty_ih_cache: "ih_wf empty_ih_cache" "ih_keys empty_ih_cache = {}"
  by (auto simp: ih_wf_def empty_ih_cache_def ih_keys_def)

text \<open>C37. The subscriber's instance cache behaves like a map while at most 256 different instances are
  seen: after any sequence of samples, looking up an instance gives the color stored last for it, cut
  to the 128 characters the table keeps, and the empty string for an instance never seen.\<close>

theorem ih_cache_remembers:
  assumes "card (fst ` set kvs) \<le> MAX_IH_CACHE"
  shows "ih_cache_get h (foldl (\<lambda>t (k, c). ih_cache_put k c t) empty_ih_cache kvs) =
     (case map_of (rev kvs) h of Some c \<Rightarrow> strncpy_field 129 c | None \<Rightarrow> [])"
  using ih.get_puts [of empty_ih_cache kvs h] assms empty_ih_cache
  by (simp add: ih.puts_def ih.get_missing split: option.splits)


theorem ih_cache_remembers_witness:
  "ih_cache_get 7 (foldl (\<lambda>t (k, c). ih_cache_put k c t) empty_ih_cache [(7, ''BLUE''), (9, ''RED''), (7, ''GREEN'')]) = ''GREEN''"
  using ih_cache_remembers [of "[(7, ''BLUE''), (9, ''RED''), (7, ''GREEN'')]" 7]
  by (simp add: MAX_IH_CACHE_def strncpy_field_def card_insert_if)

end
