(* ===== verification/Shape_Publisher.thy ===== *)
theory Shape_Publisher
  imports Shape_Cache
begin

text \<open>
  The Shapes demo, part two: the extra topics, the sample type and \<open>run_publisher\<close> of
  \<open>examples/c/shape/src/shape_main.c\<close>. Calls into the DDS C API, libc and the clock are the calls of
  the model; local variables that loops update (the sample) and the static cache are its state.
  Diagnostics on \<open>stderr\<close> are left out, everything printed on \<open>stdout\<close> is a call.
\<close>

section \<open>The environment\<close>

record shape =
  s_color :: string
  s_x :: int
  s_y :: int
  s_size :: int
  s_payload :: "8 word list"

record sample_info =
  valid_data :: bool
  instance_state :: nat
  instance_handle :: nat

type_synonym sample = "shape \<times> sample_info"

datatype line =
    Topic_created string
  | Writer_created string string
  | Reader_created string
  | Publication_matched string int
  | Incompatible_qos string int string
  | Deadline_missed string int int
  | Sample_line string string int int int "8 word option"
  | Not_alive string string string
  | Coherent_iteration int
  | Ordered_iteration int

datatype shape_call =
    Strdup string
  | Malloc nat
  | FreeMem nat
  | Create_topic nat string
  | Create_publisher nat group_qos
  | Default_writer_qos nat
  | Create_datawriter nat nat writer_qos
  | Writer_init nat bool
  | Matched_status nat
  | Mono_ns
  | Srand nat
  | Rand
  | Sleep int
  | All_done
  | Begin_coherent nat
  | End_coherent nat
  | Write nat shape
  | Dispose nat string
  | Unregister nat string
  | Wait_acks nat
  | Create_cft nat string nat string
  | Create_subscriber nat group_qos
  | Default_reader_qos nat
  | Cft_as_description nat
  | Lookup_description nat string
  | Create_datareader nat nat reader_qos
  | Reader_init nat
  | Begin_access nat
  | End_access nat
  | Read_n nat nat
  | Qsort "sample list"
  | Take nat
  | Take_next_instance nat
  | Sample_free sample
  | Print line
  | Configure_from_file string
  | Create_factory
  | Factory_is_nil nat
  | Destroy_factory nat
  | Default_config nat
  | Create_participant_ex nat nat nat nat
  | Config_free
  | Create_participant nat nat
  | Register_type nat

record shape_ans =
  ptr :: nat
  rc :: int
  num :: int
  writer_dflt :: writer_qos
  reader_dflt :: reader_qos
  samples :: "sample list"

record shape_state =
  g_ih_cache :: ih_table
  cur :: shape

type_synonym strace = "(shape_call, shape_ans) trace"
type_synonym 'a shapes = "(shape_state, shape_call, shape_ans, 'a) prog"

definition zero_shape :: shape where
  "zero_shape = \<lparr>s_color = [], s_x = 0, s_y = 0, s_size = 0, s_payload = []\<rparr>"

section \<open>Listeners\<close>

definition on_offered_incompatible_qos :: "string \<Rightarrow> int \<Rightarrow> unit shapes" where
  "on_offered_incompatible_qos lc last_policy_id =
     Do (Print (Incompatible_qos lc last_policy_id (policy_name last_policy_id))) (Return ())"

definition on_offered_deadline_missed :: "string \<Rightarrow> int \<Rightarrow> int \<Rightarrow> unit shapes" where
  "on_offered_deadline_missed lc total_count total_count_change = Do (Print (Deadline_missed lc total_count total_count_change)) (Return ())"

section \<open>Extra topics\<close>

text \<open>The entries \<open>topics[i]\<close> and \<open>names[i]\<close> of \<open>ExtraTopics\<close>, with the text behind the name.\<close>

record extra_topic =
  et_topic :: nat
  et_name :: nat
  et_text :: string

fun free_all :: "nat list \<Rightarrow> 'a shapes \<Rightarrow> 'a shapes" where
  "free_all [] p = p"
| "free_all (x # xs) p = Do (FreeMem x) (free_all xs p)"

abbreviation extra_topics_free :: "extra_topic list \<Rightarrow> 'a shapes \<Rightarrow> 'a shapes" where
  "extra_topics_free et p \<equiv> free_all (map et_name et) p"

definition topic_at :: "extra_topic list \<Rightarrow> nat \<Rightarrow> nat \<Rightarrow> nat" where
  "topic_at et base i = (if i = 0 then base else et_topic (et ! (i - 1)))"

definition name_at :: "extra_topic list \<Rightarrow> string \<Rightarrow> nat \<Rightarrow> string" where
  "name_at et base_name i = (if i = 0 then base_name else et_text (et ! (i - 1)))"

fun create_extra_loop :: "nat \<Rightarrow> options \<Rightarrow> nat \<Rightarrow> extra_topic list \<Rightarrow> extra_topic list option shapes" where
  "create_extra_loop dp opts 0 et = Return (Some et)"
| "create_extra_loop dp opts (Suc k) et =
     (let text = extra_topic_name opts (length et) in
      if MAX_TOPICS \<le> length et then Leaf (Crash ''names'')
      else Call (Strdup text) (\<lambda>a.
        if ptr a = 0 then Leaf (Crash ''strdup'')
        else Do (Print (Topic_created text)) (Call (Create_topic dp text) (\<lambda>b.
          if ptr b = 0 then free_all (map et_name et @ [ptr a]) (Return None)
          else create_extra_loop dp opts k (et @ [\<lparr>et_topic = ptr b, et_name = ptr a, et_text = text\<rparr>])))))"

definition create_extra_topics :: "nat \<Rightarrow> options \<Rightarrow> extra_topic list option shapes" where
  "create_extra_topics dp opts = create_extra_loop dp opts ((num_topics opts + 2 ^ 32 - 1) mod 2 ^ 32) []"

section \<open>Publisher\<close>

text \<open>The local variables that no loop changes.\<close>

record pub_ctx =
  p_opts :: options
  p_pub :: nat
  p_et :: "extra_topic list"
  p_writers :: "nat list"
  p_payload :: nat
  p_deadline :: int

definition base_color :: "options \<Rightarrow> string" where
  "base_color opts = (case color opts of Some c \<Rightarrow> c | None \<Rightarrow> ''BLUE'')"

definition pub_cleanup :: "pub_ctx \<Rightarrow> 'a shapes \<Rightarrow> 'a shapes" where
  "pub_cleanup c p =
     (if additional_payload (p_opts c) > 0
      then Do (FreeMem (p_payload c)) (extra_topics_free (p_et c) p)
      else extra_topics_free (p_et c) p)"

definition set_cur :: "(shape \<Rightarrow> shape) \<Rightarrow> 'a shapes \<Rightarrow> 'a shapes" where
  "set_cur f p = Get (\<lambda>s. Put (s\<lparr>cur := f (cur s)\<rparr>) p)"

text \<open>\<open>shape.x = rand() % 320; shape.y = rand() % 240;\<close>\<close>

definition random_position :: "'a shapes \<Rightarrow> 'a shapes" where
  "random_position p = Call Rand (\<lambda>a. set_cur (s_x_update (\<lambda>_. num a mod 320))
     (Call Rand (\<lambda>b. set_cur (s_y_update (\<lambda>_. num b mod 240)) p)))"

text \<open>One sample; \<open>Some 1\<close> is the early \<open>return 1\<close> after a failed write.\<close>

definition write_sample :: "pub_ctx \<Rightarrow> nat \<Rightarrow> string \<Rightarrow> int option shapes" where
  "write_sample c ti inst_color = Get (\<lambda>s.
     Call (Write (p_writers c ! ti) (cur s)) (\<lambda>a.
       if rc a \<noteq> DDS_RETCODE_OK then pub_cleanup c (Return (Some 1))
       else if print_writer_samples (p_opts c)
       then Do (Print (Sample_line (name_at (p_et c) (topic_name (p_opts c)) ti) inst_color
              (s_x (cur s)) (s_y (cur s)) (s_size (cur s)) None)) (Return None)
       else Return None))"

definition set_instance_color :: "string \<Rightarrow> 'a shapes \<Rightarrow> 'a shapes" where
  "set_instance_color col p = set_cur (s_color_update (\<lambda>_. strncpy_field 129 col)) p"

text \<open>The growing size of \<open>-z 0\<close>. Incrementing the largest \<open>int32_t\<close> is undefined.\<close>

definition grow :: "options \<Rightarrow> int option shapes" where
  "grow opts =
     (if shapesize opts = 0 then Get (\<lambda>s.
        if s_size (cur s) = 2 ^ 31 - 1 then Leaf (Crash ''shapesize overflow'')
        else let n = s_size (cur s) + 1
             in set_cur (s_size_update (\<lambda>_. if size_modulo opts > 0 \<and> n > size_modulo opts then 1 else n)) (Return None))
      else Return None)"

text \<open>Sequencing of bodies that may leave the function.\<close>

abbreviation and_then :: "'a option shapes \<Rightarrow> 'a option shapes \<Rightarrow> 'a option shapes" where
  "and_then p q \<equiv> bind_prog p (\<lambda>x. case x of Some r \<Rightarrow> Return (Some r) | None \<Rightarrow> q)"

text \<open>One pass over all topics and instances in each of the two modes.\<close>

definition coherent_pass :: "pub_ctx \<Rightarrow> int option shapes" where
  "coherent_pass c =
     (let opts = p_opts c; sc = (if coherent_sample_count opts > 0 then coherent_sample_count opts else 1) in
      Do (Begin_coherent (p_pub c))
       (and_then
         (for_prog 0 (num_topics opts) (\<lambda>ti.
            for_prog 0 (num_instances opts) (\<lambda>inst.
              let col = instance_color (base_color opts) inst in
              set_instance_color col
                (for_prog 0 sc (\<lambda>_. random_position (and_then (write_sample c ti col) (grow opts)))))))
         (Do (End_coherent (p_pub c)) (Return None))))"

definition plain_pass :: "pub_ctx \<Rightarrow> int option shapes" where
  "plain_pass c =
     (let opts = p_opts c in
      random_position
       (and_then
         (for_prog 0 (num_topics opts) (\<lambda>ti.
            for_prog 0 (num_instances opts) (\<lambda>inst.
              let col = instance_color (base_color opts) inst in
              set_instance_color col (write_sample c ti col))))
         (grow opts)))"

definition use_coherent_gating :: "options \<Rightarrow> bool" where
  "use_coherent_gating opts \<longleftrightarrow> coherent_access opts \<or> ordered_access opts"

text \<open>The \<open>if (!printed_matched)\<close> block; \<open>Inl\<close> is the return with nothing matched within ten
  seconds, \<open>Inr\<close> the new value of \<open>printed_matched\<close>.\<close>

definition check_matched :: "pub_ctx \<Rightarrow> bool \<Rightarrow> (int + bool) shapes" where
  "check_matched c matched =
     (if matched then Return (Inr True)
      else Call (Matched_status (p_writers c ! 0)) (\<lambda>a.
        if num a > 0
        then Do (Print (Publication_matched (name_at (p_et c) (topic_name (p_opts c)) 0) (num a))) (Return (Inr True))
        else Call Mono_ns (\<lambda>t.
          if num t > p_deadline c then pub_cleanup c (Return (Inl 0))
          else Return (Inr False))))"

text \<open>The main loop, with a bound on the number of its iterations. \<open>None\<close> is the regular end. The 64-bit counter
  \<open>iteration\<close> and the sum that gives the deadline are unbounded here: neither can reach \<open>2 ^ 63\<close>.\<close>

fun write_loop :: "nat \<Rightarrow> pub_ctx \<Rightarrow> int \<Rightarrow> bool \<Rightarrow> int option shapes" where
  "write_loop 0 c iteration matched = Leaf OutOfFuel"
| "write_loop (Suc fuel) c iteration matched =
     Call All_done (\<lambda>d.
       if num d \<noteq> 0 then Return None
       else if num_iterations (p_opts c) \<ge> 0 \<and> iteration \<ge> num_iterations (p_opts c) then Return None
       else bind_prog (check_matched c matched) (\<lambda>m.
         case m of
           Inl r \<Rightarrow> Return (Some r)
         | Inr matched' \<Rightarrow>
             if use_coherent_gating (p_opts c) \<and> \<not> matched'
             then Do (Sleep (to_int32 (write_period_ms (p_opts c)))) (write_loop fuel c iteration matched')
             else and_then (if use_coherent_gating (p_opts c) then coherent_pass c else plain_pass c)
                    (Do (Sleep (to_int32 (write_period_ms (p_opts c)))) (write_loop fuel c (iteration + 1) matched'))))"

text \<open>Dispose or unregister every instance, then wait for the acknowledgments.\<close>

definition final_changes :: "pub_ctx \<Rightarrow> int option shapes" where
  "final_changes c = (let opts = p_opts c in
     for_prog 0 (num_topics opts) (\<lambda>ti.
       for_prog 0 (num_instances opts) (\<lambda>inst.
         let key = strncpy_field 129 (instance_color (base_color opts) inst) in
         Call (if final_instance_state opts = CHR ''d'' then Dispose (p_writers c ! ti) key else Unregister (p_writers c ! ti) key)
           (\<lambda>a. if rc a \<noteq> DDS_RETCODE_OK then pub_cleanup c (Return (Some 1)) else Return None))))"

definition wait_acknowledged :: "pub_ctx \<Rightarrow> int option shapes" where
  "wait_acknowledged c =
     for_prog 0 (num_topics (p_opts c)) (\<lambda>ti.
       Call (Wait_acks (p_writers c ! ti)) (\<lambda>a.
         if rc a \<noteq> DDS_RETCODE_OK \<and> rc a \<noteq> DDS_RETCODE_TIMEOUT then pub_cleanup c (Return (Some 1)) else Return None))"

definition finish :: "int option \<Rightarrow> int shapes \<Rightarrow> int shapes" where
  "finish x p = (case x of Some r \<Rightarrow> Return r | None \<Rightarrow> p)"

text \<open>From the sample on.\<close>

definition publish_samples :: "nat \<Rightarrow> pub_ctx \<Rightarrow> int shapes" where
  "publish_samples fuel c =
     bind_prog (write_loop fuel c 0 False) (\<lambda>x. finish x
       (if num_iterations (p_opts c) \<ge> 0
        then bind_prog (final_changes c) (\<lambda>y. finish y
               (bind_prog (wait_acknowledged c) (\<lambda>z. finish z (pub_cleanup c (Return 0)))))
        else pub_cleanup c (Return 0)))"

definition prepare_shape :: "options \<Rightarrow> shape" where
  "prepare_shape opts = zero_shape\<lparr>s_color := strncpy_field 129 (base_color opts),
     s_size := (if shapesize opts = 0 then 1 else shapesize opts)\<rparr>"

definition with_payload :: "options \<Rightarrow> (nat \<Rightarrow> 'a shapes) \<Rightarrow> 'a shapes" where
  "with_payload opts k =
     (if additional_payload opts > 0
      then Call (Malloc (additional_payload opts)) (\<lambda>a.
             if ptr a = 0 then Leaf (Crash ''memset'')
             else set_cur (s_payload_update (\<lambda>_. replicate (additional_payload opts - 1) 0 @ [255])) (k (ptr a)))
      else k 0)"

fun create_writers :: "nat \<Rightarrow> nat \<Rightarrow> options \<Rightarrow> extra_topic list \<Rightarrow> writer_qos \<Rightarrow> nat \<Rightarrow> nat list \<Rightarrow> nat list option shapes" where
  "create_writers base pub opts et qos 0 ws = Return (Some ws)"
| "create_writers base pub opts et qos (Suc k) ws =
     (let i = length ws in
      if MAX_TOPICS \<le> i then Leaf (Crash ''dw_handles'')
      else Call (Create_datawriter pub (topic_at et base i) qos) (\<lambda>a.
        if ptr a = 0 then extra_topics_free et (Return None)
        else Do (Writer_init (ptr a) (data_representation opts = 2))
          (Do (Print (Writer_created (name_at et (topic_name opts) i) (base_color opts)))
            (create_writers base pub opts et qos k (ws @ [ptr a])))))"

definition run_publisher :: "nat \<Rightarrow> nat \<Rightarrow> nat \<Rightarrow> options \<Rightarrow> int shapes" where
  "run_publisher fuel dp base_topic opts =
     bind_prog (create_extra_topics dp opts) (\<lambda>x. case x of None \<Rightarrow> Return 1 | Some et \<Rightarrow>
     Call (Create_publisher dp (build_group_qos opts)) (\<lambda>p.
     if ptr p = 0 then extra_topics_free et (Return 1)
     else Call (Default_writer_qos (ptr p)) (\<lambda>q.
     if rc q \<noteq> DDS_RETCODE_OK then extra_topics_free et (Return 1)
     else bind_prog (create_writers base_topic (ptr p) opts et (build_writer_qos (writer_dflt q) opts) (num_topics opts) [])
       (\<lambda>y. case y of None \<Rightarrow> Return 1 | Some ws \<Rightarrow>
         set_cur (\<lambda>_. prepare_shape opts) (with_payload opts (\<lambda>buf.
           Call Mono_ns (\<lambda>t. Do (Srand (to_uint32 (word_of_int (num t)))) (Call Mono_ns (\<lambda>t.
             publish_samples fuel \<lparr>p_opts = opts, p_pub = ptr p, p_et = et, p_writers = ws, p_payload = buf,
               p_deadline = num t + 10000000000\<rparr>))))))))) "

end
