(* ===== verification/Shape_Subscriber.thy ===== *)
theory Shape_Subscriber
  imports Shape_Publisher
begin

text \<open>
  The Shapes demo, part three: \<open>run_subscriber\<close> and \<open>main\<close> of \<open>examples/c/shape/src/shape_main.c\<close>.
  The two unbounded loops (the outer polling loop and the loop that drains a reader) carry bounds on
  their iterations. \<open>qsort\<close> is a call whose answer is the sorted array.
\<close>

section \<open>Listeners\<close>

definition on_requested_incompatible_qos :: "string \<Rightarrow> int \<Rightarrow> unit shapes" where
  "on_requested_incompatible_qos lc last_policy_id =
     Do (Print (Incompatible_qos lc last_policy_id (policy_name last_policy_id))) (Return ())"

definition on_requested_deadline_missed :: "string \<Rightarrow> int \<Rightarrow> int \<Rightarrow> unit shapes" where
  "on_requested_deadline_missed lc total_count total_count_change =
     Do (Print (Deadline_missed lc total_count total_count_change)) (Return ())"

section \<open>Samples\<close>

definition is_not_alive :: "nat \<Rightarrow> bool" where
  "is_not_alive st \<longleftrightarrow> st = DDS_NOT_ALIVE_NO_WRITERS_INSTANCE_STATE \<or> st = DDS_NOT_ALIVE_DISPOSED_INSTANCE_STATE"

definition print_not_alive :: "string \<Rightarrow> string \<Rightarrow> nat \<Rightarrow> line" where
  "print_not_alive tn col st = Not_alive tn col
     (if st = DDS_NOT_ALIVE_DISPOSED_INSTANCE_STATE then ''NOT_ALIVE_DISPOSED_INSTANCE_STATE''
      else ''NOT_ALIVE_NO_WRITERS_INSTANCE_STATE'')"

definition sample_cmp_by_handle :: "sample \<Rightarrow> sample \<Rightarrow> int" where
  "sample_cmp_by_handle a b =
     (if instance_handle (snd a) < instance_handle (snd b) then - 1
      else if instance_handle (snd a) > instance_handle (snd b) then 1 else 0)"

definition sample_line :: "string \<Rightarrow> shape \<Rightarrow> line" where
  "sample_line tn v = Sample_line tn (s_color v) (s_x v) (s_y v) (s_size v)
     (if s_payload v \<noteq> [] then Some (last (s_payload v)) else None)"

definition zero_sample :: sample where
  "zero_sample = (zero_shape, \<lparr>valid_data = False, instance_state = 0, instance_handle = 0\<rparr>)"

definition key_color :: "sample \<Rightarrow> ih_table \<Rightarrow> string" where
  "key_color smp t = (if s_color (fst smp) \<noteq> [] then s_color (fst smp) else ih_cache_get (instance_handle (snd smp)) t)"

text \<open>Report a sample of a dead instance, remember and print a live one.\<close>

definition report_not_alive :: "string \<Rightarrow> sample \<Rightarrow> 'a shapes \<Rightarrow> 'a shapes" where
  "report_not_alive tn smp p = Get (\<lambda>s.
     Do (Print (print_not_alive tn (key_color smp (g_ih_cache s)) (instance_state (snd smp)))) (Do (Sample_free smp) p))"

definition report_sample :: "string \<Rightarrow> sample \<Rightarrow> 'a shapes \<Rightarrow> 'a shapes" where
  "report_sample tn smp p = Get (\<lambda>s.
     Put (s\<lparr>g_ih_cache := ih_cache_put (instance_handle (snd smp)) (s_color (fst smp)) (g_ih_cache s)\<rparr>)
       (Do (Print (sample_line tn (fst smp))) (Do (Sample_free smp) p)))"

section \<open>Reading without taking\<close>

fun read_each :: "string \<Rightarrow> sample list \<Rightarrow> int option shapes" where
  "read_each tn [] = Return None"
| "read_each tn (smp # rest) =
     (if \<not> valid_data (snd smp) \<or> is_not_alive (instance_state (snd smp))
      then report_not_alive tn smp (read_each tn rest)
      else report_sample tn smp (read_each tn rest))"

definition read_samples :: "options \<Rightarrow> nat \<Rightarrow> string \<Rightarrow> int option shapes" where
  "read_samples opts reader tn =
     Call (Read_n reader MAX_SAMPLES_PER_READ) (\<lambda>a.
       let got = nat (num a); buf = take got (samples a @ replicate got zero_sample) in
       if MAX_SAMPLES_PER_READ < got then Leaf (Crash ''values'')
       else if \<not> take_read opts then Call (Qsort buf) (\<lambda>b. read_each tn (samples b))
       else read_each tn buf)"

section \<open>Taking\<close>

definition out_of_bounds :: "shape \<Rightarrow> bool" where
  "out_of_bounds v \<longleftrightarrow> s_x v < 0 \<or> s_x v \<ge> 320 \<or> s_y v < 0 \<or> s_y v \<ge> 240 \<or> s_size v < 1"

fun drain :: "nat \<Rightarrow> options \<Rightarrow> extra_topic list \<Rightarrow> nat \<Rightarrow> string \<Rightarrow> int option shapes" where
  "drain 0 opts et reader tn = Leaf OutOfFuel"
| "drain (Suc fuel) opts et reader tn =
     Call (if take_read opts then Take reader else Take_next_instance reader) (\<lambda>a. Get (\<lambda>s.
       let smp = (case samples a of [] \<Rightarrow> zero_sample | x # _ \<Rightarrow> x);
           cached = ih_cache_get (instance_handle (snd smp)) (g_ih_cache s) in
       if rc a \<noteq> DDS_RETCODE_OK \<or> \<not> valid_data (snd smp) then
         (if rc a = DDS_RETCODE_OK \<and> \<not> valid_data (snd smp) \<and> is_not_alive (instance_state (snd smp))
          then report_not_alive tn smp (drain fuel opts et reader tn)
          else Do (Sample_free smp) (Return None))
       else if cached \<noteq> [] \<and> cached \<noteq> s_color (fst smp)
       then Do (Sample_free smp) (extra_topics_free et (Return (Some 1)))
       else if out_of_bounds (fst smp)
       then Do (Sample_free smp) (extra_topics_free et (Return (Some 1)))
       else report_sample tn smp (drain fuel opts et reader tn)))"

section \<open>The subscriber\<close>

record sub_ctx =
  b_opts :: options
  b_sub :: nat
  b_et :: "extra_topic list"
  b_readers :: "nat list"

definition use_access :: "options \<Rightarrow> bool" where
  "use_access opts \<longleftrightarrow> coherent_access opts \<or> ordered_access opts"

definition open_access :: "sub_ctx \<Rightarrow> int \<Rightarrow> 'a shapes \<Rightarrow> 'a shapes" where
  "open_access c iteration p =
     (let opts = b_opts c;
          begin_it = Do (Begin_access (b_sub c)) p;
          say_ordered = (if ordered_access opts then Do (Print (Ordered_iteration iteration)) begin_it else begin_it) in
      if use_access opts
      then (if coherent_access opts then Do (Print (Coherent_iteration iteration)) say_ordered else say_ordered)
      else p)"

definition close_access :: "sub_ctx \<Rightarrow> 'a shapes \<Rightarrow> 'a shapes" where
  "close_access c p = (if use_access (b_opts c) then Do (End_access (b_sub c)) p else p)"

definition read_pass :: "nat \<Rightarrow> sub_ctx \<Rightarrow> int option shapes" where
  "read_pass dfuel c = (let opts = b_opts c in
     for_prog 0 (num_topics opts) (\<lambda>ti.
       let tn = name_at (b_et c) (topic_name opts) ti in
       if read_only opts then read_samples opts (b_readers c ! ti) tn
       else drain dfuel opts (b_et c) (b_readers c ! ti) tn))"

fun read_loop :: "nat \<Rightarrow> nat \<Rightarrow> sub_ctx \<Rightarrow> int \<Rightarrow> int option shapes" where
  "read_loop 0 dfuel c iteration = Leaf OutOfFuel"
| "read_loop (Suc fuel) dfuel c iteration =
     Call All_done (\<lambda>d.
       if num d \<noteq> 0 then Return None
       else if num_iterations (b_opts c) \<ge> 0 \<and> iteration \<ge> num_iterations (b_opts c) then Return None
       else open_access c iteration (and_then (read_pass dfuel c)
         (close_access c (Do (Sleep (to_int32 (read_period_ms (b_opts c)))) (read_loop fuel dfuel c (iteration + 1))))))"

definition effective_cft_expr :: "options \<Rightarrow> string option" where
  "effective_cft_expr opts =
     (case cft_expression opts of
        Some e \<Rightarrow> Some e
      | None \<Rightarrow> map_option (\<lambda>c. snprintf 160 (''color = '' @ [CHR 0x27] @ c @ [CHR 0x27])) (color opts))"

text \<open>The content-filtered topic, 0 when there is none; \<open>None\<close> for the failure return.\<close>

definition create_cft :: "nat \<Rightarrow> nat \<Rightarrow> options \<Rightarrow> extra_topic list \<Rightarrow> nat option shapes" where
  "create_cft dp base opts et =
     (case effective_cft_expr opts of
        None \<Rightarrow> Return (Some 0)
      | Some expr \<Rightarrow>
          Call (Create_cft dp (snprintf 192 (topic_name opts @ ''_cft'')) base expr) (\<lambda>a.
            if ptr a = 0 then extra_topics_free et (Return None) else Return (Some (ptr a))))"

fun create_readers ::
  "nat \<Rightarrow> nat \<Rightarrow> nat \<Rightarrow> options \<Rightarrow> extra_topic list \<Rightarrow> reader_qos \<Rightarrow> nat \<Rightarrow> nat list \<Rightarrow> nat list option shapes" where
  "create_readers dp sub cft opts et qos 0 rs = Return (Some rs)"
| "create_readers dp sub cft opts et qos (Suc k) rs =
     (let i = length rs; tn = name_at et (topic_name opts) i in
      if MAX_TOPICS \<le> i then Leaf (Crash ''dr_handles'')
      else Call (if i = 0 \<and> cft \<noteq> 0 then Cft_as_description cft else Lookup_description dp tn) (\<lambda>d.
        if ptr d = 0 then extra_topics_free et (Return None)
        else Do (Print (Reader_created tn)) (Call (Create_datareader sub (ptr d) qos) (\<lambda>a.
          if ptr a = 0 then extra_topics_free et (Return None)
          else Do (Reader_init (ptr a)) (create_readers dp sub cft opts et qos k (rs @ [ptr a]))))))"

definition subscribe_samples :: "nat \<Rightarrow> nat \<Rightarrow> sub_ctx \<Rightarrow> int shapes" where
  "subscribe_samples fuel dfuel c =
     bind_prog (read_loop fuel dfuel c 0) (\<lambda>x. finish x (extra_topics_free (b_et c) (Return 0)))"

definition run_subscriber :: "nat \<Rightarrow> nat \<Rightarrow> nat \<Rightarrow> nat \<Rightarrow> options \<Rightarrow> int shapes" where
  "run_subscriber fuel dfuel dp base_topic opts =
     bind_prog (create_extra_topics dp opts) (\<lambda>x. case x of None \<Rightarrow> Return 1 | Some et \<Rightarrow>
     bind_prog (create_cft dp base_topic opts et) (\<lambda>y. case y of None \<Rightarrow> Return 1 | Some cft \<Rightarrow>
     Call (Create_subscriber dp (build_group_qos opts)) (\<lambda>p.
     if ptr p = 0 then extra_topics_free et (Return 1)
     else Call (Default_reader_qos (ptr p)) (\<lambda>q.
     if rc q \<noteq> DDS_RETCODE_OK then extra_topics_free et (Return 1)
     else bind_prog (create_readers dp (ptr p) cft opts et (build_reader_qos (reader_dflt q) opts) (num_topics opts) [])
       (\<lambda>z. case z of None \<Rightarrow> Return 1 | Some rs \<Rightarrow>
         subscribe_samples fuel dfuel \<lparr>b_opts = opts, b_sub = ptr p, b_et = et, b_readers = rs\<rparr>)))))"

section \<open>main\<close>

text \<open>Creating the participant, with the configuration the two tuning options need; \<open>None\<close> is the
  failure return.\<close>

definition create_dp :: "nat \<Rightarrow> options \<Rightarrow> nat option shapes" where
  "create_dp factory opts =
     (if datafrag_size opts > 0 \<or> periodic_announcement_ms opts > 0
      then Call (Default_config factory) (\<lambda>a.
             if rc a \<noteq> DDS_RETCODE_OK then Do (Destroy_factory factory) (Return None)
             else Call (Create_participant_ex factory (domain_id opts) (datafrag_size opts) (periodic_announcement_ms opts))
               (\<lambda>b. Do Config_free (if ptr b = 0 then Do (Destroy_factory factory) (Return None) else Return (Some (ptr b)))))
      else Call (Create_participant factory (domain_id opts)) (\<lambda>b.
             if ptr b = 0 then Do (Destroy_factory factory) (Return None) else Return (Some (ptr b))))"

definition run_role :: "nat \<Rightarrow> nat \<Rightarrow> nat \<Rightarrow> nat \<Rightarrow> options \<Rightarrow> int shapes" where
  "run_role fuel dfuel dp topic opts =
     (if publish opts then run_publisher fuel dp topic opts else run_subscriber fuel dfuel dp topic opts)"

text \<open>From the creation of the factory on.\<close>

definition with_factory :: "nat \<Rightarrow> nat \<Rightarrow> options \<Rightarrow> int shapes" where
  "with_factory fuel dfuel opts =
     Call Create_factory (\<lambda>f. Call (Factory_is_nil (ptr f)) (\<lambda>nil.
       if num nil \<noteq> 0 then Return 1
       else bind_prog (create_dp (ptr f) opts) (\<lambda>d. case d of None \<Rightarrow> Return 1 | Some dp \<Rightarrow>
         Call (Register_type dp) (\<lambda>r.
           if rc r \<noteq> DDS_RETCODE_OK then Do (Destroy_factory (ptr f)) (Return 1)
           else Call (Create_topic dp (topic_name opts)) (\<lambda>t.
             if ptr t = 0 then Do (Destroy_factory (ptr f)) (Return 1)
             else Do (Print (Topic_created (topic_name opts)))
               (bind_prog (run_role fuel dfuel dp (ptr t) opts) (\<lambda>code.
                 Do (Destroy_factory (ptr f)) (Return code))))))))"

definition shape_main :: "nat \<Rightarrow> nat \<Rightarrow> string list \<Rightarrow> int shapes" where
  "shape_main fuel dfuel args =
     (case parse_args args default_options of
        Help \<Rightarrow> Leaf (Exit 0)
      | Argument_error \<Rightarrow> Return 1
      | Parsed opts \<Rightarrow>
          if \<not> publish opts \<and> \<not> subscribe opts then Return 1
          else if num_topics opts < 1 \<or> num_topics opts > MAX_TOPICS then Return 1
          else (case config_path opts of
                  Some path \<Rightarrow> Call (Configure_from_file path) (\<lambda>a.
                    if rc a \<noteq> DDS_RETCODE_OK then Return 1 else with_factory fuel dfuel opts)
                | None \<Rightarrow> with_factory fuel dfuel opts))"

end
