(* ===== verification/Shape_Subscribing.thy ===== *)
theory Shape_Subscribing
  imports Shape_Publishing Shape_Subscriber
begin

text \<open>
  What the Shapes subscriber and \<open>main\<close> guarantee: every sample received is freed exactly once, the
  checks of the taking modes let only samples within bounds through, a subscriber fed by a correct
  publisher runs to completion and never rejects a sample, and the process destroys its factory and
  frees its memory on every way out.
\<close>

section \<open>Measures of a trace\<close>

text \<open>The samples a call filled in, and those filled in and not yet freed, with their contents: \<open>None\<close> once a
  sample was freed that was not owed. Nesting of \<open>begin_access\<close>.\<close>

fun filled_in :: "shape_call \<Rightarrow> shape_ans \<Rightarrow> sample list" where
  "filled_in (Take _) a = [case samples a of [] \<Rightarrow> zero_sample | x # _ \<Rightarrow> x]"
| "filled_in (Take_next_instance _) a = [case samples a of [] \<Rightarrow> zero_sample | x # _ \<Rightarrow> x]"
| "filled_in (Read_n _ _) a = take (nat (num a)) (samples a @ replicate (nat (num a)) zero_sample)"
| "filled_in _ a = []"

fun settle :: "shape_call \<Rightarrow> sample multiset \<Rightarrow> sample multiset option" where
  "settle (Sample_free smp) M = (if smp \<in># M then Some (M - {#smp#}) else None)"
| "settle _ M = Some M"

fun owed :: "strace \<Rightarrow> sample multiset option" where
  "owed [] = Some {#}"
| "owed ((c, a) # tr) = Option.bind (owed tr) (\<lambda>M. settle c (M + mset (filled_in c a)))"

fun accesses :: "strace \<Rightarrow> int" where
  "accesses [] = 0"
| "accesses ((c, a) # tr) = (case c of Begin_access _ \<Rightarrow> 1 | End_access _ \<Rightarrow> - 1 | _ \<Rightarrow> 0) + accesses tr"

text \<open>Every sample shown in the taking modes is within the bounds.\<close>

fun line_ok :: "options \<Rightarrow> line \<Rightarrow> bool" where
  "line_ok opts (Sample_line tn col x y n b) = (read_only opts \<or> 0 \<le> x \<and> x < 320 \<and> 0 \<le> y \<and> y < 240 \<and> 1 \<le> n)"
| "line_ok opts _ = True"

fun shown_ok :: "options \<Rightarrow> strace \<Rightarrow> bool" where
  "shown_ok opts [] = True"
| "shown_ok opts ((c, a) # tr) = ((case c of Print l \<Rightarrow> line_ok opts l | _ \<Rightarrow> True) \<and> shown_ok opts tr)"

text \<open>What the C standard says of \<open>qsort\<close>.\<close>

fun qsort_ok :: "strace \<Rightarrow> shape_call \<Rightarrow> shape_ans \<Rightarrow> bool" where
  "qsort_ok tr (Qsort buf) a = (mset (samples a) = mset buf \<and> sorted_wrt (\<lambda>x y. sample_cmp_by_handle x y \<le> 0) (samples a))"
| "qsort_ok tr _ a = True"

section \<open>Parts that may leave the function\<close>

definition exits ::
  "(shape_state \<Rightarrow> strace \<Rightarrow> bool) \<Rightarrow> (int \<Rightarrow> strace \<Rightarrow> bool) \<Rightarrow> (strace \<Rightarrow> bool) \<Rightarrow> int option outcome \<Rightarrow> shape_state \<Rightarrow> strace \<Rightarrow> bool" where
  "exits I E C x s tr = (case x of Val None \<Rightarrow> I s tr | Val (Some v) \<Rightarrow> E v tr | _ \<Rightarrow> C tr)"

lemma exits_simps [simp]:
  "exits I E C (Val None) s tr = I s tr" "exits I E C (Val (Some v)) s tr = E v tr"
  "exits I E C (Crash m) s tr = C tr" "exits I E C (Exit n) s tr = C tr" "exits I E C OutOfFuel s tr = C tr"
  by (simp_all add: exits_def)

lemma exits_and_then:
  assumes "wpt G (exits I E C) p s tr" and "\<And>s tr. I s tr \<Longrightarrow> wpt G (exits J E C) q s tr"
  shows "wpt G (exits J E C) (and_then p q) s tr"
  by (rule wpt_bindI [OF assms(1)]) (auto split: option.splits intro: assms(2))

lemma exits_for:
  assumes "I s tr" and "\<And>i s tr. I s tr \<Longrightarrow> wpt G (exits I E C) (body i) s tr"
  shows "wpt G (exits I E C) (for_prog lo n body) s tr"
proof (rule wpt_for_prog [where I = "\<lambda>_. I"])
  show "wpt G (\<lambda>x s tr. case x of Val None \<Rightarrow> I s tr | _ \<Rightarrow> exits I E C x s tr) (body i) s tr" if "I s tr" for i s tr
    by (rule wpt_mono [OF assms(2) [OF that]]) (auto split: outcome.splits option.splits)
qed (use assms(1) in auto)

section \<open>Accounting\<close>

definition sub_inv :: "options \<Rightarrow> (nat \<Rightarrow> int) \<Rightarrow> int \<Rightarrow> shape_state \<Rightarrow> strace \<Rightarrow> bool" where
  "sub_inv opts H d s tr \<longleftrightarrow> (\<forall>r. held r tr = H r) \<and> owed tr = Some {#} \<and> accesses tr = d \<and> shown_ok opts tr"

definition sub_left :: "options \<Rightarrow> extra_topic list \<Rightarrow> (nat \<Rightarrow> int) \<Rightarrow> int \<Rightarrow> strace \<Rightarrow> bool" where
  "sub_left opts et H v tr \<longleftrightarrow> v \<noteq> 0 \<and> (\<forall>r. held r tr = H r - int (count_list (map et_name et) r)) \<and> owed tr = Some {#} \<and> shown_ok opts tr"

lemma wpt_free_all_sub:
  "(\<And>tr'. (\<forall>r. held r tr' = held r tr - int (count_list xs r)) \<Longrightarrow> owed tr' = owed tr \<Longrightarrow> accesses tr' = accesses tr \<Longrightarrow>
       shown_ok opts tr' = shown_ok opts tr \<Longrightarrow> wpt G Q p s tr') \<Longrightarrow> wpt G Q (free_all xs p) s tr"
proof (induction xs arbitrary: tr)
  case (Cons x xs)
  show ?case by (auto intro!: Cons.IH Cons.prems)
qed simp

text \<open>After one report the sample is accounted for.\<close>

lemma report_not_alive_owed:
  assumes "\<forall>r. held r tr = H r" and "owed tr = Some (add_mset smp M)" and "accesses tr = d" and "shown_ok opts tr"
    and "\<And>s' tr'. \<forall>r. held r tr' = H r \<Longrightarrow> owed tr' = Some M \<Longrightarrow> accesses tr' = d \<Longrightarrow> shown_ok opts tr' \<Longrightarrow> wpt G Q p s' tr'"
  shows "wpt G Q (report_not_alive tn smp p) s tr"
  using assms(1-4) by (auto simp: report_not_alive_def print_not_alive_def intro!: assms(5))

lemma report_sample_owed:
  assumes "\<forall>r. held r tr = H r" and "owed tr = Some (add_mset smp M)" and "accesses tr = d" and "shown_ok opts tr"
    and "read_only opts \<or> \<not> out_of_bounds (fst smp)"
    and "\<And>s' tr'. \<forall>r. held r tr' = H r \<Longrightarrow> owed tr' = Some M \<Longrightarrow> accesses tr' = d \<Longrightarrow> shown_ok opts tr' \<Longrightarrow> wpt G Q p s' tr'"
  shows "wpt G Q (report_sample tn smp p) s tr"
  using assms(1-5) by (auto simp: report_sample_def sample_line_def out_of_bounds_def intro!: assms(6))

lemma read_each_owed:
  assumes "read_only opts" and "\<forall>r. held r tr = H r" and "owed tr = Some (mset smps)" and "accesses tr = d" and "shown_ok opts tr"
  shows "wpt G (exits (sub_inv opts H d) E C) (read_each tn smps) s tr"
  using assms(2-5)
proof (induction smps arbitrary: s tr)
  case (Cons smp smps)
  show ?case
    unfolding read_each.simps
    by (intro wpt_ifI report_not_alive_owed [OF Cons.prems [unfolded mset.simps]]
        report_sample_owed [OF Cons.prems [unfolded mset.simps]] Cons.IH)
      (simp_all add: assms(1))
qed (simp add: sub_inv_def)

lemma read_samples_owed:
  assumes "sub_inv opts H d s tr" and "read_only opts"
  shows "wpt qsort_ok (exits (sub_inv opts H d) E (shown_ok opts)) (read_samples opts reader tn) s tr"
  unfolding read_samples_def Let_def
  by (intro wpt_CallI wpt_ifI read_each_owed) (use assms in \<open>auto simp: sub_inv_def\<close>)

lemma drain_owed:
  assumes "sub_inv opts H d s tr"
  shows "wpt G (exits (sub_inv opts H d) (sub_left opts et H) (shown_ok opts)) (drain fuel opts et reader tn) s tr"
  using assms
proof (induction fuel arbitrary: s tr)
  case (Suc fuel)
  have call: "\<forall>r. held r ((if take_read opts then Take reader else Take_next_instance reader, a) # tr) = H r"
    "owed ((if take_read opts then Take reader else Take_next_instance reader, a) # tr)
       = Some (add_mset (case samples a of [] \<Rightarrow> zero_sample | x # _ \<Rightarrow> x) {#})"
    "accesses ((if take_read opts then Take reader else Take_next_instance reader, a) # tr) = d"
    "shown_ok opts ((if take_read opts then Take reader else Take_next_instance reader, a) # tr)" for a
    using Suc.prems by (auto simp: sub_inv_def)
  have ih: "wpt G (exits (sub_inv opts H d) (sub_left opts et H) (shown_ok opts)) (drain fuel opts et reader tn) s' tr'"
    if "\<forall>r. held r tr' = H r" "owed tr' = Some {#}" "accesses tr' = d" "shown_ok opts tr'" for s' tr'
    using that by (intro Suc.IH) (simp add: sub_inv_def)
  show ?case
    unfolding drain.simps
  proof (rule wpt_CallI)
    fix a
    obtain tr1 where tr1: "(if take_read opts then Take reader else Take_next_instance reader, a) # tr = tr1" by blast
    obtain smp where smp: "(case samples a of [] \<Rightarrow> zero_sample | x # _ \<Rightarrow> x) = smp" by blast
    note c = call [of a, unfolded tr1 smp]
    have freed: "wpt G (exits (sub_inv opts H d) (sub_left opts et H) (shown_ok opts))
        (Do (Sample_free smp) (extra_topics_free et (Return (Some 1)))) s tr1"
      by (intro wpt_DoI wpt_free_all_sub [where opts = opts]) (simp add: sub_left_def c)
    have stop: "wpt G (exits (sub_inv opts H d) (sub_left opts et H) (shown_ok opts))
        (Do (Sample_free smp) (Return None)) s tr1"
      by (simp add: sub_inv_def c)
    show "wpt G (exits (sub_inv opts H d) (sub_left opts et H) (shown_ok opts))
      (Get (\<lambda>s. let smp = (case samples a of [] \<Rightarrow> zero_sample | x # _ \<Rightarrow> x);
           cached = ih_cache_get (instance_handle (snd smp)) (g_ih_cache s) in
       if rc a \<noteq> DDS_RETCODE_OK \<or> \<not> valid_data (snd smp) then
         (if rc a = DDS_RETCODE_OK \<and> \<not> valid_data (snd smp) \<and> is_not_alive (instance_state (snd smp))
          then report_not_alive tn smp (drain fuel opts et reader tn)
          else Do (Sample_free smp) (Return None))
       else if cached \<noteq> [] \<and> cached \<noteq> s_color (fst smp)
       then Do (Sample_free smp) (extra_topics_free et (Return (Some 1)))
       else if out_of_bounds (fst smp)
       then Do (Sample_free smp) (extra_topics_free et (Return (Some 1)))
       else report_sample tn smp (drain fuel opts et reader tn)))
      s ((if take_read opts then Take reader else Take_next_instance reader, a) # tr)"
      unfolding tr1 smp wpt.simps Let_def
      by (intro wpt_ifI freed stop report_not_alive_owed [OF c] report_sample_owed [OF c] ih) auto
  qed
qed (simp add: sub_inv_def)


lemma read_pass_owed:
  assumes "sub_inv (b_opts c) H d s tr"
  shows "wpt qsort_ok (exits (sub_inv (b_opts c) H d) (sub_left (b_opts c) (b_et c) H) (shown_ok (b_opts c))) (read_pass dfuel c) s tr"
  unfolding read_pass_def Let_def
  by (intro exits_for wpt_ifI drain_owed read_samples_owed assms)

lemma open_access_owed:
  assumes "sub_inv (b_opts c) H 0 s tr"
    and "\<And>tr'. sub_inv (b_opts c) H (of_bool (use_access (b_opts c))) s tr' \<Longrightarrow> wpt G Q p s tr'"
  shows "wpt G Q (open_access c it p) s tr"
  using assms(1) by (auto simp: open_access_def Let_def sub_inv_def intro!: assms(2))

lemma close_access_owed:
  assumes "sub_inv (b_opts c) H (of_bool (use_access (b_opts c))) s tr"
    and "\<And>tr'. sub_inv (b_opts c) H 0 s tr' \<Longrightarrow> wpt G Q p s tr'"
  shows "wpt G Q (close_access c p) s tr"
  using assms(1) by (auto simp: close_access_def sub_inv_def intro!: assms(2))

lemma read_loop_owed:
  assumes "sub_inv (b_opts c) H 0 s tr"
  shows "wpt qsort_ok (exits (sub_inv (b_opts c) H 0) (sub_left (b_opts c) (b_et c) H) (shown_ok (b_opts c)))
           (read_loop fuel dfuel c it) s tr"
  using assms
proof (induction fuel arbitrary: it s tr)
  case (Suc fuel)
  have start: "sub_inv (b_opts c) H 0 s ((All_done, a) # tr)" for a
    using Suc.prems by (simp add: sub_inv_def)
  have slept: "sub_inv (b_opts c) H 0 s' ((Sleep t, a) # tr')" if "sub_inv (b_opts c) H 0 s' tr'" for s' tr' t a
    using that by (simp add: sub_inv_def)
  show ?case
    unfolding read_loop.simps
    by (intro wpt_CallI wpt_ifI)
      (simp_all only: wpt.simps exits_simps start, rule open_access_owed [OF start], rule exits_and_then,
        rule read_pass_owed, assumption, rule close_access_owed, assumption, rule wpt_DoI, rule Suc.IH, erule slept)
qed (simp add: sub_inv_def)

definition subscriber_end :: "options \<Rightarrow> (nat \<Rightarrow> int) \<Rightarrow> int outcome \<Rightarrow> shape_state \<Rightarrow> strace \<Rightarrow> bool" where
  "subscriber_end opts H x s tr \<longleftrightarrow> shown_ok opts tr \<and>
     (\<forall>v. x = Val v \<longrightarrow> (\<forall>r. held r tr = H r) \<and> owed tr = Some {#} \<and> (v = 0 \<longrightarrow> accesses tr = 0))"

lemma subscribe_samples_end:
  assumes "\<forall>r. held r tr = H r + int (count_list (map et_name (b_et c)) r)" and "owed tr = Some {#}" and "accesses tr = 0"
    and "shown_ok (b_opts c) tr"
  shows "wpt qsort_ok (subscriber_end (b_opts c) H) (subscribe_samples fuel dfuel c) s tr"
proof -
  let ?H = "\<lambda>r. H r + int (count_list (map et_name (b_et c)) r)"
  have "sub_inv (b_opts c) ?H 0 s tr" using assms by (simp add: sub_inv_def)
  then show ?thesis
    unfolding subscribe_samples_def
    by (intro wpt_bindI [OF read_loop_owed])
      (auto simp: finish_def subscriber_end_def sub_left_def sub_inv_def split: option.splits
        intro!: wpt_free_all_sub [where opts = "b_opts c"])
qed

text \<open>Setting up.\<close>

definition setup_ok :: "options \<Rightarrow> (nat \<Rightarrow> int) \<Rightarrow> strace \<Rightarrow> bool" where
  "setup_ok opts H tr \<longleftrightarrow> (\<forall>r. held r tr = H r) \<and> owed tr = Some {#} \<and> accesses tr = 0 \<and> shown_ok opts tr"

definition setup_post :: "options \<Rightarrow> (nat \<Rightarrow> int) \<Rightarrow> ('a \<Rightarrow> nat \<Rightarrow> int) \<Rightarrow> 'a option outcome \<Rightarrow> shape_state \<Rightarrow> strace \<Rightarrow> bool" where
  "setup_post opts H K x s tr = (case x of Val None \<Rightarrow> setup_ok opts H tr
     | Val (Some v) \<Rightarrow> setup_ok opts (\<lambda>r. H r + K v r) tr | _ \<Rightarrow> shown_ok opts tr)"

lemma setup_post_simps [simp]:
  "setup_post opts H K (Val None) s tr = setup_ok opts H tr"
  "setup_post opts H K (Val (Some v)) s tr = setup_ok opts (\<lambda>r. H r + K v r) tr"
  "setup_post opts H K (Crash m) s tr = shown_ok opts tr" "setup_post opts H K (Exit n) s tr = shown_ok opts tr"
  "setup_post opts H K OutOfFuel s tr = shown_ok opts tr"
  by (simp_all add: setup_post_def)

definition names_of :: "extra_topic list \<Rightarrow> nat \<Rightarrow> int" where
  "names_of et r = int (count_list (map et_name et) r)"

lemma names_of_append: "names_of (et @ [e]) r = names_of et r + of_bool (et_name e = r)"
  by (simp add: names_of_def)

lemma create_extra_setup:
  assumes "setup_ok opts (\<lambda>r. H r + names_of et r) tr"
  shows "wpt G (setup_post opts H names_of) (create_extra_loop dp opts k et) s tr"
  using assms
proof (induction k arbitrary: et tr)
  case (Suc k)
  show ?case
    using Suc.prems
    by (auto simp: Let_def setup_ok_def names_of_def [symmetric] names_of_append intro!: Suc.IH wpt_free_all_sub [where opts = opts])
qed simp

lemma create_cft_setup:
  assumes "setup_ok opts (\<lambda>r. H r + names_of et r) tr"
  shows "wpt G (setup_post opts H (\<lambda>_. names_of et)) (create_cft dp base opts et) s tr"
  using assms
  by (auto simp: create_cft_def setup_ok_def names_of_def [symmetric] names_of_append split: option.splits intro!: wpt_free_all_sub [where opts = opts])

lemma create_readers_setup:
  assumes "setup_ok opts (\<lambda>r. H r + names_of et r) tr"
  shows "wpt G (setup_post opts H (\<lambda>_. names_of et)) (create_readers dp sub cft opts et qos k rs) s tr"
  using assms
proof (induction k arbitrary: rs tr)
  case (Suc k)
  show ?case
    unfolding create_readers.simps Let_def
    by (intro wpt_ifI wpt_CallI wpt_DoI Suc.IH wpt_free_all_sub [where opts = opts])
      (use Suc.prems in \<open>auto simp: setup_ok_def names_of_def [symmetric] split: if_splits\<close>)
qed simp

lemma setup_bind:
  assumes "wpt G (setup_post opts H K) p s tr"
    and "\<And>v s tr. setup_ok opts (\<lambda>r. H r + K v r) tr \<Longrightarrow> wpt G (subscriber_end opts H) (f v) s tr"
  shows "wpt G (subscriber_end opts H) (bind_prog p (\<lambda>x. case x of None \<Rightarrow> Return 1 | Some v \<Rightarrow> f v)) s tr"
  by (rule wpt_bindI [OF assms(1)])
    (auto simp: subscriber_end_def setup_ok_def split: option.splits intro!: assms(2))

lemma run_subscriber_end:
  assumes "owed tr = Some {#}" and "accesses tr = 0" and "shown_ok opts tr"
  shows "wpt qsort_ok (subscriber_end opts (\<lambda>r. held r tr)) (run_subscriber fuel dfuel dp base_topic opts) s tr"
proof -
  let ?H = "\<lambda>r. held r tr"
  have freed: "wpt qsort_ok (subscriber_end opts ?H) (extra_topics_free et (Return 1)) s tr'"
    if "setup_ok opts (\<lambda>r. ?H r + names_of et r) tr'" for et s tr'
    using that by (auto intro!: wpt_free_all_sub [where opts = opts] simp: subscriber_end_def setup_ok_def names_of_def)
  have keep: "setup_ok opts K ((Create_subscriber dp q, a) # tr') = setup_ok opts K tr'"
    "setup_ok opts K ((Default_reader_qos p, a) # tr') = setup_ok opts K tr'" for K q a p tr'
    by (simp_all add: setup_ok_def)
  have start: "setup_ok opts (\<lambda>r. ?H r + names_of [] r) tr"
    using assms by (simp add: setup_ok_def names_of_def)
  have last: "wpt qsort_ok (subscriber_end opts ?H)
      (subscribe_samples fuel dfuel \<lparr>b_opts = opts, b_sub = p, b_et = et, b_readers = rs\<rparr>) s tr'"
    if "setup_ok opts (\<lambda>r. ?H r + names_of et r) tr'" for p et rs s tr'
    using subscribe_samples_end [where c = "\<lparr>b_opts = opts, b_sub = p, b_et = et, b_readers = rs\<rparr>" and H = ?H and tr = tr'] that
    by (simp add: setup_ok_def names_of_def)
  show ?thesis
    unfolding run_subscriber_def create_extra_topics_def
    by (intro setup_bind [OF create_extra_setup [OF start]] setup_bind [OF create_cft_setup] wpt_CallI wpt_ifI
        setup_bind [OF create_readers_setup] freed last) (simp_all add: keep)
qed

section \<open>A cooperating publisher\<close>

text \<open>How many samples were taken in a row.\<close>

fun streak :: "strace \<Rightarrow> nat" where
  "streak [] = 0"
| "streak ((c, a) # tr) =
     (if (\<exists>r. c = Take r \<or> c = Take_next_instance r) then (if rc a = DDS_RETCODE_OK then Suc (streak tr) else 0)
      else streak tr)"

definition fine_sample :: "(nat \<Rightarrow> string) \<Rightarrow> sample \<Rightarrow> bool" where
  "fine_sample key smp \<longleftrightarrow> \<not> out_of_bounds (fst smp) \<and> s_color (fst smp) = key (instance_handle (snd smp))
     \<and> length (s_color (fst smp)) \<le> 128"

text \<open>The middleware accepts everything, at most \<open>K\<close> samples are there to take in a row, and each valid one is
  within bounds and carries the color that belongs to its instance.\<close>

fun peer :: "nat \<Rightarrow> (nat \<Rightarrow> string) \<Rightarrow> strace \<Rightarrow> shape_call \<Rightarrow> shape_ans \<Rightarrow> bool" where
  "peer K key tr (Strdup _) a = (ptr a \<noteq> 0)"
| "peer K key tr (Create_topic _ _) a = (ptr a \<noteq> 0)"
| "peer K key tr (Create_cft _ _ _ _) a = (ptr a \<noteq> 0)"
| "peer K key tr (Create_subscriber _ _) a = (ptr a \<noteq> 0)"
| "peer K key tr (Default_reader_qos _) a = (rc a = DDS_RETCODE_OK)"
| "peer K key tr (Cft_as_description _) a = (ptr a \<noteq> 0)"
| "peer K key tr (Lookup_description _ _) a = (ptr a \<noteq> 0)"
| "peer K key tr (Create_datareader _ _ _) a = (ptr a \<noteq> 0)"
| "peer K key tr All_done a = (num a = 0)"
| "peer K key tr (Read_n _ n) a = (num a \<le> int n)"
| "peer K key tr (Take _) a = ((K \<le> streak tr \<longrightarrow> rc a \<noteq> DDS_RETCODE_OK) \<and>
     (\<forall>smp \<in> set (samples a). valid_data (snd smp) \<longrightarrow> fine_sample key smp))"
| "peer K key tr (Take_next_instance _) a = ((K \<le> streak tr \<longrightarrow> rc a \<noteq> DDS_RETCODE_OK) \<and>
     (\<forall>smp \<in> set (samples a). valid_data (snd smp) \<longrightarrow> fine_sample key smp))"
| "peer K key tr _ a = True"

text \<open>The cache only ever holds the right color, or none.\<close>

definition cache_true :: "(nat \<Rightarrow> string) \<Rightarrow> ih_table \<Rightarrow> bool" where
  "cache_true key t \<longleftrightarrow> ih_wf t \<and> (\<forall>h. ih_cache_get h t = [] \<or> ih_cache_get h t = key h)"

lemma cache_true_put:
  assumes "cache_true key t" and "length (key h) \<le> 128"
  shows "cache_true key (ih_cache_put h (key h) t)"
  unfolding cache_true_def
proof (intro conjI allI)
  have wf: "ih_wf t" using assms(1) by (simp add: cache_true_def)
  then show wf': "ih_wf (ih_cache_put h (key h) t)" by (rule ih.wf_put)
  fix h'
  show "ih_cache_get h' (ih_cache_put h (key h) t) = [] \<or> ih_cache_get h' (ih_cache_put h (key h) t) = key h'"
  proof (cases "h' = h")
    case True
    have "strncpy_field 129 (key h) = key h" using assms(2) by (simp add: strncpy_field_def)
    with True ih.get_put_same [OF wf, of h "key h"] ih.get_missing [OF wf', of h] show ?thesis by auto
  next
    case False
    with ih.get_put_other [OF wf] assms(1) show ?thesis by (simp add: cache_true_def)
  qed
qed

definition reading :: "nat \<Rightarrow> (nat \<Rightarrow> string) \<Rightarrow> options \<Rightarrow> shape_state \<Rightarrow> strace \<Rightarrow> bool" where
  "reading K key opts s tr \<longleftrightarrow> (read_only opts \<or> cache_true key (g_ih_cache s)) \<and> streak tr \<le> K"

abbreviation goes_on :: "nat \<Rightarrow> (nat \<Rightarrow> string) \<Rightarrow> options \<Rightarrow> int option outcome \<Rightarrow> shape_state \<Rightarrow> strace \<Rightarrow> bool" where
  "goes_on K key opts \<equiv> exits (reading K key opts) (\<lambda>_ _. False) (\<lambda>_. False)"

lemma read_each_goes_on:
  assumes "read_only opts" and "streak tr \<le> K"
  shows "wpt G (goes_on K key opts) (read_each tn smps) s tr"
  using assms
  by (induction smps arbitrary: s tr) (auto simp: reading_def report_not_alive_def report_sample_def)

lemma read_samples_goes_on:
  assumes "reading K key opts s tr" and "read_only opts"
  shows "wpt (peer K key) (goes_on K key opts) (read_samples opts reader tn) s tr"
  unfolding read_samples_def Let_def
  by (intro wpt_CallI wpt_ifI read_each_goes_on)
    (use assms in \<open>auto simp: reading_def\<close>)

lemma drain_goes_on:
  assumes "reading K key opts s tr" and "\<not> read_only opts" and "K < fuel + streak tr"
  shows "wpt (peer K key) (goes_on K key opts) (drain fuel opts et reader tn) s tr"
  using assms(1,3)
proof (induction fuel arbitrary: s tr)
  case 0
  then show ?case by (simp add: reading_def)
next
  case (Suc fuel)
  let ?c = "if take_read opts then Take reader else Take_next_instance reader"
  have ct: "cache_true key (g_ih_cache s)" and st: "streak tr \<le> K"
    using Suc.prems assms(2) by (auto simp: reading_def)
  show ?case
    unfolding drain.simps
  proof (rule wpt_CallI)
    fix a
    assume "peer K key tr ?c a"
    then have few: "rc a = DDS_RETCODE_OK \<Longrightarrow> streak tr < K"
      and fine: "\<forall>smp \<in> set (samples a). valid_data (snd smp) \<longrightarrow> fine_sample key smp"
      by (auto split: if_splits)
    obtain tr1 where tr1: "(?c, a) # tr = tr1" by blast
    have s1: "streak tr1 = (if rc a = DDS_RETCODE_OK then Suc (streak tr) else 0)"
      unfolding tr1 [symmetric] by simp
    have ih: "wpt (peer K key) (goes_on K key opts) (drain fuel opts et reader tn) s' tr'"
      if "rc a = DDS_RETCODE_OK" and "streak tr' = streak tr1" and "cache_true key (g_ih_cache s')" for s' tr'
      using that few s1 Suc.prems(2) by (intro Suc.IH) (auto simp: reading_def)
    have valid: "fine_sample key smp" if "smp = (case samples a of [] \<Rightarrow> zero_sample | x # _ \<Rightarrow> x)" and "valid_data (snd smp)" for smp
      using that fine by (cases "samples a") (auto simp: zero_sample_def)
    show "wpt (peer K key) (goes_on K key opts)
      (Get (\<lambda>s. let smp = (case samples a of [] \<Rightarrow> zero_sample | x # _ \<Rightarrow> x);
           cached = ih_cache_get (instance_handle (snd smp)) (g_ih_cache s) in
       if rc a \<noteq> DDS_RETCODE_OK \<or> \<not> valid_data (snd smp) then
         (if rc a = DDS_RETCODE_OK \<and> \<not> valid_data (snd smp) \<and> is_not_alive (instance_state (snd smp))
          then report_not_alive tn smp (drain fuel opts et reader tn)
          else Do (Sample_free smp) (Return None))
       else if cached \<noteq> [] \<and> cached \<noteq> s_color (fst smp)
       then Do (Sample_free smp) (extra_topics_free et (Return (Some 1)))
       else if out_of_bounds (fst smp)
       then Do (Sample_free smp) (extra_topics_free et (Return (Some 1)))
       else report_sample tn smp (drain fuel opts et reader tn)))
      s ((?c, a) # tr)"
    proof -
      obtain smp where smp: "(case samples a of [] \<Rightarrow> zero_sample | x # _ \<Rightarrow> x) = smp" by blast
      have free_ok: "reading K key opts s ((Sample_free smp, r) # tr1)" for r
        using ct st few s1 by (auto simp: reading_def)
      have known: "ih_cache_get (instance_handle (snd smp)) (g_ih_cache s) = [] \<or>
          ih_cache_get (instance_handle (snd smp)) (g_ih_cache s) = s_color (fst smp)" if "valid_data (snd smp)"
        using ct valid [OF smp [symmetric] that] by (auto simp: cache_true_def fine_sample_def)
      have put: "cache_true key (ih_cache_put (instance_handle (snd smp)) (s_color (fst smp)) (g_ih_cache s))" if "valid_data (snd smp)"
        using cache_true_put [OF ct] valid [OF smp [symmetric] that] by (auto simp: fine_sample_def)
      show ?thesis
        unfolding tr1 smp wpt.simps Let_def
        by (intro wpt_ifI)
          (use ct known put valid [OF smp [symmetric]] free_ok in
            \<open>auto simp: report_not_alive_def report_sample_def fine_sample_def intro!: ih\<close>)
    qed
  qed
qed

lemma reading_neutral:
  assumes "reading K key opts s tr"
  shows "reading K key opts s ((All_done, a) # tr)" "reading K key opts s ((Sleep t, a) # tr)"
    "reading K key opts s ((Print l, a) # tr)" "reading K key opts s ((Begin_access b, a) # tr)"
    "reading K key opts s ((End_access b, a) # tr)"
  using assms by (simp_all add: reading_def)

lemma read_pass_goes_on:
  assumes "reading K key (b_opts c) s tr" and "K < dfuel"
  shows "wpt (peer K key) (goes_on K key (b_opts c)) (read_pass dfuel c) s tr"
  unfolding read_pass_def Let_def
  by (intro exits_for wpt_ifI drain_goes_on read_samples_goes_on) (use assms in auto)

lemma open_access_goes_on:
  assumes "reading K key (b_opts c) s tr" and "\<And>tr'. reading K key (b_opts c) s tr' \<Longrightarrow> wpt G Q p s tr'"
  shows "wpt G Q (open_access c it p) s tr"
  using assms(1) by (auto simp: open_access_def Let_def reading_neutral intro!: assms(2))

lemma close_access_goes_on:
  assumes "reading K key (b_opts c) s tr" and "\<And>tr'. reading K key (b_opts c) s tr' \<Longrightarrow> wpt G Q p s tr'"
  shows "wpt G Q (close_access c p) s tr"
  using assms(1) by (auto simp: close_access_def reading_neutral intro!: assms(2))

lemma read_loop_goes_on:
  assumes "reading K key (b_opts c) s tr" and "K < dfuel" and "0 \<le> it" and "it \<le> num_iterations (b_opts c)"
    and "nat (num_iterations (b_opts c) - it) < fuel"
  shows "wpt (peer K key) (goes_on K key (b_opts c)) (read_loop fuel dfuel c it) s tr"
  using assms(1,3-5)
proof (induction fuel arbitrary: it s tr)
  case (Suc fuel)
  have next_round: "wpt (peer K key) (goes_on K key (b_opts c)) (read_loop fuel dfuel c (it + 1)) s' tr'"
    if "reading K key (b_opts c) s' tr'" and "\<not> num_iterations (b_opts c) \<le> it" for s' tr'
    using that Suc.prems by (intro Suc.IH) auto
  show ?case
    unfolding read_loop.simps
    by (intro wpt_CallI wpt_ifI open_access_goes_on [where K = K and key = key]
        exits_and_then [OF read_pass_goes_on] close_access_goes_on [where K = K and key = key] wpt_DoI next_round)
      (use Suc.prems assms(2) in \<open>auto simp: reading_neutral\<close>)
qed simp

lemma create_extra_goes_on:
  assumes "length et + k \<le> MAX_TOPICS"
  shows "wpt (peer K key) (\<lambda>x s' tr'. (\<exists>et'. x = Val (Some et')) \<and> s' = s \<and> streak tr' = streak tr)
     (create_extra_loop dp opts k et) s tr"
  using assms
proof (induction k arbitrary: et tr)
  case (Suc k)
  have ih: "wpt (peer K key) (\<lambda>x s' tr'. (\<exists>et'. x = Val (Some et')) \<and> s' = s \<and> streak tr' = w)
      (create_extra_loop dp opts k (et @ [e])) s tr'" if "streak tr' = w" for e tr' w
    using Suc.IH [of "et @ [e]" tr'] Suc.prems that by simp
  show ?case using Suc.prems by (auto simp: Let_def intro!: ih)
qed simp

lemma create_readers_goes_on:
  assumes "length rs + k \<le> MAX_TOPICS"
  shows "wpt (peer K key) (\<lambda>x s' tr'. (\<exists>rs'. x = Val (Some rs')) \<and> s' = s \<and> streak tr' = streak tr)
     (create_readers dp sub cft opts et qos k rs) s tr"
  using assms
proof (induction k arbitrary: rs tr)
  case (Suc k)
  have ih: "wpt (peer K key) (\<lambda>x s' tr'. (\<exists>rs'. x = Val (Some rs')) \<and> s' = s \<and> streak tr' = w)
      (create_readers dp sub cft opts et qos k (rs @ [e])) s tr'" if "streak tr' = w" for e tr' w
    using Suc.IH [of "rs @ [e]" tr'] Suc.prems that by simp
  show ?case
    unfolding create_readers.simps Let_def
    by (intro wpt_ifI wpt_CallI wpt_DoI ih) (use Suc.prems in \<open>auto split: if_splits\<close>)
qed simp

lemma create_cft_goes_on:
  "wpt (peer K key) (\<lambda>x s' tr'. (\<exists>cft. x = Val (Some cft)) \<and> s' = s \<and> streak tr' = streak tr) (create_cft dp base opts et) s tr"
  by (auto simp: create_cft_def split: option.splits)

lemma wpt_free_all_return: "(\<And>tr. Q x s tr) \<Longrightarrow> wpt G Q (free_all xs (Leaf x)) s tr"
  by (induction xs arbitrary: tr) auto

text \<open>C31. A subscriber fed by a correct publisher runs to completion. The options ask for 1 to 16 topics (what \<open>main\<close>
  checks before it calls the subscriber) and a non-negative iteration count; the cache of colors is consistent with the
  publisher's colors when the subscriber starts (the empty one is); nobody interrupts it (no signal raises
  \<open>g_all_done\<close>) and \<open>strdup\<close> never answers null. If then the middleware accepts every call, hands over at most the
  256 samples a read asks for, never has more than \<open>K\<close> samples to take in a row, and every valid sample taken is
  within bounds and carries the color of its instance (at most 128 characters), then \<open>run_subscriber\<close>
  returns 0: it never takes one of its failure exits, and neither of its loops runs longer than its
  bound.\<close>

theorem subscriber_accepts:
  assumes "1 \<le> num_topics opts" and "num_topics opts \<le> MAX_TOPICS" and "0 \<le> num_iterations opts"
    and "nat (num_iterations opts) < fuel" and "K < dfuel" and "cache_true key (g_ih_cache s)" and "streak tr = 0"
  shows "wpt (peer K key) (\<lambda>x s' tr'. x = Val 0) (run_subscriber fuel dfuel dp base_topic opts) s tr"
proof -
  have count: "(num_topics opts + 2 ^ 32 - 1) mod 2 ^ 32 = num_topics opts - 1"
    using assms(1,2) by (auto simp: MAX_TOPICS_def mod_nat_eqI le_mod_geq)
  have last: "wpt (peer K key) (\<lambda>x s' tr'. x = Val 0)
      (subscribe_samples fuel dfuel \<lparr>b_opts = opts, b_sub = p, b_et = et, b_readers = rs\<rparr>) s tr'" if "streak tr' = 0" for p et rs tr'
    unfolding subscribe_samples_def
    by (rule wpt_bindI [OF read_loop_goes_on [where K = K and key = key]])
      (use assms that in \<open>auto simp: reading_def exits_def finish_def split: option.splits intro!: wpt_free_all_return\<close>)
  show ?thesis
    unfolding run_subscriber_def create_extra_topics_def count
    apply (rule wpt_bindI [OF create_extra_goes_on])
    using assms(1,2) apply simp
    apply (auto simp del: wpt_bind intro!: wpt_bindI [OF create_cft_goes_on] wpt_bindI [OF create_readers_goes_on] last)
    using assms(2,7) apply auto
    done
qed

section \<open>The two sides together\<close>

lemma shape_ok_bounds: "shape_ok opts sh \<Longrightarrow> out_of_bounds sh \<longleftrightarrow> shapesize opts < 0"
  by (auto simp: shape_ok_def out_of_bounds_def size_ok_def split: if_splits)

lemma writes_ok_all: "writes_ok opts tr \<Longrightarrow> (Write w sh, a) \<in> set tr \<Longrightarrow> shape_ok opts sh"
  by (induction opts tr rule: writes_ok.induct) auto

text \<open>C40. The two sides agree about bounds, except for negative sizes: whatever happens during a publisher's
  run, a sample it writes fails the subscriber's bounds check exactly when the size given with \<open>-z\<close>
  is negative.\<close>

theorem published_within_bounds:
  "wpt any_answer (\<lambda>x s' tr'. \<forall>w sh a. (Write w sh, a) \<in> set tr' \<longrightarrow> (out_of_bounds sh \<longleftrightarrow> shapesize opts < 0))
     (run_publisher fuel dp base_topic opts) s []"
  by (rule wpt_mono [OF run_publisher_end])
    (auto simp: publisher_end_def dest!: writes_ok_all simp: shape_ok_bounds)

section \<open>main\<close>

text \<open>Factories created and not destroyed.\<close>

fun factories :: "strace \<Rightarrow> int" where
  "factories [] = 0"
| "factories ((c, a) # tr) = (case c of Factory_is_nil _ \<Rightarrow> of_bool (num a = 0) | Destroy_factory _ \<Rightarrow> - 1 | _ \<Rightarrow> 0) + factories tr"

fun not_factory :: "shape_call \<Rightarrow> bool" where
  "not_factory (Factory_is_nil _) = False"
| "not_factory (Destroy_factory _) = False"
| "not_factory _ = True"

lemma free_all_calls [simp]: "calls_only not_factory (free_all xs p) = calls_only not_factory p"
  by (induction xs) auto

lemma calls_and_then [intro]: "calls_only P p \<Longrightarrow> calls_only P q \<Longrightarrow> calls_only P (and_then p q)"
  by (rule calls_only_bind) (auto split: option.splits)

lemma publisher_calls: "calls_only not_factory (run_publisher fuel dp base_topic opts)"
proof -
  have extra: "calls_only not_factory (create_extra_loop dp opts k et)" for k et
    by (induction k arbitrary: et) (auto simp: Let_def)
  have writers: "calls_only not_factory (create_writers base pub opts et qos k ws)" for base pub et qos k ws
    by (induction k arbitrary: ws) (auto simp: Let_def)
  have cleanup: "calls_only not_factory (pub_cleanup c p) = calls_only not_factory p" for c and p :: "'b shapes"
    by (simp add: pub_cleanup_def)
  have sample: "calls_only not_factory (write_sample c ti col)" for c ti col
    by (auto simp: write_sample_def cleanup)
  have grow: "calls_only not_factory (grow opts)" for opts
    by (auto simp: grow_def set_cur_def Let_def)
  have passes: "calls_only not_factory (coherent_pass c)" "calls_only not_factory (plain_pass c)" for c
    by (auto simp: coherent_pass_def plain_pass_def Let_def random_position_def set_instance_color_def set_cur_def
        simp del: for_prog.simps One_nat_def intro!: sample grow calls_and_then calls_only_for)
  have loop: "calls_only not_factory (write_loop fuel c it b)" for fuel c it b
    by (induction fuel arbitrary: it b)
      (auto simp: check_matched_def cleanup intro!: passes calls_and_then calls_only_bind split: sum.splits option.splits)
  have final: "calls_only not_factory (final_changes c)" "calls_only not_factory (wait_acknowledged c)" for c
    by (auto simp: final_changes_def wait_acknowledged_def Let_def cleanup intro!: calls_only_for)
  show ?thesis
    by (auto simp: run_publisher_def create_extra_topics_def publish_samples_def set_cur_def with_payload_def finish_def cleanup
        intro!: extra writers loop final calls_only_bind split: option.splits)
qed


lemma subscriber_calls: "calls_only not_factory (run_subscriber fuel dfuel dp base_topic opts)"
proof -
  have extra: "calls_only not_factory (create_extra_loop dp opts k et)" for k et
    by (induction k arbitrary: et) (auto simp: Let_def)
  have readers: "calls_only not_factory (create_readers dp sub cft opts et qos k rs)" for sub cft et qos k rs
    by (induction k arbitrary: rs) (auto simp: Let_def)
  have each: "calls_only not_factory (read_each tn smps)" for tn smps
    by (induction smps) (auto simp: report_not_alive_def report_sample_def)
  have drain: "calls_only not_factory (drain fuel opts et reader tn)" for fuel opts et reader tn
    by (induction fuel) (auto simp: report_not_alive_def report_sample_def Let_def)
  have pass: "calls_only not_factory (read_pass dfuel c)" for c
    by (auto simp: read_pass_def read_samples_def Let_def intro!: each drain)
  have loop: "calls_only not_factory (read_loop fuel dfuel c it)" for fuel c it
    by (induction fuel arbitrary: it)
      (auto simp: open_access_def close_access_def Let_def intro!: pass calls_and_then)
  show ?thesis
    by (auto simp: run_subscriber_def create_extra_topics_def create_cft_def subscribe_samples_def finish_def
        intro!: extra readers loop calls_only_bind split: option.splits)
qed

lemma role_keeps_factories: "wpt G (\<lambda>x s' tr'. factories tr' = factories tr) (run_role fuel dfuel dp topic opts) s tr"
  unfolding run_role_def
proof (rule calls_only_keeps [where P = not_factory])
  show "factories ((c, a) # tr) = factories tr" if "not_factory c" for c a tr
    using that by (cases c) simp_all
qed (simp add: publisher_calls subscriber_calls)

definition factory_end :: "strace \<Rightarrow> int outcome \<Rightarrow> shape_state \<Rightarrow> strace \<Rightarrow> bool" where
  "factory_end tr x s tr' \<longleftrightarrow> (\<forall>v. x = Val v \<longrightarrow> factories tr' = factories tr)"

lemma with_factory_end: "wpt G (factory_end tr) (with_factory fuel dfuel opts) s tr"
proof -
  have role: "wpt G (factory_end tr) (bind_prog (run_role fuel dfuel dp t opts) (\<lambda>code. Do (Destroy_factory f) (Return code))) s tr'"
    if "factories tr' = factories tr + 1" for dp t f s tr'
    by (rule wpt_bindI [OF role_keeps_factories]) (auto simp: that factory_end_def)
  have dp: "wpt G (\<lambda>x s' tr'. case x of Val None \<Rightarrow> factories tr' = factories tr
      | Val (Some _) \<Rightarrow> factories tr' = factories tr + 1 | _ \<Rightarrow> True) (create_dp f opts) s tr'"
    if "factories tr' = factories tr + 1" for f s tr'
    using that by (auto simp: create_dp_def)
  show ?thesis
    unfolding with_factory_def
    by (intro wpt_CallI wpt_ifI wpt_bindI [OF dp] wpt_case_optionI wpt_DoI role)
      (auto simp: factory_end_def)
qed


text \<open>Nothing was taken, written or shown before the role runs.\<close>

definition fresh :: "options \<Rightarrow> strace \<Rightarrow> bool" where
  "fresh opts tr \<longleftrightarrow> writes_ok opts tr \<and> depth tr = 0 \<and> owed tr = Some {#} \<and> accesses tr = 0 \<and> shown_ok opts tr \<and> (\<forall>r. held r tr = 0)"

lemma role_frees:
  assumes "fresh opts tr"
  shows "wpt qsort_ok (\<lambda>x s' tr'. \<forall>v. x = Val v \<longrightarrow> (\<forall>r. held r tr' = 0)) (run_role fuel dfuel dp topic opts) s tr"
  unfolding run_role_def
  by (intro wpt_ifI wpt_mono [OF run_publisher_end] wpt_mono [OF run_subscriber_end])
    (use assms in \<open>auto simp: fresh_def publisher_end_def subscriber_end_def\<close>)

definition main_end :: "int outcome \<Rightarrow> shape_state \<Rightarrow> strace \<Rightarrow> bool" where
  "main_end x s tr \<longleftrightarrow> (\<forall>v. x = Val v \<longrightarrow> factories tr = 0 \<and> (\<forall>r. held r tr = 0))"

lemma with_factory_frees:
  assumes "fresh opts tr"
  shows "wpt qsort_ok (\<lambda>x s' tr'. \<forall>v. x = Val v \<longrightarrow> (\<forall>r. held r tr' = 0)) (with_factory fuel dfuel opts) s tr"
proof -
  have dp: "wpt G (\<lambda>x s' tr'. fresh opts tr') (create_dp f opts) s tr'" if "fresh opts tr'" for G f s tr'
    using that by (auto simp: create_dp_def fresh_def)
  have role: "wpt qsort_ok (\<lambda>x s' tr'. \<forall>v. x = Val v \<longrightarrow> (\<forall>r. held r tr' = 0))
      (bind_prog (run_role fuel dfuel d t opts) (\<lambda>code. Do (Destroy_factory f) (Return code))) s tr'" if "fresh opts tr'" for d t f s tr'
    by (rule wpt_bindI [OF role_frees [OF that]]) auto
  show ?thesis
    unfolding with_factory_def
    by (intro wpt_CallI wpt_ifI wpt_bindI [OF dp] wpt_case_optionI wpt_DoI role)
      (use assms in \<open>auto simp: fresh_def\<close>)
qed

text \<open>On every command line and whatever the middleware answers, when \<open>main\<close> returns (with any exit code)
  the factory it created has been destroyed exactly once and every allocation has been freed.\<close>

theorem main_contract:
  "wpt qsort_ok main_end (shape_main fuel dfuel args) s []"
proof -
  have start: "fresh opts []" "fresh opts ((Configure_from_file p, a) # [])" for opts p a
    by (simp_all add: fresh_def)
  have run: "wpt qsort_ok main_end (with_factory fuel dfuel opts) s tr" if "fresh opts tr" and "factories tr = 0" for opts tr
    using wpt_conj [OF with_factory_frees [OF that(1)] with_factory_end [of qsort_ok tr fuel dfuel opts s]]
    by (rule wpt_mono) (auto simp: main_end_def factory_end_def that(2))
  show ?thesis
    unfolding shape_main_def
    by (cases "parse_args args default_options")
      (auto simp: main_end_def [of "Val 1"] main_end_def [of "Exit 0"] start run split: option.splits)
qed

text \<open>C29. Whatever the middleware delivers, on every path on which the subscriber returns it has freed every sample
  that a take or a read filled in exactly once, with the contents it was filled in with, and no sample that was not
  filled in and still owed, and every topic name exactly once; it shows in the taking modes only samples within
  the field and of size at least 1, and returns 0 only with every access bracket closed. The one thing asked of
  the environment is that \<open>qsort\<close> sorts the buffer it is given.\<close>

theorem subscriber_contract:
  assumes "owed tr = Some {#}" and "accesses tr = 0" and "shown_ok opts tr"
  shows "wpt qsort_ok (subscriber_end opts (\<lambda>r. held r tr)) (run_subscriber fuel dfuel dp base_topic opts) s tr"
  using assms by (rule run_subscriber_end)

text \<open>A middleware with two samples of one instance to take before each pause.\<close>

definition sub_up :: "(shape_call, shape_ans) env" where
  "sub_up tr c = (dds_up tr c)\<lparr>
     rc := (if (\<exists>r. c = Take r \<or> c = Take_next_instance r) \<and> 2 \<le> streak tr then DDS_RETCODE_NO_DATA else 0),
     samples := (case c of Qsort xs \<Rightarrow> sort_key (\<lambda>x. instance_handle (snd x)) xs
       | _ \<Rightarrow> [(\<lparr>s_color = ''RED'', s_x = 10, s_y = 20, s_size = 30, s_payload = []\<rparr>,
           \<lparr>valid_data = True, instance_state = 1, instance_handle = 5\<rparr>)])\<rparr>"

lemma sub_up_peer: "peer 2 (\<lambda>_. ''RED'') tr c (sub_up tr c)"
  by (cases c) (auto simp: sub_up_def dds_up_def fine_sample_def out_of_bounds_def)

lemma sub_up_qsort: "qsort_ok tr c (sub_up tr c)"
proof (cases c)
  case (Qsort xs)
  have "sorted (map (\<lambda>x. instance_handle (snd x)) (sort_key (\<lambda>x. instance_handle (snd x)) xs))" by simp
  then have "sorted_wrt (\<lambda>x y. sample_cmp_by_handle x y \<le> 0) (sort_key (\<lambda>x. instance_handle (snd x)) xs)"
    unfolding sorted_wrt_map by (rule sorted_wrt_mono_rel [rotated]) (simp add: sample_cmp_by_handle_def)
  with Qsort show ?thesis by (simp add: sub_up_def)
qed simp_all

definition sub_options :: options where
  "sub_options = default_options\<lparr>subscribe := True, num_iterations := 2\<rparr>"

theorem subscriber_accepts_witness:
  "fst (run sub_up (run_subscriber 3 3 1 2 sub_options) shape_start []) = Val 0"
proof -
  have "cache_true (\<lambda>_. ''RED'') (g_ih_cache shape_start)"
    using empty_ih_cache ih.get_missing [OF empty_ih_cache(1)] by (simp add: cache_true_def shape_start_def)
  then have "wpt (peer 2 (\<lambda>_. ''RED'')) (\<lambda>x s' tr'. x = Val 0) (run_subscriber 3 3 1 2 sub_options) shape_start []"
    by (intro subscriber_accepts) (simp_all add: sub_options_def default_options_def MAX_TOPICS_def)
  from wpt_run_result [where e = sub_up, OF this] sub_up_peer show ?thesis by blast
qed

theorem subscriber_contract_witness:
  "shown_ok sub_options (snd (snd (run sub_up (run_subscriber 3 3 1 2 sub_options) shape_start [])))"
proof -
  have "wpt qsort_ok (subscriber_end sub_options (\<lambda>r. held r [])) (run_subscriber 3 3 1 2 sub_options) shape_start []"
    by (rule subscriber_contract) simp_all
  from wpt_run_result [OF this sub_up_qsort] show ?thesis by (simp add: subscriber_end_def)
qed

definition tiny_options :: options where
  "tiny_options = default_options\<lparr>publish := True, num_iterations := 1, shapesize := - 4\<rparr>"

theorem published_within_bounds_witness:
  "(Write 7 \<lparr>s_color = ''BLUE'', s_x = 137, s_y = 57, s_size = - 4, s_payload = []\<rparr>, dds_up [] (Write 7 zero_shape))
     \<in> set (snd (snd (run dds_up (run_publisher 2 1 2 tiny_options) shape_start []))) \<and>
   out_of_bounds \<lparr>s_color = ''BLUE'', s_x = 137, s_y = 57, s_size = - 4, s_payload = []\<rparr>"
proof -
  have mem: "(Write 7 \<lparr>s_color = ''BLUE'', s_x = 137, s_y = 57, s_size = - 4, s_payload = []\<rparr>, dds_up [] (Write 7 zero_shape))
     \<in> set (snd (snd (run dds_up (run_publisher 2 1 2 tiny_options) shape_start [])))"
    by (simp add: run_publisher_def create_extra_topics_def tiny_options_def default_options_def dds_up_def shape_start_def
        MAX_TOPICS_def set_cur_def with_payload_def publish_samples_def numeral_2_eq_2 check_matched_def
        use_coherent_gating_def plain_pass_def random_position_def set_instance_color_def write_sample_def grow_def
        prepare_shape_def zero_shape_def base_color_def instance_color_def strncpy_field_def finish_def
        final_changes_def wait_acknowledged_def pub_cleanup_def Let_def run_bind_prog)
  from wpt_run_result [OF published_within_bounds TrueI, of dds_up 2 1 2 tiny_options shape_start] mem
  have "out_of_bounds \<lparr>s_color = ''BLUE'', s_x = 137, s_y = 57, s_size = - 4, s_payload = []\<rparr> \<longleftrightarrow> shapesize tiny_options < 0"
    by blast
  with mem show ?thesis by (simp add: tiny_options_def)
qed

end
