(* ===== verification/Example_Kit.thy ===== *)
theory Example_Kit
  imports Dds Cstring
begin

text \<open>
  What the example programs and the integration tests have in common. Each is a \<open>main\<close> that creates
  entities, polls flags with a time limit, and leaves with 0 or with 1 after a line that starts with
  \<open>FAIL:\<close>. Its listeners run on a thread of the middleware while \<open>main\<close> is running: the model
  delivers, with the answer to every call \<open>main\<close> makes (an atomic load included), the callbacks that
  ran since the call before. The callbacks are the program's own functions on its shared variables; an
  \<open>exit\<close> in one of them ends the process.
\<close>

section \<open>Calls and answers\<close>

text \<open>The fields of a QoS structure the programs set, each \<open>True\<close> when it was set, and a liveliness kind with its lease
  duration in seconds; \<open>base\<close> stands for the values the \<open>get_default\<close> call filled in.\<close>

record ep_qos =
  reliable :: bool
  keep_all :: bool
  transient_local :: bool
  liveliness :: "(int \<times> nat) option"
  base :: int

text \<open>Entities: creation, deletion, default QoS, listeners. A writer with a listener of its own is created by
  \<open>zzdds_Publisher_create_datawriter_ex\<close> or, as \<open>create_datawriter_listening\<close>, by \<open>create_datawriter\<close>.\<close>

datatype entity_call =
    zzdds_create_factory
  | zzdds_factory_is_nil int
  | zzdds_destroy_factory int
  | create_participant int nat
  | delete_participant int int
  | delete_contained_entities int
  | type_support_register int string
  | create_topic int string string
  | create_publisher int
  | create_subscriber int
  | get_default_datawriter_qos int
  | get_default_datareader_qos int
  | create_datawriter int int ep_qos
  | create_datawriter_ex int int ep_qos
  | create_datawriter_listening int int ep_qos
  | delete_datawriter int int
  | create_datareader int int ep_qos bool
  | delete_datareader int int
  | set_listener int

text \<open>Samples and instances of a typed writer or reader.\<close>

datatype 'v data_call =
    register_instance int 'v
  | write_data int 'v int
  | write_w_timestamp int 'v int "int \<times> nat"
  | dispose int 'v int
  | dispose_w_timestamp int 'v int "int \<times> nat"
  | unregister int 'v int
  | get_key_value int int
  | take_one int
  | take_n int nat
  | take_w_condition int int nat

text \<open>Content-filtered topics, match status, ignored entities.\<close>

datatype query_call =
    create_contentfilteredtopic int string int string "string list"
  | get_filter_expression int
  | get_expression_parameters int
  | set_expression_parameters int "string list"
  | get_related_topic int
  | get_name int
  | get_subscription_matched_status int
  | get_publication_matched_status int
  | get_matched_publications int
  | get_matched_subscriptions int
  | get_instance_handle int
  | get_discovered_participants int
  | ignore_topic int int
  | ignore_participant int int
  | ignore_publication int int
  | ignore_subscription int int
  | wait_for_historical_data int nat
  | get_liveliness_lost_status int

text \<open>Wait sets and conditions.\<close>

datatype wait_call =
    zzdds_create_waitset
  | zzdds_waitset_is_nil int
  | zzdds_destroy_waitset int
  | zzdds_create_guardcondition
  | zzdds_guardcondition_is_nil int
  | zzdds_destroy_guardcondition int
  | get_statuscondition int
  | set_enabled_statuses int
  | create_readcondition int
  | create_querycondition int string "string list"
  | delete_readcondition int int
  | attach_condition int int
  | detach_condition int int
  | get_conditions int
  | waitset_wait int nat

text \<open>
  Group presentation: a publisher or subscriber created with \<open>access_scope = GROUP\<close>, \<open>coherent_access\<close> and
  \<open>ordered_access\<close>, and the brackets around coherent sets and around accesses to them.
\<close>

datatype group_call =
    get_default_publisher_qos int
  | get_default_subscriber_qos int
  | create_group_publisher int int
  | create_group_subscriber int int
  | begin_coherent_changes int
  | end_coherent_changes int
  | begin_access int
  | end_access int

datatype 'v app_call =
    Entity entity_call
  | Group group_call
  | Data "'v data_call"
  | Query query_call
  | Wait wait_call
  | sequence_free
  | thread_create
  | thread_join
  | clock_realtime
  | atomic_access
  | sleep_ms nat
  | printf string
  | eprintf string

text \<open>
  An answer: the returned value (a handle, with 0 for null, or a return code), an integer result
  behind a pointer, strings and handles, samples with their \<open>valid_data\<close>, and the callbacks that ran.
\<close>

record ('v, 'e) answer =
  ret :: int
  num :: int
  strs :: "string list"
  hs :: "int list"
  got :: "('v \<times> bool) list"
  evs :: "'e list"

type_synonym ('v, 'e) atrace = "('v app_call, ('v, 'e) answer) trace"
type_synonym ('s, 'v, 'e, 'a) app = "('s, 'v app_call, ('v, 'e) answer, 'a) prog"
type_synonym ('e, 's) handler = "'e \<Rightarrow> 's \<Rightarrow> 's outcome"

section \<open>Callbacks\<close>

primrec deliver :: "('e, 's) handler \<Rightarrow> 'e list \<Rightarrow> 's \<Rightarrow> 's outcome" where
  "deliver h [] s = Val s"
| "deliver h (e # es) s =
     (case h e s of Val s' \<Rightarrow> deliver h es s' | Exit n \<Rightarrow> Exit n | Crash m \<Rightarrow> Crash m | OutOfFuel \<Rightarrow> OutOfFuel)"

lemma deliver_append:
  "deliver h (es @ es') s =
     (case deliver h es s of Val s' \<Rightarrow> deliver h es' s' | Exit n \<Rightarrow> Exit n | Crash m \<Rightarrow> Crash m
      | OutOfFuel \<Rightarrow> OutOfFuel)"
  by (induction es arbitrary: s) (auto split: outcome.splits)

text \<open>A call of \<open>main\<close>: the callbacks that ran come first, then \<open>main\<close> goes on with the answer.\<close>

definition sys ::
  "('e, 's) handler \<Rightarrow> 'v app_call \<Rightarrow> (('v, 'e) answer \<Rightarrow> ('s, 'v, 'e, 'a) app) \<Rightarrow> ('s, 'v, 'e, 'a) app" where
  "sys h c k = Call c (\<lambda>r. Get (\<lambda>s. case deliver h (evs r) s of
      Val s' \<Rightarrow> Put s' (k r) | Exit n \<Rightarrow> Leaf (Exit n) | Crash m \<Rightarrow> Leaf (Crash m) | OutOfFuel \<Rightarrow> Leaf OutOfFuel))"

text \<open>The callbacks that have run, oldest first.\<close>

definition events :: "('v, 'e) atrace \<Rightarrow> 'e list" where
  "events tr = concat (map (\<lambda>x. evs (snd x)) (rev tr))"

lemma events_simps [simp]:
  "events [] = []"
  "events ((c, r) # tr) = events tr @ evs r"
  "events (q @ tr) = events tr @ events q"
  by (simp_all add: events_def)

section \<open>Building blocks of \<open>main\<close>\<close>

abbreviation say :: "('e, 's) handler \<Rightarrow> string \<Rightarrow> ('s, 'v, 'e, 'a) app \<Rightarrow> ('s, 'v, 'e, 'a) app" where
  "say h line p \<equiv> sys h (printf line) (\<lambda>_. p)"

text \<open>\<open>fprintf(stderr, "FAIL: ...")\<close> and \<open>return 1\<close>.\<close>

definition FAIL :: "string \<Rightarrow> string" where
  "FAIL line = ''FAIL: '' @ line"

definition fail :: "('e, 's) handler \<Rightarrow> string \<Rightarrow> ('s, 'v, 'e, int) app" where
  "fail h line = sys h (eprintf (FAIL line)) (\<lambda>_. Return 1)"

text \<open>\<open>x = call; if (!x) fail\<close>, and \<open>if (call != DDS_RETCODE_OK) fail\<close>.\<close>

definition need ::
  "('e, 's) handler \<Rightarrow> 'v app_call \<Rightarrow> string \<Rightarrow> (int \<Rightarrow> ('s, 'v, 'e, int) app) \<Rightarrow> ('s, 'v, 'e, int) app" where
  "need h c line k = sys h c (\<lambda>r. if ret r = 0 then fail h line else k (ret r))"

definition check ::
  "('e, 's) handler \<Rightarrow> 'v app_call \<Rightarrow> string \<Rightarrow> ('s, 'v, 'e, int) app \<Rightarrow> ('s, 'v, 'e, int) app" where
  "check h c line p = sys h c (\<lambda>r. if ret r \<noteq> DDS_RETCODE_OK then fail h line else p)"

text \<open>An atomic load of a shared variable.\<close>

definition load :: "('e, 's) handler \<Rightarrow> ('s \<Rightarrow> 'x) \<Rightarrow> ('x \<Rightarrow> ('s, 'v, 'e, 'a) app) \<Rightarrow> ('s, 'v, 'e, 'a) app" where
  "load h f k = sys h atomic_access (\<lambda>_. Get (\<lambda>s. k (f s)))"

definition store :: "('e, 's) handler \<Rightarrow> ('s \<Rightarrow> 's) \<Rightarrow> ('s, 'v, 'e, 'a) app \<Rightarrow> ('s, 'v, 'e, 'a) app" where
  "store h f p = sys h atomic_access (\<lambda>_. Get (\<lambda>s. Put (f s) p))"

text \<open>
  \<open>for (waited_ms = 0; !cond; waited_ms += period) { if (waited_ms >= timeout) fail; sleep_ms(period); }\<close>:
  the condition is looked at once before every one of the \<open>n\<close> sleeps and once after the last, where
  \<open>n\<close> is \<open>timeout / period\<close>, rounded up. The answer is whether the condition was seen.
\<close>

primrec poll_loop ::
  "('e, 's) handler \<Rightarrow> nat \<Rightarrow> ('s, 'v, 'e, bool) app \<Rightarrow> nat \<Rightarrow> ('s, 'v, 'e, bool) app" where
  "poll_loop h period cond 0 = cond"
| "poll_loop h period cond (Suc n) =
     bind_prog cond (\<lambda>b. if b then Return True
       else sys h (sleep_ms period) (\<lambda>_. poll_loop h period cond n))"

definition poll ::
  "('e, 's) handler \<Rightarrow> nat \<Rightarrow> nat \<Rightarrow> ('s, 'v, 'e, bool) app \<Rightarrow> ('s, 'v, 'e, bool) app" where
  "poll h period timeout cond = poll_loop h period cond ((timeout + period - 1) div period)"

section \<open>The command line\<close>

text \<open>\<open>parse_domain\<close>: the argument after the first \<open>-d\<close> or \<open>--domain\<close> that has one.\<close>

fun scan_domain :: "string list \<Rightarrow> nat" where
  "scan_domain (a # b # rest) =
     (if a = ''-d'' \<or> a = ''--domain'' then to_uint32 (strtoul b) else scan_domain (b # rest))"
| "scan_domain rest = 0"

definition parse_domain :: "string list \<Rightarrow> nat" where
  "parse_domain argv = scan_domain (tl argv)"

text \<open>
  The first lines of every \<open>main\<close>: the factory, the participant on the domain of the command line, and
  the registration of the topic type. The rest of \<open>main\<close> gets the factory and the participant.
\<close>

definition open_participant ::
  "('e, 's) handler \<Rightarrow> string list \<Rightarrow> string \<Rightarrow> string \<Rightarrow> (int \<Rightarrow> int \<Rightarrow> ('s, 'v, 'e, int) app)
     \<Rightarrow> ('s, 'v, 'e, int) app" where
  "open_participant h argv type_name register_failed k =
     (let domain_id = parse_domain argv in
      sys h (Entity zzdds_create_factory) (\<lambda>f.
      sys h (Entity (zzdds_factory_is_nil (ret f))) (\<lambda>nil.
        if ret nil \<noteq> 0 then fail h ''createFactory() failed''
        else need h (Entity (create_participant (ret f) domain_id))
               (''create_participant() failed on domain '' @ dec domain_id) (\<lambda>dp.
             check h (Entity (type_support_register dp type_name)) register_failed
               (k (ret f) dp)))))"

definition reliable_keep_all :: "int \<Rightarrow> ep_qos" where
  "reliable_keep_all dflt = \<lparr>reliable = True, keep_all = True, transient_local = False, liveliness = None, base = dflt\<rparr>"

text \<open>Decimal output \<open>%d\<close>.\<close>

definition dec_int :: "int \<Rightarrow> string" where
  "dec_int x = (if x < 0 then CHR ''-'' # dec (nat (- x)) else dec (nat x))"

text \<open>Inside a loop body, which leaves \<open>main\<close> with \<open>Some\<close> exit code.\<close>

definition fail_out :: "('e, 's) handler \<Rightarrow> string \<Rightarrow> ('s, 'v, 'e, int option) app" where
  "fail_out h line = sys h (eprintf (FAIL line)) (\<lambda>_. Return (Some 1))"

abbreviation leave_or :: "int option \<Rightarrow> ('s, 'v, 'e, int) app \<Rightarrow> ('s, 'v, 'e, int) app" where
  "leave_or x p \<equiv> (case x of Some code \<Rightarrow> Return code | None \<Rightarrow> p)"

section \<open>Measures of a run\<close>

fun slept_by :: "'v app_call \<Rightarrow> nat" where
  "slept_by (sleep_ms n) = n"
| "slept_by _ = 0"

definition slept :: "('v, 'e) atrace \<Rightarrow> nat" where
  "slept tr = sum_list (map (slept_by \<circ> fst) tr)"

lemma slept_simps [simp]:
  "slept [] = 0"
  "slept ((c, r) # tr) = slept_by c + slept tr"
  "slept (q @ tr) = slept q + slept tr"
  by (simp_all add: slept_def)

text \<open>What a trace holds of one kind of call, oldest first.\<close>

definition only :: "('v app_call \<Rightarrow> 'b option) \<Rightarrow> ('v, 'e) atrace \<Rightarrow> 'b list" where
  "only f tr = List.map_filter (f \<circ> fst) (rev tr)"

lemma only_simps [simp]:
  "only f [] = []"
  "only f ((c, r) # tr) = only f tr @ (case f c of Some y \<Rightarrow> [y] | None \<Rightarrow> [])"
  "only f (q @ tr) = only f tr @ only f q"
  by (simp_all add: only_def List.map_filter_def split: option.splits)

text \<open>What was created, oldest first: each creating call with the handle it was answered with.\<close>

fun creates :: "'v app_call \<Rightarrow> bool" where
  "creates (Entity zzdds_create_factory) = True"
| "creates (Entity (create_participant f d)) = True"
| "creates (Entity (create_topic dp name type)) = True"
| "creates (Entity (create_publisher dp)) = True"
| "creates (Entity (create_subscriber dp)) = True"
| "creates (Entity (create_datawriter p t q)) = True"
| "creates (Entity (create_datawriter_ex p t q)) = True"
| "creates (Entity (create_datawriter_listening p t q)) = True"
| "creates (Entity (create_datareader s t q l)) = True"
| "creates (Group (create_group_publisher dp q)) = True"
| "creates (Group (create_group_subscriber dp q)) = True"
| "creates (Query (create_contentfilteredtopic dp name t e ps)) = True"
| "creates (Wait zzdds_create_waitset) = True"
| "creates (Wait (create_readcondition dr)) = True"
| "creates _ = False"

definition creations :: "('v, 'e) atrace \<Rightarrow> ('v app_call \<times> int) list" where
  "creations tr = map (\<lambda>x. (fst x, ret (snd x))) (filter (creates \<circ> fst) (rev tr))"

lemma creations_simps [simp]:
  "creations [] = []"
  "creations ((c, r) # tr) = creations tr @ (if creates c then [(c, ret r)] else [])"
  "creations (q @ tr) = creations tr @ creations q"
  by (simp_all add: creations_def)

fun printed :: "'v app_call \<Rightarrow> string option" where
  "printed (printf line) = Some line"
| "printed _ = None"

fun written :: "'v app_call \<Rightarrow> (int \<times> 'v) option" where
  "written (Data (write_data w v h)) = Some (w, v)"
| "written (Data (write_w_timestamp w v h t)) = Some (w, v)"
| "written _ = None"

fun data_op :: "'v app_call \<Rightarrow> 'v data_call option" where
  "data_op (Data d) = Some d"
| "data_op _ = None"

fun destroyed :: "'v app_call \<Rightarrow> int option" where
  "destroyed (Entity (zzdds_destroy_factory f)) = Some f"
| "destroyed _ = None"

text \<open>Waits on a wait set, and those that ended with a given return code.\<close>

fun is_wait :: "'v app_call \<Rightarrow> bool" where
  "is_wait (Wait (waitset_wait ws t)) = True"
| "is_wait _ = False"

definition waits_ended :: "int \<Rightarrow> ('v, 'e) atrace \<Rightarrow> nat" where
  "waits_ended rc tr = length (filter (\<lambda>x. is_wait (fst x) \<and> ret (snd x) = rc) tr)"

lemma waits_ended_simps [simp]:
  "waits_ended rc [] = 0"
  "waits_ended rc ((c, r) # tr) = (if is_wait c \<and> ret r = rc then Suc (waits_ended rc tr) else waits_ended rc tr)"
  "waits_ended rc (q @ tr) = waits_ended rc q + waits_ended rc tr"
  by (simp_all add: waits_ended_def)

abbreviation timeouts :: "('v, 'e) atrace \<Rightarrow> nat" where
  "timeouts \<equiv> waits_ended DDS_RETCODE_TIMEOUT"

abbreviation wakeups :: "('v, 'e) atrace \<Rightarrow> nat" where
  "wakeups \<equiv> waits_ended DDS_RETCODE_OK"

text \<open>The sample of a single take, with its \<open>valid_data\<close>; the zeroed ones when nothing was filled in.\<close>

definition take_value :: "(int, 'e) answer \<Rightarrow> int" where
  "take_value r = (case got r of (v, _) # _ \<Rightarrow> v | [] \<Rightarrow> 0)"

definition take_valid :: "('v, 'e) answer \<Rightarrow> bool" where
  "take_valid r = (case got r of (_, b) # _ \<Rightarrow> b | [] \<Rightarrow> False)"

text \<open>Batch takes from one reader.\<close>

fun takes_from :: "int \<Rightarrow> 'v app_call \<Rightarrow> bool" where
  "takes_from dr (Data (take_n dr' n)) \<longleftrightarrow> dr' = dr"
| "takes_from dr _ \<longleftrightarrow> False"

text \<open>Whenever a call selected by \<open>f\<close> is made, \<open>P\<close> holds of the trace before it.\<close>

primrec before :: "('v app_call \<Rightarrow> bool) \<Rightarrow> (('v, 'e) atrace \<Rightarrow> bool) \<Rightarrow> ('v, 'e) atrace \<Rightarrow> bool" where
  "before f P [] = True"
| "before f P (x # tr) = ((f (fst x) \<longrightarrow> P tr) \<and> before f P tr)"

lemma before_append:
  assumes "before f P tr" and "\<And>q. P (q @ tr)"
  shows "before f P (q @ tr)"
  using assms by (induction q) auto

lemma before_other:
  assumes "before f P tr" and "\<And>x. x \<in> set q \<Longrightarrow> \<not> f (fst x)"
  shows "before f P (q @ tr)"
  using assms by (induction q) auto

text \<open>The last thing \<open>main\<close> did was to report a failure.\<close>

definition failed :: "('v, 'e) atrace \<Rightarrow> bool" where
  "failed tr \<longleftrightarrow> (\<exists>line r rest. tr = (eprintf (FAIL line), r) # rest)"

lemma failed_Cons [simp]: "failed ((eprintf (FAIL line), r) # rest)"
  by (auto simp: failed_def)

text \<open>The last thing \<open>main\<close> did was to destroy the factory it created, for the first time.\<close>

definition closes :: "('v, 'e) atrace \<Rightarrow> bool" where
  "closes tr \<longleftrightarrow> (\<exists>f r0 rest r. tr = (Entity (zzdds_destroy_factory f), r0) # rest
     \<and> only destroyed rest = [] \<and> (Entity zzdds_create_factory, r) \<in> set rest \<and> ret r = f)"

text \<open>A listener is not called before it is installed.\<close>

definition listening :: "('v app_call \<Rightarrow> bool) \<Rightarrow> ('v, 'e) atrace \<Rightarrow> 'v app_call \<Rightarrow> ('v, 'e) answer \<Rightarrow> bool" where
  "listening installs tr c r \<longleftrightarrow> evs r = [] \<or> installs c \<or> (\<exists>x\<in>set tr. installs (fst x))"

section \<open>The shared variables follow the callbacks\<close>

text \<open>
  At every point of \<open>main\<close> the shared variables are what the callbacks delivered so far make of
  their initial values; a run that ends inside a callback ends the way that callback did.
\<close>

definition synced :: "('e, 's) handler \<Rightarrow> 's \<Rightarrow> 's \<Rightarrow> ('v, 'e) atrace \<Rightarrow> bool" where
  "synced h i s tr \<longleftrightarrow> deliver h (events tr) i = Val s"

fun broken :: "('e, 's) handler \<Rightarrow> 's \<Rightarrow> 'a outcome \<Rightarrow> ('v, 'e) atrace \<Rightarrow> bool" where
  "broken h i (Val a) tr = False"
| "broken h i (Exit n) tr = (deliver h (events tr) i = Exit n)"
| "broken h i (Crash m) tr = (deliver h (events tr) i = Crash m)"
| "broken h i OutOfFuel tr = (deliver h (events tr) i = OutOfFuel)"

definition lets_break :: "('e, 's) handler \<Rightarrow> 's \<Rightarrow> ('a outcome \<Rightarrow> 's \<Rightarrow> ('v, 'e) atrace \<Rightarrow> bool) \<Rightarrow> bool" where
  "lets_break h i Q \<longleftrightarrow> (\<forall>x s tr. broken h i x tr \<longrightarrow> Q x s tr)"

text \<open>
  What every \<open>main\<close> owes: it slept no longer than its time limits allow, it ends with 1 right after
  a line that starts with \<open>FAIL:\<close> or with 0 after what \<open>P\<close> says, or inside a callback.
\<close>

definition verdict ::
  "('e, 's) handler \<Rightarrow> 's \<Rightarrow> nat \<Rightarrow> ('s \<Rightarrow> ('v, 'e) atrace \<Rightarrow> bool)
     \<Rightarrow> int outcome \<Rightarrow> 's \<Rightarrow> ('v, 'e) atrace \<Rightarrow> bool" where
  "verdict h i B P x s tr \<longleftrightarrow>
     broken h i x tr \<or>
     slept tr \<le> B \<and> (x = Val 1 \<and> failed tr \<or> x = Val 0 \<and> synced h i s tr \<and> P s tr)"

lemma lets_break_verdict [simp]: "lets_break h i (verdict h i B P)"
  by (simp add: lets_break_def verdict_def)

lemma lets_break_after [simp]: "lets_break h i Q \<Longrightarrow> lets_break h i (after G Q f)"
  by (auto simp: lets_break_def after_def split: outcome.splits)

lemma synced_start: "events tr = [] \<Longrightarrow> synced h i i tr"
  by (simp add: synced_def)

section \<open>Rules\<close>

lemma bind_sys [simp]: "bind_prog (sys h c k) f = sys h c (\<lambda>r. bind_prog (k r) f)"
proof -
  have "bind_prog (case x of Val s' \<Rightarrow> Put s' (k r) | Exit n \<Rightarrow> Leaf (Exit n) | Crash m \<Rightarrow> Leaf (Crash m)
      | OutOfFuel \<Rightarrow> Leaf OutOfFuel) f =
      (case x of Val s' \<Rightarrow> Put s' (bind_prog (k r) f) | Exit n \<Rightarrow> Leaf (Exit n) | Crash m \<Rightarrow> Leaf (Crash m)
      | OutOfFuel \<Rightarrow> Leaf OutOfFuel)" for x r
    by (cases x) simp_all
  then show ?thesis by (simp add: sys_def)
qed

lemma wpt_sys:
  assumes "synced h i s tr" and "lets_break h i Q"
    and "\<And>r s'. G tr c r \<Longrightarrow> synced h i s' ((c, r) # tr) \<Longrightarrow> wpt G Q (k r) s' ((c, r) # tr)"
  shows "wpt G Q (sys h c k) s tr"
proof -
  have "wpt G Q (case deliver h (evs r) s of Val s' \<Rightarrow> Put s' (k r) | Exit n \<Rightarrow> Leaf (Exit n)
      | Crash m \<Rightarrow> Leaf (Crash m) | OutOfFuel \<Rightarrow> Leaf OutOfFuel) s ((c, r) # tr)" if "G tr c r" for r
  proof -
    have "deliver h (events ((c, r) # tr)) i = deliver h (evs r) s"
      using assms(1) by (simp add: synced_def deliver_append)
    then show ?thesis
      using assms(2,3) that by (cases "deliver h (evs r) s") (auto simp: synced_def lets_break_def)
  qed
  then show ?thesis by (simp add: sys_def)
qed

lemma wpt_load:
  assumes "synced h i s tr" and "lets_break h i Q"
    and "\<And>r s'. G tr atomic_access r \<Longrightarrow> synced h i s' ((atomic_access, r) # tr)
      \<Longrightarrow> wpt G Q (k (f s')) s' ((atomic_access, r) # tr)"
  shows "wpt G Q (load h f k) s tr"
  unfolding load_def by (rule wpt_sys [OF assms(1,2)]) (use assms(3) in simp)

text \<open>Loads and sleeps only.\<close>

fun idle_call :: "'v app_call \<Rightarrow> bool" where
  "idle_call atomic_access = True"
| "idle_call (sleep_ms n) = True"
| "idle_call _ = False"

definition idle :: "('v, 'e) atrace \<Rightarrow> bool" where
  "idle q \<longleftrightarrow> (\<forall>x\<in>set q. idle_call (fst x))"

lemma idle_simps [simp]:
  "idle []" "idle ((c, r) # q) = (idle_call c \<and> idle q)" "idle (q @ q') = (idle q \<and> idle q')"
  by (auto simp: idle_def)

lemma only_idle [simp]:
  assumes "idle q" and "\<And>c. idle_call c \<Longrightarrow> f c = None"
  shows "only f q = []"
  using assms by (auto simp: idle_def only_def List.map_filter_def filter_empty_conv)

lemma idle_call_select [simp]:
  "idle_call c \<Longrightarrow> data_op c = None" "idle_call c \<Longrightarrow> printed c = None" "idle_call c \<Longrightarrow> written c = None" "idle_call c \<Longrightarrow> destroyed c = None"
  by (cases c; simp)+

lemma creations_idle [simp]: "idle q \<Longrightarrow> creations q = []"
proof -
  have "\<not> creates c" if "idle_call c" for c :: "'v app_call"
    using that by (cases c) simp_all
  then show "idle q \<Longrightarrow> creations q = []"
    by (auto simp: idle_def creations_def filter_empty_conv)
qed

text \<open>
  A condition that only loads: it adds idle calls that do not sleep, and when it answers \<open>True\<close> then
  \<open>P\<close> holds of the variables and of the callbacks delivered at that moment.
\<close>

definition sees :: "('e, 's) handler \<Rightarrow> 's \<Rightarrow> ('s, 'v, 'e, bool) app \<Rightarrow> ('s \<Rightarrow> 'e list \<Rightarrow> bool) \<Rightarrow> bool" where
  "sees h i cond P \<longleftrightarrow> (\<forall>G Q s tr. synced h i s tr \<longrightarrow> lets_break h i Q \<longrightarrow>
     (\<forall>b q s'. idle q \<longrightarrow> slept q = 0 \<longrightarrow> synced h i s' (q @ tr) \<longrightarrow> (b \<longrightarrow> P s' (events (q @ tr))) \<longrightarrow> Q (Val b) s' (q @ tr)) \<longrightarrow>
     wpt G Q cond s tr)"

abbreviation reads :: "('e, 's) handler \<Rightarrow> 's \<Rightarrow> ('s, 'v, 'e, bool) app \<Rightarrow> ('s \<Rightarrow> bool) \<Rightarrow> bool" where
  "reads h i cond P \<equiv> sees h i cond (\<lambda>s es. P s)"

lemma reads_load: "reads h i (load h f Return) f"
  unfolding sees_def
proof (intro allI impI)
  fix G Q s tr
  assume a: "synced h i s tr" "lets_break h i Q"
    and q: "\<forall>b q s'. idle q \<longrightarrow> slept q = 0 \<longrightarrow> synced h i s' (q @ tr) \<longrightarrow> (b \<longrightarrow> f s') \<longrightarrow> Q (Val b) s' (q @ tr)"
  show "wpt G Q (load h f Return) s tr"
    by (rule wpt_load [OF a]) (use q [rule_format, of "[(atomic_access, r)]" for r] in auto)
qed

text \<open>Two loads with \<open>&&\<close> between them: the first value must be one that no callback takes back.\<close>

lemma reads_both:
  assumes stable: "\<And>es s s'. deliver h es s = Val s' \<Longrightarrow> f s \<Longrightarrow> f s'"
  shows "reads h i (load h f (\<lambda>b. if b then load h g Return else Return False)) (\<lambda>s. f s \<and> g s)"
  unfolding sees_def
proof (intro allI impI)
  fix G Q s tr
  assume a: "synced h i s tr" "lets_break h i Q"
    and q: "\<forall>b q s'. idle q \<longrightarrow> slept q = 0 \<longrightarrow> synced h i s' (q @ tr) \<longrightarrow> (b \<longrightarrow> f s' \<and> g s') \<longrightarrow> Q (Val b) s' (q @ tr)"
  have keep: "f s2" if "synced h i s1 tr1" "synced h i s2 ((atomic_access, r) # tr1)" "f s1" for s1 s2 tr1 r
    using that stable by (simp add: synced_def deliver_append)
  show "wpt G Q (load h f (\<lambda>b. if b then load h g Return else Return False)) s tr"
  proof (rule wpt_load [OF a], rule wpt_ifI)
    fix r1 s1
    assume s1: "synced h i s1 ((atomic_access, r1) # tr)" and f: "f s1"
    show "wpt G Q (load h g Return) s1 ((atomic_access, r1) # tr)"
    proof (rule wpt_load [OF s1 a(2)])
      fix r2 s2
      assume s2: "synced h i s2 ((atomic_access, r2) # (atomic_access, r1) # tr)"
      with keep s1 f have "f s2" by blast
      then show "wpt G Q (Return (g s2)) s2 ((atomic_access, r2) # (atomic_access, r1) # tr)"
        using q [rule_format, of "[(atomic_access, r2), (atomic_access, r1)]" s2 "g s2"] s2 by simp
    qed
  next
    fix r1 s1
    assume "synced h i s1 ((atomic_access, r1) # tr)" "\<not> f s1"
    then show "wpt G Q (Return False) s1 ((atomic_access, r1) # tr)"
      using q [rule_format, of "[(atomic_access, r1)]" s1 False] by simp
  qed
qed

lemma wpt_poll_loop:
  assumes "sees h i cond P" and "synced h i s tr" and "lets_break h i Q"
    and "\<And>b q s'. idle q \<Longrightarrow> slept q \<le> n * period \<Longrightarrow> synced h i s' (q @ tr) \<Longrightarrow> (b \<Longrightarrow> P s' (events (q @ tr)))
      \<Longrightarrow> Q (Val b) s' (q @ tr)"
  shows "wpt G Q (poll_loop h period cond n) s tr"
  using assms(2,4)
proof (induction n arbitrary: s tr)
  case 0
  show ?case
    using assms(1) [unfolded sees_def, rule_format, OF 0(1) assms(3)] 0(2) by simp
next
  case (Suc n)
  let ?k = "\<lambda>b. if b then Return True else sys h (sleep_ms period) (\<lambda>_. poll_loop h period cond n)"
  have "wpt G (after G Q ?k) cond s tr"
  proof (rule assms(1) [unfolded sees_def, rule_format, OF Suc.prems(1)])
    show "lets_break h i (after G Q ?k)" using assms(3) by simp
  next
    fix b q s1
    assume q: "idle q" "slept q = 0" "synced h i s1 (q @ tr)" "b \<Longrightarrow> P s1 (events (q @ tr))"
    show "after G Q ?k (Val b) s1 (q @ tr)"
    proof (cases b)
      case True
      then show ?thesis using q Suc.prems(2) [of q s1 True] by simp
    next
      case False
      have "wpt G Q (sys h (sleep_ms period) (\<lambda>_. poll_loop h period cond n)) s1 (q @ tr)"
      proof (rule wpt_sys [OF q(3) assms(3)])
        fix r s2
        assume s2: "synced h i s2 ((sleep_ms period, r) # q @ tr)"
        show "wpt G Q (poll_loop h period cond n) s2 ((sleep_ms period, r) # q @ tr)"
        proof (rule Suc.IH [OF s2])
          fix b' q' s3
          assume "idle q'" "slept q' \<le> n * period" "synced h i s3 (q' @ (sleep_ms period, r) # q @ tr)"
              "b' \<Longrightarrow> P s3 (events (q' @ (sleep_ms period, r) # q @ tr))"
          then show "Q (Val b') s3 (q' @ (sleep_ms period, r) # q @ tr)"
            using Suc.prems(2) [of "q' @ (sleep_ms period, r) # q" s3 b'] q(1,2) by simp
        qed
      qed
      with False show ?thesis by simp
    qed
  qed
  then show ?case by simp
qed

lemma wpt_poll:
  assumes "sees h i cond P" and "synced h i s tr" and "lets_break h i Q"
    and "\<And>b q s'. idle q \<Longrightarrow> slept q \<le> (timeout + period - 1) div period * period \<Longrightarrow> synced h i s' (q @ tr)
      \<Longrightarrow> (b \<Longrightarrow> P s' (events (q @ tr))) \<Longrightarrow> wpt G Q (f b) s' (q @ tr)"
  shows "wpt G Q (bind_prog (poll h period timeout cond) f) s tr"
  unfolding wpt_bind poll_def
  by (rule wpt_poll_loop [OF assms(1,2)]) (use assms(3,4) in auto)

section \<open>Rules for \<open>main\<close> with its listeners installed\<close>

text \<open>The state follows the callbacks and \<open>main\<close> has slept at most \<open>k\<close> milliseconds.\<close>

definition stands :: "('e, 's) handler \<Rightarrow> 's \<Rightarrow> nat \<Rightarrow> 's \<Rightarrow> ('v, 'e) atrace \<Rightarrow> bool" where
  "stands h i k s tr \<longleftrightarrow> synced h i s tr \<and> slept tr \<le> k"

lemma wpt_step_G:
  assumes "stands h i k s tr" and "slept_by c = 0" and "lets_break h i Q"
    and "\<And>r s'. G tr c r \<Longrightarrow> stands h i k s' ((c, r) # tr) \<Longrightarrow> wpt G Q (k' r) s' ((c, r) # tr)"
  shows "wpt G Q (sys h c k') s tr"
  using assms by (intro wpt_sys [of h i]) (auto simp: stands_def)

lemma wpt_step:
  assumes "stands h i k s tr" and "slept_by c = 0" and "lets_break h i Q"
    and "\<And>r s'. stands h i k s' ((c, r) # tr) \<Longrightarrow> wpt G Q (k' r) s' ((c, r) # tr)"
  shows "wpt G Q (sys h c k') s tr"
  using assms by (intro wpt_sys [of h i]) (auto simp: stands_def)

lemma wpt_sleep:
  assumes "stands h i k s tr" and "lets_break h i Q"
    and "\<And>r s'. stands h i (k + n) s' ((sleep_ms n, r) # tr) \<Longrightarrow> wpt G Q (k' r) s' ((sleep_ms n, r) # tr)"
  shows "wpt G Q (sys h (sleep_ms n) k') s tr"
  using assms by (intro wpt_sys [of h i]) (auto simp: stands_def)

text \<open>The rules for leaving with a \<open>FAIL:\<close> line work for every postcondition that admits such an end.\<close>

definition admits_failure :: "('e, 's) handler \<Rightarrow> 's \<Rightarrow> nat \<Rightarrow> (int outcome \<Rightarrow> 's \<Rightarrow> ('v, 'e) atrace \<Rightarrow> bool) \<Rightarrow> bool" where
  "admits_failure h i B Q \<longleftrightarrow> lets_break h i Q
     \<and> (\<forall>s tr line r. slept tr \<le> B \<longrightarrow> Q (Val 1) s ((eprintf (FAIL line), r) # tr))"

lemma admits_failure_verdict [simp]: "admits_failure h i B (verdict h i B P)"
  by (simp add: admits_failure_def verdict_def stands_def)

lemma wpt_fail_to:
  assumes "admits_failure h i B Q" and "stands h i k s tr" and "k \<le> B"
  shows "wpt G Q (fail h line) s tr"
  unfolding fail_def
  by (rule wpt_step [OF assms(2)]) (use assms(1,3) in \<open>simp_all add: admits_failure_def stands_def\<close>)

lemma wpt_need_to:
  assumes "admits_failure h i B Q" and "stands h i k s tr" and "slept_by c = 0 \<and> k \<le> B"
    and "\<And>r s'. stands h i k s' ((c, r) # tr) \<Longrightarrow> ret r \<noteq> 0 \<Longrightarrow> wpt G Q (k' (ret r)) s' ((c, r) # tr)"
  shows "wpt G Q (need h c line k') s tr"
  unfolding need_def
  by (rule wpt_step [OF assms(2)]) (use assms in \<open>auto simp: admits_failure_def [of h i B Q] intro!: wpt_ifI wpt_fail_to [OF assms(1)]\<close>)

lemma wpt_check_to:
  assumes "admits_failure h i B Q" and "stands h i k s tr" and "slept_by c = 0 \<and> k \<le> B"
    and "\<And>r s'. stands h i k s' ((c, r) # tr) \<Longrightarrow> ret r = 0 \<Longrightarrow> wpt G Q p s' ((c, r) # tr)"
  shows "wpt G Q (check h c line p) s tr"
  unfolding check_def
  by (rule wpt_step [OF assms(2)]) (use assms in \<open>auto simp: admits_failure_def [of h i B Q] intro!: wpt_ifI wpt_fail_to [OF assms(1)]\<close>)

lemma wpt_succeed: "stands h i k s tr \<Longrightarrow> k \<le> B \<Longrightarrow> P s tr \<Longrightarrow> wpt G (verdict h i B P) (Return 0) s tr"
  by (simp add: verdict_def stands_def)

lemmas wpt_fail = wpt_fail_to [OF admits_failure_verdict]
lemmas wpt_need = wpt_need_to [OF admits_failure_verdict]
lemmas wpt_check = wpt_check_to [OF admits_failure_verdict]

text \<open>A load.\<close>

lemma wpt_load_stands:
  assumes "stands h i k s tr" and "lets_break h i Q"
    and "\<And>r s'. stands h i k s' ((atomic_access, r) # tr) \<Longrightarrow> wpt G Q (k' (f s')) s' ((atomic_access, r) # tr)"
  shows "wpt G Q (load h f k') s tr"
  unfolding load_def by (rule wpt_step [OF assms(1)]) (use assms(2,3) in simp_all)

lemma wpt_await_sees:
  assumes "sees h i cond P" and "stands h i k s tr" and "lets_break h i Q"
    and "\<And>b q s'. idle q \<Longrightarrow> stands h i (k + (timeout + period - 1) div period * period) s' (q @ tr)
      \<Longrightarrow> (b \<Longrightarrow> P s' (events (q @ tr))) \<Longrightarrow> wpt G Q (f b) s' (q @ tr)"
  shows "wpt G Q (bind_prog (poll h period timeout cond) f) s tr"
  using assms(2-) by (intro wpt_poll [OF assms(1)]) (auto simp: stands_def)

lemmas wpt_await = wpt_await_sees [where P = "\<lambda>s es. P s" for P]

text \<open>Several loads with \<open>&&\<close> between them: each condition held at a moment of its own.\<close>

primrec load_all :: "('e, 's) handler \<Rightarrow> ('s \<Rightarrow> bool) list \<Rightarrow> ('s, 'v, 'e, bool) app" where
  "load_all h [] = Return True"
| "load_all h (f # fs) = load h f (\<lambda>b. if b then load_all h fs else Return False)"

primrec in_turn :: "('e, 's) handler \<Rightarrow> 's \<Rightarrow> ('s \<Rightarrow> bool) list \<Rightarrow> 'e list \<Rightarrow> 'e list \<Rightarrow> bool" where
  "in_turn h i [] es0 es \<longleftrightarrow> (\<exists>es'. es = es0 @ es')"
| "in_turn h i (f # fs) es0 es \<longleftrightarrow> (\<exists>es1 s. deliver h (es0 @ es1) i = Val s \<and> f s \<and> in_turn h i fs (es0 @ es1) es)"

lemma in_turn_weaken: "in_turn h i fs (es0 @ es1) es \<Longrightarrow> in_turn h i fs es0 es"
proof (induction fs arbitrary: es0 es1)
  case (Cons f fs)
  then show ?case by (metis append_assoc in_turn.simps(2))
qed auto

lemma wpt_load_all:
  assumes "synced h i s tr" and "lets_break h i Q"
    and "\<And>b q s'. idle q \<Longrightarrow> slept q = 0 \<Longrightarrow> synced h i s' (q @ tr) \<Longrightarrow> (b \<Longrightarrow> in_turn h i fs (events tr) (events (q @ tr)))
      \<Longrightarrow> Q (Val b) s' (q @ tr)"
  shows "wpt G Q (load_all h fs) s tr"
  using assms(1,3)
proof (induction fs arbitrary: s tr)
  case Nil
  show ?case using Nil(1) Nil(2) [of "[]" s True] by simp
next
  case (Cons f fs)
  show ?case
    unfolding load_all.simps
  proof (rule wpt_load [OF Cons.prems(1) assms(2)], rule wpt_ifI)
    fix r s1
    assume s1: "synced h i s1 ((atomic_access, r) # tr)" and f: "f s1"
    show "wpt G Q (load_all h fs) s1 ((atomic_access, r) # tr)"
    proof (rule Cons.IH [OF s1])
      fix b q s'
      assume q: "idle q" "slept q = 0" "synced h i s' (q @ (atomic_access, r) # tr)"
        and b: "b \<Longrightarrow> in_turn h i fs (events ((atomic_access, r) # tr)) (events (q @ (atomic_access, r) # tr))"
      have "b \<Longrightarrow> in_turn h i (f # fs) (events tr) (events ((q @ [(atomic_access, r)]) @ tr))"
        using b s1 f by (auto simp: synced_def)
      then show "Q (Val b) s' (q @ (atomic_access, r) # tr)"
        using Cons.prems(2) [of "q @ [(atomic_access, r)]" s' b] q by simp
    qed
  next
    fix r s1
    assume "synced h i s1 ((atomic_access, r) # tr)"
    then show "wpt G Q (Return False) s1 ((atomic_access, r) # tr)"
      using Cons.prems(2) [of "[(atomic_access, r)]" s1 False] by simp
  qed
qed

text \<open>A wait for several conditions: each held at a moment of its own since the wait began.\<close>

lemma wpt_poll_loop_all:
  assumes "synced h i s tr" and "lets_break h i Q"
    and "\<And>b q s'. idle q \<Longrightarrow> slept q \<le> n * period \<Longrightarrow> synced h i s' (q @ tr) \<Longrightarrow> (b \<Longrightarrow> in_turn h i fs (events tr) (events (q @ tr)))
      \<Longrightarrow> Q (Val b) s' (q @ tr)"
  shows "wpt G Q (poll_loop h period (load_all h fs) n) s tr"
  using assms(1,3)
proof (induction n arbitrary: s tr)
  case 0
  show ?case unfolding poll_loop.simps by (rule wpt_load_all [OF 0(1) assms(2)]) (use 0(2) in simp)
next
  case (Suc n)
  show ?case
    unfolding poll_loop.simps wpt_bind
  proof (rule wpt_load_all [OF Suc.prems(1)])
    fix b q s1
    assume q: "idle q" "slept q = 0" "synced h i s1 (q @ tr)" "b \<Longrightarrow> in_turn h i fs (events tr) (events (q @ tr))"
    have "wpt G Q (sys h (sleep_ms period) (\<lambda>_. poll_loop h period (load_all h fs) n)) s1 (q @ tr)"
    proof (rule wpt_sys [OF q(3) assms(2)], rule Suc.IH)
      fix r s2 b' q' s3
      assume "idle q'" "slept q' \<le> n * period" "synced h i s3 (q' @ (sleep_ms period, r) # q @ tr)"
        "b' \<Longrightarrow> in_turn h i fs (events ((sleep_ms period, r) # q @ tr)) (events (q' @ (sleep_ms period, r) # q @ tr))"
      then show "Q (Val b') s3 (q' @ (sleep_ms period, r) # q @ tr)"
        using Suc.prems(2) [of "q' @ (sleep_ms period, r) # q" s3 b'] q(1,2) in_turn_weaken [of h i fs "events tr" "events q @ evs r"] by simp
    qed
    then show "after G Q (\<lambda>b. if b then Return True else sys h (sleep_ms period) (\<lambda>_. poll_loop h period (load_all h fs) n)) (Val b) s1 (q @ tr)"
      using Suc.prems(2) [of q s1 True] q by (cases b) simp_all
  qed (simp add: assms(2))
qed

lemma wpt_await_all:
  assumes "stands h i k s tr" and "lets_break h i Q"
    and "\<And>b q s'. idle q \<Longrightarrow> stands h i (k + (timeout + period - 1) div period * period) s' (q @ tr)
      \<Longrightarrow> (b \<Longrightarrow> in_turn h i fs (events tr) (events (q @ tr))) \<Longrightarrow> wpt G Q (f b) s' (q @ tr)"
  shows "wpt G Q (bind_prog (poll h period timeout (load_all h fs)) f) s tr"
  unfolding wpt_bind poll_def
  by (rule wpt_poll_loop_all [of h i]) (use assms in \<open>auto simp: stands_def\<close>)

lemma sees_all: "sees h i (load_all h fs) (\<lambda>s es. in_turn h i fs [] es)"
  unfolding sees_def
proof (intro allI impI)
  fix G Q s tr
  assume s: "synced h i s tr" and Q: "lets_break h i Q"
    and k: "\<forall>b q s'. idle q \<longrightarrow> slept q = 0 \<longrightarrow> synced h i s' (q @ tr) \<longrightarrow> (b \<longrightarrow> in_turn h i fs [] (events (q @ tr))) \<longrightarrow> Q (Val b) s' (q @ tr)"
  show "wpt G Q (load_all h fs) s tr"
    by (rule wpt_load_all [OF s Q], rule k [rule_format])
       (use in_turn_weaken [of h i fs "[]" "events tr"] in \<open>simp_all only: append_Nil\<close>)
qed

text \<open>The same with what the condition says of the callbacks delivered so far.\<close>

lemma wpt_await_until:
  assumes "reads h i cond P" and "\<And>s' tr'. synced h i s' tr' \<Longrightarrow> P s' \<Longrightarrow> R tr'"
    and "stands h i k s tr" and "lets_break h i Q"
    and "\<And>b q s'. idle q \<Longrightarrow> stands h i (k + (timeout + period - 1) div period * period) s' (q @ tr)
      \<Longrightarrow> (b \<Longrightarrow> R (q @ tr)) \<Longrightarrow> wpt G Q (f b) s' (q @ tr)"
  shows "wpt G Q (bind_prog (poll h period timeout cond) f) s tr"
  using assms(2-) by (intro wpt_await [OF assms(1)]) (auto simp: stands_def)

text \<open>What a stretch of \<open>main\<close> added to the trace; the rules compute it.\<close>

definition grown :: "('v, 'e) atrace \<Rightarrow> ('v, 'e) atrace \<Rightarrow> ('v, 'e) atrace \<Rightarrow> bool" where
  "grown tr q tr' \<longleftrightarrow> tr' = q @ tr"

lemma grown_rules:
  "grown tr q tr' \<Longrightarrow> grown tr (x # q) (x # tr')"
  "grown tr q tr' \<Longrightarrow> grown tr (q' @ q) (q' @ tr')"
  "grown tr [] tr"
  by (simp_all add: grown_def)

text \<open>
  What an iteration of a loop in \<open>main\<close> owes: it goes on having extended the trace so that \<open>J\<close> holds
  of what the loop added, or it leaves \<open>main\<close> the way \<open>Q\<close> allows.
\<close>

definition iteration_to ::
  "('e, 's) handler \<Rightarrow> 's \<Rightarrow> (int outcome \<Rightarrow> 's \<Rightarrow> ('v, 'e) atrace \<Rightarrow> bool) \<Rightarrow> nat \<Rightarrow> ('v, 'e) atrace
     \<Rightarrow> (('v, 'e) atrace \<Rightarrow> bool) \<Rightarrow> int option outcome \<Rightarrow> 's \<Rightarrow> ('v, 'e) atrace \<Rightarrow> bool" where
  "iteration_to h i Q k tr J x s tr' \<longleftrightarrow>
     broken h i x tr' \<or>
     (case x of
        Val None \<Rightarrow> stands h i k s tr' \<and> (\<exists>q. tr' = q @ tr \<and> J q)
      | Val (Some code) \<Rightarrow> Q (Val code) s tr'
      | _ \<Rightarrow> False)"

abbreviation iteration ::
  "('e, 's) handler \<Rightarrow> 's \<Rightarrow> nat \<Rightarrow> ('s \<Rightarrow> ('v, 'e) atrace \<Rightarrow> bool) \<Rightarrow> nat \<Rightarrow> ('v, 'e) atrace
     \<Rightarrow> (('v, 'e) atrace \<Rightarrow> bool) \<Rightarrow> int option outcome \<Rightarrow> 's \<Rightarrow> ('v, 'e) atrace \<Rightarrow> bool" where
  "iteration h i B P \<equiv> iteration_to h i (verdict h i B P)"

lemma lets_break_iteration [simp]: "lets_break h i (iteration_to h i Q k tr J)"
  by (simp add: lets_break_def iteration_to_def)

lemma wpt_fail_out_to:
  assumes "admits_failure h i B Q" and "stands h i k s tr" and "k \<le> B"
  shows "wpt G (iteration_to h i Q k' tr0 J) (fail_out h line) s tr"
  unfolding fail_out_def
  by (rule wpt_step [OF assms(2)]) (use assms(1,3) in \<open>simp_all add: admits_failure_def iteration_to_def stands_def\<close>)

lemmas wpt_fail_out = wpt_fail_out_to [OF admits_failure_verdict]

lemma wpt_continue:
  assumes "stands h i k s tr" and "\<exists>q. tr = q @ tr0 \<and> J q"
  shows "wpt G (iteration_to h i Q k tr0 J) (Return None) s tr"
  using assms by (simp add: iteration_to_def)

lemma added [simp]: "(\<exists>q'. q @ tr = q' @ tr \<and> J q') \<longleftrightarrow> J q"
  by auto

text \<open>A counted loop of \<open>main\<close>, after whose \<open>n\<close>-th iteration at most \<open>k n\<close> milliseconds have been slept.\<close>

lemma wpt_timed_loop_to:
  assumes Q: "lets_break h i Q" and "stands h i (k lo) s tr" and "J lo []"
    and body: "\<And>n s' q. lo \<le> n \<Longrightarrow> n < lo + N \<Longrightarrow> stands h i (k n) s' (q @ tr) \<Longrightarrow> J n q
      \<Longrightarrow> wpt G (iteration_to h i Q (k (Suc n)) tr (J (Suc n))) (body n) s' (q @ tr)"
    and rest: "\<And>s' q. stands h i (k (lo + N)) s' (q @ tr) \<Longrightarrow> J (lo + N) q \<Longrightarrow> wpt G Q p s' (q @ tr)"
  shows "wpt G Q (bind_prog (for_prog lo N body) (\<lambda>x. leave_or x p)) s tr"
  unfolding wpt_bind
proof (rule wpt_for_prog [where I = "\<lambda>n s' tr'. stands h i (k n) s' tr' \<and> (\<exists>q. tr' = q @ tr \<and> J n q)"])
  show "stands h i (k lo) s tr \<and> (\<exists>q. tr = q @ tr \<and> J lo q)"
    using assms(2,3) by simp
next
  fix n s1 tr1
  assume "lo \<le> n" "n < lo + N" and "stands h i (k n) s1 tr1 \<and> (\<exists>q. tr1 = q @ tr \<and> J n q)"
  then have "wpt G (iteration_to h i Q (k (Suc n)) tr (J (Suc n))) (body n) s1 tr1"
    using body by auto
  moreover have "Q x s tr'" if "broken h i x tr'" for x s tr'
    using Q that by (simp add: lets_break_def)
  ultimately show "wpt G (\<lambda>x s tr'. case x of Val None \<Rightarrow> stands h i (k (Suc n)) s tr' \<and> (\<exists>q. tr' = q @ tr \<and> J (Suc n) q)
      | _ \<Rightarrow> after G Q (\<lambda>x. leave_or x p) x s tr') (body n) s1 tr1"
    by (elim wpt_mono) (auto simp: iteration_to_def split: outcome.splits option.splits)
next
  fix s1 tr1
  assume "stands h i (k (lo + N)) s1 tr1 \<and> (\<exists>q. tr1 = q @ tr \<and> J (lo + N) q)"
  then show "after G Q (\<lambda>x. leave_or x p) (Val None) s1 tr1"
    using rest by auto
qed

lemmas wpt_timed_loop = wpt_timed_loop_to [OF lets_break_verdict]
lemmas wpt_main_loop = wpt_timed_loop [where k = "\<lambda>_. k" for k]

section \<open>What the shared variables say about the callbacks\<close>

text \<open>
  The interface between a program's callbacks and its \<open>main\<close>: a property of the callbacks delivered so far and the
  shared variables, which holds at first and which every callback keeps. \<open>main\<close> relies on it wherever it
  reads a variable.
\<close>

locale tracked_listener =
  fixes h :: "('e, 's) handler" and i :: 's and tracks :: "'e list \<Rightarrow> 's \<Rightarrow> bool"
  assumes tracks_start: "tracks [] i"
    and tracks_step: "tracks es s \<Longrightarrow> h e s = Val s' \<Longrightarrow> tracks (es @ [e]) s'"
begin

lemma tracks_delivered: "deliver h es i = Val s \<Longrightarrow> tracks es s"
proof (induction es arbitrary: s rule: rev_induct)
  case (snoc e es)
  then show ?case by (auto simp: deliver_append split: outcome.splits intro: tracks_step)
qed (simp add: tracks_start)

lemma tracks_synced: "synced h i s tr \<Longrightarrow> tracks (events tr) s"
  by (simp add: synced_def tracks_delivered)

lemma tracks_stands: "stands h i k s tr \<Longrightarrow> tracks (events tr) s"
  by (simp add: stands_def tracks_synced)

text \<open>A condition and, later, another one: the first still holds if no callback takes it back.\<close>

lemma in_turn_tracked:
  assumes "in_turn h i (f # fs) es0 es" and "\<And>es s. tracks es s \<Longrightarrow> f s \<Longrightarrow> R es"
  shows "\<exists>es1. R (es0 @ es1) \<and> in_turn h i fs (es0 @ es1) es"
  using assms tracks_delivered unfolding in_turn.simps by blast

lemma in_turn_both_tracked:
  assumes "in_turn h i (f # g # fs) es0 es" and "\<And>es s s'. deliver h es s = Val s' \<Longrightarrow> f s \<Longrightarrow> f s'"
    and "\<And>es s. tracks es s \<Longrightarrow> f s \<Longrightarrow> g s \<Longrightarrow> R es"
  shows "\<exists>es1. R (es0 @ es1) \<and> in_turn h i fs (es0 @ es1) es"
proof -
  obtain es1 es2 s1 s2 where "deliver h (es0 @ es1) i = Val s1" "f s1" and s2: "deliver h ((es0 @ es1) @ es2) i = Val s2" "g s2"
    and t: "in_turn h i fs ((es0 @ es1) @ es2) es"
    using assms(1) by auto
  then have "f s2" using assms(2) by (simp add: deliver_append [of h "es0 @ es1"] del: append_assoc)
  then show ?thesis using assms(3) tracks_delivered s2 t append_assoc by metis
qed

text \<open>Two conditions, each at a moment of its own.\<close>

lemma in_turn_pair_tracked:
  assumes "in_turn h i [f, g] [] es"
  shows "\<exists>es1 es2 s1 s2. tracks es1 s1 \<and> f s1 \<and> tracks es2 s2 \<and> g s2 \<and> set es1 \<union> set es2 \<subseteq> set es"
proof -
  obtain es1 s1 es2 s2 es3 where "deliver h es1 i = Val s1" "f s1" "deliver h (es1 @ es2) i = Val s2" "g s2" "es = (es1 @ es2) @ es3"
    using assms by auto
  then show ?thesis
    by (intro exI [of _ es1] exI [of _ "es1 @ es2"] exI [of _ s1] exI [of _ s2]) (auto intro: tracks_delivered)
qed

lemma await_tracked:
  assumes "reads h i cond P" and "\<And>es s. tracks es s \<Longrightarrow> P s \<Longrightarrow> R es" and "stands h i k s tr" and "lets_break h i Q"
    and "\<And>b q s'. idle q \<Longrightarrow> stands h i (k + (timeout + period - 1) div period * period) s' (q @ tr)
      \<Longrightarrow> (b \<Longrightarrow> R (events (q @ tr))) \<Longrightarrow> wpt G Q (f b) s' (q @ tr)"
  shows "wpt G Q (bind_prog (poll h period timeout cond) f) s tr"
  by (rule wpt_await_until [OF assms(1) _ assms(3,4), where R = "\<lambda>tr. R (events tr)"])
     (use assms(2,5) tracks_synced in blast)+

end

section \<open>Rules for the part of \<open>main\<close> before its listeners\<close>

text \<open>What is known of an environment that calls a listener only once it is installed.\<close>

definition heeds :: "('v app_call \<Rightarrow> bool) \<Rightarrow> (('v, 'e) atrace \<Rightarrow> 'v app_call \<Rightarrow> ('v, 'e) answer \<Rightarrow> bool) \<Rightarrow> bool" where
  "heeds installs G \<longleftrightarrow> (\<forall>line. \<not> installs (eprintf line)) \<and> (\<forall>tr c r. G tr c r \<longrightarrow> listening installs tr c r)"

lemma heeds_listening: "(\<And>line. \<not> installs (eprintf line)) \<Longrightarrow> heeds installs (listening installs)"
  by (simp add: heeds_def)

text \<open>A trace short of installing calls and of sleeps.\<close>

definition early :: "('v app_call \<Rightarrow> bool) \<Rightarrow> ('v, 'e) atrace \<Rightarrow> bool" where
  "early installs tr \<longleftrightarrow> events tr = [] \<and> slept tr = 0 \<and> (\<forall>x\<in>set tr. \<not> installs (fst x))"

lemma early_Nil [simp]: "early installs []"
  by (simp add: early_def)

lemma early_Cons [simp]:
  "early installs ((c, r) # tr) \<longleftrightarrow> early installs tr \<and> evs r = [] \<and> slept_by c = 0 \<and> \<not> installs c"
  by (auto simp: early_def)

lemma early_stands: "early installs tr \<Longrightarrow> stands h i 0 i tr"
  by (simp add: early_def synced_def stands_def)

lemma early_step:
  assumes "heeds installs G" and "early installs tr" and "\<not> installs c \<and> slept_by c = 0"
    and "\<And>r. early installs ((c, r) # tr) \<Longrightarrow> wpt G Q (k r) s ((c, r) # tr)"
  shows "wpt G Q (sys h c k) s tr"
proof -
  have "evs r = []" if "G tr c r" for r
    using assms(1-3) that unfolding heeds_def listening_def early_def by blast
  then show ?thesis using assms(2-) by (simp add: sys_def)
qed

lemma early_fail_to:
  assumes "admits_failure h i B Q" and "heeds installs G" and "early installs tr"
  shows "wpt G Q (fail h line) s tr"
  unfolding fail_def using assms
  by (intro early_step [OF assms(2)]) (auto simp: admits_failure_def early_def heeds_def)

lemma early_need_to:
  assumes "admits_failure h i B Q" and "heeds installs G" and "early installs tr" and "\<not> installs c \<and> slept_by c = 0"
    and "\<And>r. early installs ((c, r) # tr) \<Longrightarrow> ret r \<noteq> 0 \<Longrightarrow> wpt G Q (k (ret r)) s ((c, r) # tr)"
  shows "wpt G Q (need h c line k) s tr"
  unfolding need_def using assms
  by (intro early_step [OF assms(2)] wpt_ifI early_fail_to [OF assms(1,2)]) auto

lemma early_check_to:
  assumes "admits_failure h i B Q" and "heeds installs G" and "early installs tr" and "\<not> installs c \<and> slept_by c = 0"
    and "\<And>r. early installs ((c, r) # tr) \<Longrightarrow> ret r = 0 \<Longrightarrow> wpt G Q p s ((c, r) # tr)"
  shows "wpt G Q (check h c line p) s tr"
  unfolding check_def using assms
  by (intro early_step [OF assms(2)] wpt_ifI early_fail_to [OF assms(1,2)]) auto

lemmas early_fail = early_fail_to [OF admits_failure_verdict]
lemmas early_need = early_need_to [OF admits_failure_verdict]
lemmas early_check = early_check_to [OF admits_failure_verdict]

text \<open>The trace after \<open>open_participant\<close>.\<close>

definition opened :: "string list \<Rightarrow> string \<Rightarrow> int \<Rightarrow> int \<Rightarrow> ('v, 'e) atrace \<Rightarrow> bool" where
  "opened argv type_name factory dp tr \<longleftrightarrow> (\<exists>r1 r2 r3 r4. tr =
     [(Entity (type_support_register dp type_name), r4), (Entity (create_participant factory (parse_domain argv)), r3),
      (Entity (zzdds_factory_is_nil factory), r2), (Entity zzdds_create_factory, r1)]
     \<and> ret r1 = factory \<and> ret r3 = dp \<and> dp \<noteq> 0)"

lemma opened_only [simp]:
  assumes "opened argv type_name factory dp tr"
  shows "only data_op tr = []" "only printed tr = []" "only written tr = []" "only destroyed tr = []"
  using assms by (auto simp: opened_def)

lemma opened_creations [simp]:
  assumes "opened argv type_name factory dp tr"
  shows "creations tr = [(Entity zzdds_create_factory, factory), (Entity (create_participant factory (parse_domain argv)), dp)]"
  using assms by (auto simp: opened_def)

lemma opened_factory:
  "opened argv type_name factory dp tr \<Longrightarrow> \<exists>r. (Entity zzdds_create_factory, r) \<in> set tr \<and> ret r = factory"
  by (auto simp: opened_def)

lemma closesI:
  assumes "only destroyed tr = []" and "\<exists>r. (Entity zzdds_create_factory, r) \<in> set tr \<and> ret r = f"
  shows "closes ((Entity (zzdds_destroy_factory f), r0) # tr)"
  using assms by (auto simp: closes_def)

fun setup_call :: "'v app_call \<Rightarrow> bool" where
  "setup_call (Entity zzdds_create_factory) = True"
| "setup_call (Entity (zzdds_factory_is_nil f)) = True"
| "setup_call (Entity (create_participant f d)) = True"
| "setup_call (Entity (type_support_register dp t)) = True"
| "setup_call c = False"

lemma wpt_open_participant_to:
  assumes Q: "admits_failure h i B Q" and G: "heeds installs G" and inst: "\<And>c. setup_call c \<Longrightarrow> \<not> installs c"
    and k: "\<And>factory dp tr. early installs tr \<Longrightarrow> opened argv type_name factory dp tr \<Longrightarrow> wpt G Q (k factory dp) s tr"
  shows "wpt G Q (open_participant h argv type_name line k) s []"
  unfolding open_participant_def Let_def
  by (intro early_step [OF G] early_need_to [OF Q G] early_check_to [OF Q G] wpt_ifI early_fail_to [OF Q G] early_Nil k conjI inst)
     (auto simp: opened_def)

lemmas wpt_open_participant = wpt_open_participant_to [OF admits_failure_verdict]

lemma wpt_PutI: "wpt G Q p s' tr \<Longrightarrow> wpt G Q (Put s' p) s tr"
  by simp

lemma wpt_GetI: "wpt G Q (k s) s tr \<Longrightarrow> wpt G Q (Get k) s tr"
  by simp

text \<open>The calls that install a listener on a reader.\<close>

fun installs_reader_listener :: "'v app_call \<Rightarrow> bool" where
  "installs_reader_listener (Entity (create_datareader s t q listener)) = listener"
| "installs_reader_listener (Entity (set_listener dr)) = True"
| "installs_reader_listener _ = False"

lemma setup_not_reader: "setup_call c \<Longrightarrow> \<not> installs_reader_listener c"
  by (cases c rule: setup_call.cases) simp_all

lemma heeds_reader [simp]: "heeds installs_reader_listener (listening installs_reader_listener)"
  by (rule heeds_listening) simp

lemmas early_reader = early_need [OF heeds_reader] early_check [OF heeds_reader] early_step [OF heeds_reader]

text \<open>The call that creates a writer with its listener.\<close>

fun installs_listening :: "'v app_call \<Rightarrow> bool" where
  "installs_listening (Entity (create_datawriter_listening p t q)) = True"
| "installs_listening _ = False"

lemma setup_not_listening: "setup_call c \<Longrightarrow> \<not> installs_listening c"
  by (cases c rule: setup_call.cases) simp_all

lemma heeds_installs_listening [simp]: "heeds installs_listening (listening installs_listening)"
  by (rule heeds_listening) simp

lemmas early_listening = early_need [OF heeds_installs_listening] early_check [OF heeds_installs_listening] early_step [OF heeds_installs_listening]

section \<open>How long a program sleeps, whatever happens\<close>

text \<open>A bound on the sleeps of a program that needs neither a promise of the environment nor anything about the
  callbacks, so that it also covers the runs that end inside one.\<close>

definition sleeps :: "nat \<Rightarrow> ('s, 'v, 'e, 'a) app \<Rightarrow> bool" where
  "sleeps n p \<longleftrightarrow> (\<forall>s tr. wpt any_answer (\<lambda>x s' tr'. slept tr' \<le> slept tr + n) p s tr)"

lemma sleepsD: "sleeps n p \<Longrightarrow> wpt any_answer (\<lambda>x s' tr'. slept tr' \<le> slept tr + n) p s tr"
  by (simp add: sleeps_def)

lemma sleeps_run: "sleeps n p \<Longrightarrow> run env p s [] = (x, s', tr) \<Longrightarrow> slept tr \<le> n"
  using wpt_run [where G = any_answer, OF sleepsD TrueI] by fastforce

lemma sleeps_mono: "sleeps m p \<Longrightarrow> m \<le> n \<Longrightarrow> sleeps n p"
  unfolding sleeps_def by (blast intro: wpt_mono order_trans add_left_mono)

lemma sleeps_Leaf: "sleeps n (Leaf x)"
  by (simp add: sleeps_def)

lemma sleeps_Get: "(\<And>s. sleeps n (k s)) \<Longrightarrow> sleeps n (Get k)"
  by (simp add: sleeps_def)

lemma sleeps_Put: "sleeps n p \<Longrightarrow> sleeps n (Put s p)"
  by (simp add: sleeps_def)

lemma sleeps_if: "(b \<Longrightarrow> sleeps n p) \<Longrightarrow> (\<not> b \<Longrightarrow> sleeps n q) \<Longrightarrow> sleeps n (if b then p else q)"
  by simp

lemma sleeps_by:
  assumes "sleeps m p" and "slept tr0 + m \<le> n"
  shows "wpt any_answer (\<lambda>x s' tr'. slept tr' \<le> n) p s tr0"
  by (rule wpt_mono [OF sleepsD [OF assms(1)]]) (use assms(2) in simp)

lemma sleeps_bind:
  assumes "sleeps m p" and "m \<le> n" and "\<And>a. sleeps (n - m) (f a)"
  shows "sleeps n (bind_prog p f)"
  unfolding sleeps_def
  by (intro allI, rule wpt_bindI [OF sleepsD [OF assms(1)]]) (use assms(2) in \<open>auto intro!: sleeps_by [OF assms(3)]\<close>)

lemma sleeps_sys:
  assumes "slept_by c \<le> n" and "\<And>r. sleeps (n - slept_by c) (k r)"
  shows "sleeps n (sys h c k)"
  unfolding sleeps_def sys_def
  by (intro allI wpt_CallI wpt_GetI) (use assms(1) in \<open>auto intro!: sleeps_by [OF assms(2)] split: outcome.splits\<close>)

lemma sleeps_quiet: "slept_by c = 0 \<Longrightarrow> (\<And>r. sleeps n (k r)) \<Longrightarrow> sleeps n (sys h c k)"
  by (rule sleeps_sys) simp_all

lemma sleeps_sleep: "m \<le> n \<Longrightarrow> (\<And>r. sleeps (n - m) (k r)) \<Longrightarrow> sleeps n (sys h (sleep_ms m) k)"
  by (rule sleeps_sys) simp_all

lemma sleeps_fail: "sleeps n (fail h line)" "sleeps n (fail_out h line)"
  unfolding fail_def fail_out_def by (rule sleeps_quiet, simp, rule sleeps_Leaf)+

lemma sleeps_need: "slept_by c = 0 \<Longrightarrow> (\<And>x. sleeps n (k x)) \<Longrightarrow> sleeps n (need h c line k)"
  unfolding need_def by (simp add: sleeps_quiet sleeps_fail)

lemma sleeps_check: "slept_by c = 0 \<Longrightarrow> sleeps n p \<Longrightarrow> sleeps n (check h c line p)"
  unfolding check_def by (simp add: sleeps_quiet sleeps_fail)

lemma sleeps_load: "(\<And>x. sleeps n (k x)) \<Longrightarrow> sleeps n (load h f k)"
  unfolding load_def by (rule sleeps_quiet, simp, rule sleeps_Get)

lemma sleeps_open: "(\<And>f dp. sleeps n (k f dp)) \<Longrightarrow> sleeps n (open_participant h argv type_name line k)"
  unfolding open_participant_def Let_def
  by (intro sleeps_quiet sleeps_if sleeps_need sleeps_check sleeps_fail) simp_all

lemma sleeps_poll_loop: "sleeps 0 cond \<Longrightarrow> sleeps (n * period) (poll_loop h period cond n)"
proof (induction n)
  case (Suc n)
  show ?case
    unfolding poll_loop.simps
    by (rule sleeps_bind [where m = 0]) (auto intro!: Suc sleeps_if sleeps_Leaf sleeps_sys)
qed simp

lemma sleeps_poll:
  assumes "(timeout + period - 1) div period * period \<le> n"
    and "\<And>b. sleeps (n - (timeout + period - 1) div period * period) (f b)"
  shows "sleeps n (bind_prog (poll h period timeout (load h g Return)) f)"
  unfolding poll_def
  by (rule sleeps_bind [OF sleeps_poll_loop assms]) (intro sleeps_load sleeps_Leaf)

lemma sleeps_for: "(\<And>i. sleeps 0 (body i)) \<Longrightarrow> sleeps 0 (for_prog lo n body)"
proof (induction n arbitrary: lo)
  case (Suc n)
  then show ?case by (auto intro!: sleeps_bind [where m = 0] sleeps_Leaf split: option.split)
qed (simp add: sleeps_Leaf)

lemma sleeps_leave: "sleeps n p \<Longrightarrow> sleeps n (leave_or x p)"
  by (simp add: sleeps_Leaf split: option.split)

lemmas sleeps_steps = sleeps_need sleeps_check sleeps_load sleeps_fail sleeps_Leaf sleeps_quiet sleeps_Get sleeps_Put sleeps_if sleeps_leave

section \<open>Answers of a whole run\<close>

text \<open>What the environment promises of every answer, or of every callback, holds of all that a run got.\<close>

lemma wpt_answers:
  assumes "\<And>tr c r. G tr c r \<Longrightarrow> F c r" and "list_all (case_prod F) tr"
  shows "wpt G (\<lambda>x s tr. list_all (case_prod F) tr) p s tr"
  using assms(2)
proof (induction p arbitrary: s tr)
  case (Call c k)
  then show ?case using assms(1) by (auto intro!: Call.IH)
qed auto

lemma run_answers:
  assumes "\<And>tr c. F c (env tr c)"
  shows "list_all (case_prod F) (snd (snd (run env p s [])))"
  using wpt_run_result [where e = env, OF wpt_answers [where G = "\<lambda>tr c r. F c r"], of F "[]" p s] assms
  by (simp add: split_beta)

lemma run_events:
  assumes "\<And>tr c. list_all F (evs (env tr c))"
  shows "list_all F (events (snd (snd (run env p s []))))"
  using run_answers [of "\<lambda>c r. list_all F (evs r)" env p s] assms by (auto simp: events_def list_all_iff)

section \<open>Evaluation\<close>

text \<open>For runs against a concrete environment.\<close>

definition answers :: "int \<Rightarrow> 'e list \<Rightarrow> ('v, 'e) answer" where
  "answers n es = \<lparr>ret = n, num = 0, strs = [], hs = [], got = [], evs = es\<rparr>"

lemma run_sys [simp]:
  "run e (sys h c k) s tr =
     (case deliver h (evs (e tr c)) s of
        Val s' \<Rightarrow> run e (k (e tr c)) s' ((c, e tr c) # tr)
      | Exit n \<Rightarrow> (Exit n, s, (c, e tr c) # tr)
      | Crash m \<Rightarrow> (Crash m, s, (c, e tr c) # tr)
      | OutOfFuel \<Rightarrow> (OutOfFuel, s, (c, e tr c) # tr))"
  by (simp add: sys_def split: outcome.splits)

text \<open>It is silent as long as no listener is installed.\<close>

definition silent_before :: "('v app_call \<Rightarrow> bool) \<Rightarrow> ('v app_call, ('v, 'e) answer) env \<Rightarrow> ('v app_call, ('v, 'e) answer) env" where
  "silent_before installs env tr c =
     (if installs c \<or> list_ex (installs \<circ> fst) tr then env tr c else (env tr c)\<lparr>evs := []\<rparr>)"

lemma silent_before_listens: "listening installs tr c (silent_before installs env tr c)"
  by (auto simp: listening_def silent_before_def list_ex_iff)

lemma poll_loop_numeral [simp]:
  "poll_loop h period cond (numeral n) =
     bind_prog cond (\<lambda>b. if b then Return True
       else sys h (sleep_ms period) (\<lambda>_. poll_loop h period cond (pred_numeral n)))"
  by (simp add: numeral_eq_Suc)

lemma for_prog_numeral [simp]:
  "for_prog lo (numeral n) body =
     bind_prog (body lo) (\<lambda>x. case x of Some a \<Rightarrow> Return (Some a) | None \<Rightarrow> for_prog (Suc lo) (pred_numeral n) body)"
  by (simp add: numeral_eq_Suc)

lemmas evaluate =
  open_participant_def need_def check_def load_def store_def answers_def fail_def fail_out_def poll_def Let_def run_bind_prog

end
