(* ===== verification/Example_Publisher.thy ===== *)
theory Example_Publisher
  imports Example_Kit
begin

text \<open>
  The publisher side the \<open>hello_world\<close> and \<open>registry\<close> programs share line by line: the state their
  extended writer listener keeps, the wait for a reliable reader before the first write, and the
  wait for that reader's departure before the end.
\<close>

section \<open>State and callbacks\<close>

definition READER_READY_TIMEOUT_MS :: nat where "READER_READY_TIMEOUT_MS = 10000"
definition DRAIN_TIMEOUT_MS :: nat where "DRAIN_TIMEOUT_MS = 15000"
definition POLL_PERIOD_MS :: nat where "POLL_PERIOD_MS = 20"

record PubState =
  reader_ready :: bool
  ever_matched :: bool
  matched_current_count :: int

definition pub_state :: PubState where
  "pub_state = \<lparr>reader_ready = False, ever_matched = False, matched_current_count = 0\<rparr>"

definition on_reliable_reader_ready :: "bool \<Rightarrow> PubState \<Rightarrow> PubState" where
  "on_reliable_reader_ready is_ready state = (if is_ready then state\<lparr>reader_ready := True\<rparr> else state)"

text \<open>A callback is one step of the model, so the two stores of this one are seen together.\<close>

definition on_publication_matched :: "int \<Rightarrow> PubState \<Rightarrow> PubState" where
  "on_publication_matched current_count state =
     (let state = state\<lparr>matched_current_count := current_count\<rparr>
      in if current_count > 0 then state\<lparr>ever_matched := True\<rparr> else state)"

text \<open>The callbacks of \<open>listener_ex\<close>.\<close>

datatype pub_event = Reader_ready bool | Publication_matched int

fun pub_listener :: "(pub_event, PubState) handler" where
  "pub_listener (Reader_ready is_ready) state = Val (on_reliable_reader_ready is_ready state)"
| "pub_listener (Publication_matched current_count) state = Val (on_publication_matched current_count state)"

definition await_reader :: "(PubState, 'v, pub_event, bool) app" where
  "await_reader = poll pub_listener POLL_PERIOD_MS READER_READY_TIMEOUT_MS (load pub_listener reader_ready Return)"

definition await_drain :: "(PubState, 'v, pub_event, bool) app" where
  "await_drain = poll pub_listener POLL_PERIOD_MS DRAIN_TIMEOUT_MS
     (load pub_listener ever_matched (\<lambda>b.
        if b then load pub_listener (\<lambda>s. matched_current_count s = 0) Return else Return False))"

section \<open>What the waits establish\<close>

lemma ever_matched_stable: "deliver pub_listener es s = Val s' \<Longrightarrow> ever_matched s \<Longrightarrow> ever_matched s'"
proof (induction es arbitrary: s)
  case (Cons e es)
  then show ?case
    by (cases e) (auto simp: on_reliable_reader_ready_def on_publication_matched_def Let_def split: if_splits)
qed simp

text \<open>A matched reader was reported and, later, that none is left.\<close>

fun saw_disconnect :: "pub_event list \<Rightarrow> bool" where
  "saw_disconnect (Publication_matched n # es) \<longleftrightarrow> 0 < n \<and> Publication_matched 0 \<in> set es \<or> saw_disconnect es"
| "saw_disconnect (Reader_ready b # es) \<longleftrightarrow> saw_disconnect es"
| "saw_disconnect [] \<longleftrightarrow> False"

lemma saw_disconnect_append: "saw_disconnect es \<Longrightarrow> saw_disconnect (es @ es')"
  by (induction es rule: saw_disconnect.induct) auto

lemma saw_disconnect_snoc:
  "Publication_matched n \<in> set es \<Longrightarrow> 0 < n \<Longrightarrow> saw_disconnect (es @ [Publication_matched 0])"
  by (induction es rule: saw_disconnect.induct) auto

text \<open>What the shared variables of the publisher say about the callbacks.\<close>

definition pub_tracks :: "pub_event list \<Rightarrow> PubState \<Rightarrow> bool" where
  "pub_tracks es s \<longleftrightarrow>
     (reader_ready s \<longrightarrow> Reader_ready True \<in> set es)
     \<and> (ever_matched s \<longrightarrow> (\<exists>n>0. Publication_matched n \<in> set es))
     \<and> (ever_matched s \<and> matched_current_count s = 0 \<longrightarrow> saw_disconnect es)"

interpretation pub: tracked_listener pub_listener pub_state pub_tracks
proof unfold_locales
  show "pub_tracks [] pub_state" by (simp add: pub_tracks_def pub_state_def)
next
  fix es s e s'
  assume "pub_tracks es s" and "pub_listener e s = Val s'"
  then show "pub_tracks (es @ [e]) s'"
    by (cases e) (auto simp: pub_tracks_def on_reliable_reader_ready_def on_publication_matched_def Let_def
        intro: saw_disconnect_append saw_disconnect_snoc split: if_splits)
qed

definition reported_ready :: "('v, pub_event) atrace \<Rightarrow> bool" where
  "reported_ready tr \<longleftrightarrow> Reader_ready True \<in> set (events tr)"

lemma wpt_await_reader:
  assumes "stands pub_listener pub_state k s tr" and "lets_break pub_listener pub_state Q"
    and "\<And>b q s'. idle q \<Longrightarrow> stands pub_listener pub_state (k + 10000) s' (q @ tr)
      \<Longrightarrow> (b \<Longrightarrow> reported_ready (q @ tr)) \<Longrightarrow> wpt G Q (f b) s' (q @ tr)"
  shows "wpt G Q (bind_prog await_reader f) s tr"
  unfolding await_reader_def
  by (rule pub.await_tracked [OF reads_load _ assms(1,2), where R = "\<lambda>es. Reader_ready True \<in> set es"])
     (use assms(3) in \<open>auto simp: pub_tracks_def reported_ready_def READER_READY_TIMEOUT_MS_def POLL_PERIOD_MS_def\<close>)

lemma wpt_await_drain:
  assumes "stands pub_listener pub_state k s tr" and "lets_break pub_listener pub_state Q"
    and "\<And>b q s'. idle q \<Longrightarrow> stands pub_listener pub_state (k + 15000) s' (q @ tr)
      \<Longrightarrow> (b \<Longrightarrow> saw_disconnect (events (q @ tr))) \<Longrightarrow> wpt G Q (f b) s' (q @ tr)"
  shows "wpt G Q (bind_prog await_drain f) s tr"
  unfolding await_drain_def
  by (rule pub.await_tracked [OF reads_both [OF ever_matched_stable] _ assms(1,2), where R = saw_disconnect])
     (use assms(3) in \<open>auto simp: pub_tracks_def DRAIN_TIMEOUT_MS_def POLL_PERIOD_MS_def\<close>)

section \<open>When the listener can run\<close>

fun installs_writer_listener :: "'v app_call \<Rightarrow> bool" where
  "installs_writer_listener (Entity (create_datawriter_ex p t q)) = True"
| "installs_writer_listener _ = False"

lemma setup_not_writer: "setup_call c \<Longrightarrow> \<not> installs_writer_listener c"
  by (cases c rule: setup_call.cases) simp_all

lemma heeds_writer [simp]: "heeds installs_writer_listener (listening installs_writer_listener)"
  by (rule heeds_listening) simp

lemmas early_writer = early_need [OF heeds_writer] early_check [OF heeds_writer] early_step [OF heeds_writer]

fun is_write :: "'v app_call \<Rightarrow> bool" where
  "is_write (Data (write_data w v h)) = True"
| "is_write (Data (write_w_timestamp w v h t)) = True"
| "is_write _ = False"

text \<open>The writes of the samples from a number on.\<close>

fun writes_from :: "int \<Rightarrow> int app_call \<Rightarrow> bool" where
  "writes_from n (Data (write_data w v h)) \<longleftrightarrow> n \<le> v"
| "writes_from n c \<longleftrightarrow> False"

lemma writes_from_write: "writes_from n c \<Longrightarrow> is_write c"
  by (cases c rule: is_write.cases) auto

lemma only_member: "x \<in> set q \<Longrightarrow> f (fst x) = Some y \<Longrightarrow> y \<in> set (only f q)"
  by (force simp: only_def List.map_filter_def)

lemma batch_not_later:
  assumes "only written q = map (\<lambda>k. (dw, int k)) [lo..<n]" and "x \<in> set q"
  shows "\<not> writes_from (int n) (fst x)"
proof
  assume "writes_from (int n) (fst x)"
  then obtain w v h where "fst x = Data (write_data w v h)" "int n \<le> v" by (cases "(int n, fst x)" rule: writes_from.cases) auto
  then show False using only_member [OF assms(2), of written "(w, v)"] assms(1) by auto
qed

lemma before_imp: "before f P tr \<Longrightarrow> (\<And>c. g c \<Longrightarrow> f c) \<Longrightarrow> (\<And>tr. P tr \<Longrightarrow> R tr) \<Longrightarrow> before g R tr"
  by (induction tr) auto

lemma idle_not_write: "idle q \<Longrightarrow> x \<in> set q \<Longrightarrow> \<not> is_write (fst x)"
  by (cases "fst x") (auto simp: idle_def)

lemma opened_no_write: "opened argv type_name factory dp tr \<Longrightarrow> before is_write P tr"
  by (auto simp: opened_def)

lemma writes_after_ready:
  assumes "before is_write reported_ready tr" and "reported_ready tr"
  shows "before is_write reported_ready (q @ tr)"
  using assms by (intro before_append) (auto simp: reported_ready_def)

lemma pub_listener_total: "\<exists>s'. deliver pub_listener es s = Val s'"
proof (induction es arbitrary: s)
  case (Cons e es)
  then show ?case by (cases e) auto
qed simp

lemma pub_not_broken [simp]: "\<not> broken pub_listener i x tr"
  using pub_listener_total [of "events tr" i] by (cases x) auto

section \<open>A middleware for evaluation\<close>

text \<open>Every call succeeds; the reader is there, ready and gone again once the writer exists.\<close>

fun smooth_env :: "('v app_call, ('v, pub_event) answer) env" where
  "smooth_env tr (Entity (create_datawriter_ex p t q)) =
     answers 7 [Publication_matched 1, Reader_ready True, Publication_matched 0]"
| "smooth_env tr (Entity (zzdds_factory_is_nil f)) = answers 0 []"
| "smooth_env tr (Entity (type_support_register dp t)) = answers 0 []"
| "smooth_env tr (Entity c) = answers 1 []"
| "smooth_env tr c = answers 0 []"

lemma smooth_env_listens: "listening installs_writer_listener tr c (smooth_env tr c)"
  by (cases "(tr, c)" rule: smooth_env.cases) (auto simp: listening_def answers_def)

end
