(* ===== verification/Hello_World.thy ===== *)
theory Hello_World
  imports Example_Publisher
begin

text \<open>
  The two programs of \<open>examples/c/hello_world\<close>. The publisher waits until a reliable reader is ready,
  writes ten samples and waits until its reader has gone; the subscriber's listener takes the samples
  and checks that they arrive in order.
\<close>

section \<open>Data\<close>

record HelloWorld =
  count :: int
  message :: string

section \<open>Publisher\<close>

definition SAMPLE_COUNT :: nat where "SAMPLE_COUNT = 10"

text \<open>\<open>sample.message\<close> is a bounded string of 256 characters.\<close>

definition hello_sample :: "int \<Rightarrow> HelloWorld" where
  "hello_sample i = \<lparr>count = i, message = strncpy_field 257 ''Hello world!''\<rparr>"

definition write_samples :: "int \<Rightarrow> (PubState, HelloWorld, pub_event, int option) app" where
  "write_samples w = for_prog 0 SAMPLE_COUNT (\<lambda>i.
     sys pub_listener (Data (write_data w (hello_sample (int i)) 0)) (\<lambda>r.
       if ret r \<noteq> 0 then fail_out pub_listener (''write() failed at count='' @ dec i)
       else say pub_listener (''Publisher: wrote count='' @ dec i @ '' message=\"Hello world!\"'') (Return None)))"

definition hello_publisher :: "string list \<Rightarrow> (PubState, HelloWorld, pub_event, int) app" where
  "hello_publisher argv =
     (let h = pub_listener in
      open_participant h argv ''HelloWorld'' ''register_type_support failed'' (\<lambda>factory dp.
      need h (Entity (create_topic dp ''HelloWorld'' ''HelloWorld'')) ''create_topic() failed'' (\<lambda>topic.
      say h ''Create topic: HelloWorld'' (
      need h (Entity (create_publisher dp)) ''create_publisher() failed'' (\<lambda>pub.
      sys h (Entity (get_default_datawriter_qos pub)) (\<lambda>dflt.
      Put pub_state (
      need h (Entity (create_datawriter_ex pub topic (reliable_keep_all (num dflt)))) ''create_datawriter_ex() failed'' (\<lambda>dw.
      say h ''Create writer for topic: HelloWorld'' (
      bind_prog await_reader (\<lambda>ready.
      if \<not> ready then fail h ''no reliable reader became ready within 10s''
      else bind_prog (write_samples dw) (\<lambda>x. leave_or x (
      bind_prog await_drain (\<lambda>drained.
      if \<not> drained then fail h ''subscriber did not disconnect within 15s''
      else say h ''Publisher: done.'' (
      sys h (Entity (zzdds_destroy_factory factory)) (\<lambda>_. Return 0)))))))))))))))"

section \<open>Subscriber\<close>

definition EXPECTED_SAMPLES :: int where "EXPECTED_SAMPLES = 10"
definition RECEIVE_TIMEOUT_MS :: nat where "RECEIVE_TIMEOUT_MS = 30000"

text \<open>\<open>reader\<close> says whether the pointer is set; \<open>in_listener\<close> that an invocation of
  \<open>on_data_available\<close> has taken a sample and will take again.\<close>

record SubState =
  reader :: bool
  expected_next :: int
  all_received :: bool
  in_listener :: bool

definition sub_state :: SubState where
  "sub_state = \<lparr>reader = False, expected_next = 0, all_received = False, in_listener = False\<rparr>"

text \<open>One iteration of the loop of \<open>on_data_available\<close>, with the results of its \<open>take\<close>.\<close>

datatype 'v take_event = Taken int 'v bool

fun on_data_available :: "(HelloWorld take_event, SubState) handler" where
  "on_data_available (Taken rc value valid) state =
     (if \<not> reader state then Crash ''take through a null reader''
      else if rc = DDS_RETCODE_NO_DATA then Val (state\<lparr>in_listener := False\<rparr>)
      else if rc \<noteq> DDS_RETCODE_OK then Exit 1
      else if \<not> valid then Val (state\<lparr>in_listener := False\<rparr>)
      else if count value \<noteq> expected_next state then Exit 1
      else if expected_next state = 2 ^ 31 - 1 then Crash ''expected_next overflow''
      else let next = expected_next state + 1 in
        Val (state\<lparr>expected_next := next, all_received := all_received state \<or> next = EXPECTED_SAMPLES,
                   in_listener := True\<rparr>))"

definition hello_subscriber :: "string list \<Rightarrow> (SubState, HelloWorld, HelloWorld take_event, int) app" where
  "hello_subscriber argv =
     (let h = on_data_available in
      open_participant h argv ''HelloWorld'' ''register_type_support failed'' (\<lambda>factory dp.
      need h (Entity (create_topic dp ''HelloWorld'' ''HelloWorld'')) ''create_topic() failed'' (\<lambda>topic.
      say h ''Create topic: HelloWorld'' (
      need h (Entity (create_subscriber dp)) ''create_subscriber() failed'' (\<lambda>sub.
      sys h (Entity (get_default_datareader_qos sub)) (\<lambda>dflt.
      Put sub_state (
      need h (Entity (create_datareader sub topic (reliable_keep_all (num dflt)) True)) ''create_datareader() failed'' (\<lambda>dr.
      say h ''Create reader for topic: HelloWorld'' (
      Get (\<lambda>s. Put (s\<lparr>reader := True\<rparr>) (
      say h ''Subscriber: waiting for 10 samples...'' (
      bind_prog (poll h POLL_PERIOD_MS RECEIVE_TIMEOUT_MS (load h all_received Return)) (\<lambda>received.
      if \<not> received then Get (\<lambda>s. fail h (''only received '' @ dec_int (expected_next s) @ ''/10 samples within 30s''))
      else sys h (Entity (delete_datareader sub dr)) (\<lambda>_.
      say h ''Subscriber: received all 10 samples in order.'' (
      sys h (Entity (zzdds_destroy_factory factory)) (\<lambda>_. Return 0))))))))))))))))"

end
