(* ===== verification/Hello_Contracts.thy ===== *)
theory Hello_Contracts
  imports Hello_World
begin

text \<open>
  What the two \<open>hello_world\<close> programs guarantee, each against an arbitrary middleware, and what the
  one hands to the other.
\<close>

section \<open>The publisher's contract\<close>

definition hello_sent :: "int \<Rightarrow> nat \<Rightarrow> (int \<times> HelloWorld) list" where
  "hello_sent dw n = map (\<lambda>i. (dw, hello_sample (int i))) [0..<n]"


definition hello_line :: "nat \<Rightarrow> string" where
  "hello_line i = ''Publisher: wrote count='' @ dec i @ '' message=\"Hello world!\"''"

text \<open>What the first \<open>n\<close> iterations add to a trace.\<close>

definition wrote :: "int \<Rightarrow> nat \<Rightarrow> (HelloWorld, pub_event) atrace \<Rightarrow> bool" where
  "wrote dw n q \<longleftrightarrow> only written q = hello_sent dw n \<and> only printed q = map hello_line [0..<n] \<and> only destroyed q = []"

lemma wpt_write_samples:
  assumes "stands pub_listener i k s tr" and "k \<le> B"
    and "\<And>s' q. stands pub_listener i k s' (q @ tr) \<Longrightarrow> wrote dw SAMPLE_COUNT q \<Longrightarrow> wpt G (verdict pub_listener i B P) p s' (q @ tr)"
  shows "wpt G (verdict pub_listener i B P) (bind_prog (write_samples dw) (\<lambda>x. leave_or x p)) s tr"
  unfolding write_samples_def
proof (rule wpt_main_loop [where J = "wrote dw"])
  fix n s' q
  assume s': "stands pub_listener i k s' (q @ tr)" and q: "wrote dw n q"
  show "wpt G (iteration pub_listener i B P k tr (wrote dw (Suc n)))
     (sys pub_listener (Data (write_data dw (hello_sample (int n)) 0)) (\<lambda>r.
       if ret r \<noteq> 0 then fail_out pub_listener (''write() failed at count='' @ dec n)
       else say pub_listener (''Publisher: wrote count='' @ dec n @ '' message=\"Hello world!\"'') (Return None))) s' (q @ tr)"
    by (rule wpt_step [OF s'], simp, simp, rule wpt_ifI, erule wpt_fail_out, rule assms(2),
        erule wpt_step, simp, simp, erule wpt_continue)
      (use q in \<open>simp flip: append_Cons, simp add: wrote_def hello_sent_def hello_line_def\<close>)
qed (use assms in \<open>simp_all add: wrote_def hello_sent_def\<close>)

definition published :: "PubState \<Rightarrow> (HelloWorld, pub_event) atrace \<Rightarrow> bool" where
  "published s tr \<longleftrightarrow>
     before is_write reported_ready tr \<and> saw_disconnect (events tr)
     \<and> (\<exists>dw. only written tr = hello_sent dw SAMPLE_COUNT)
     \<and> only printed tr = [''Create topic: HelloWorld'', ''Create writer for topic: HelloWorld'']
         @ map hello_line [0..<SAMPLE_COUNT] @ [''Publisher: done.'']
     \<and> closes tr"

lemma published_trace:
  assumes "before is_write reported_ready tr" and "only written tr = []" and "only destroyed tr = []"
    and "only printed tr = [''Create topic: HelloWorld'', ''Create writer for topic: HelloWorld'']"
    and "\<exists>r. (Entity zzdds_create_factory, r) \<in> set tr \<and> ret r = f"
    and "idle q1" and "reported_ready (q1 @ tr)" and "wrote dw SAMPLE_COUNT q2" and "idle q3"
    and "saw_disconnect (events (q3 @ q2 @ q1 @ tr))"
  shows "published s ((Entity (zzdds_destroy_factory f), r2) # (printf ''Publisher: done.'', r1) # q3 @ q2 @ q1 @ tr)"
proof -
  have "before is_write reported_ready (q1 @ tr)"
    using assms(1) idle_not_write [OF assms(6)] by (rule before_other)
  then have "before is_write reported_ready ((q3 @ q2) @ q1 @ tr)"
    using assms(7) by (rule writes_after_ready)
  moreover have "closes ((Entity (zzdds_destroy_factory f), r2) # (printf ''Publisher: done.'', r1) # q3 @ q2 @ q1 @ tr)"
    using assms by (intro closesI) (auto simp: wrote_def)
  ultimately show ?thesis
    using assms saw_disconnect_append [OF assms(10), of "evs r1 @ evs r2"]
    by (auto simp: published_def wrote_def)
qed

lemma hello_publisher_wpt:
  "wpt (listening installs_writer_listener) (verdict pub_listener pub_state 25000 published) (hello_publisher argv) s []"
  unfolding hello_publisher_def Let_def
  apply (rule wpt_open_participant [OF heeds_writer setup_not_writer], assumption)
  apply (rule early_writer wpt_PutI, assumption, simp)+
  apply (rule wpt_PutI, rule wpt_need, erule early_stands, simp)
  apply (erule wpt_step, simp, simp)
  apply (erule wpt_await_reader, simp, rule wpt_ifI, erule wpt_fail, simp)
  apply (erule wpt_write_samples, simp)
  apply (erule wpt_await_drain, simp, rule wpt_ifI, erule wpt_fail, simp)
  apply (erule wpt_step, simp, simp)+
  apply (simp add: verdict_def stands_def)
  apply (rule published_trace)
  apply (simp_all add: opened_no_write opened_factory)
  done

text \<open>The hello_world publisher against an arbitrary middleware: it sleeps 25 seconds at most, and it
  ends with 1 right after a \<open>FAIL:\<close> line, or with 0 after it printed every line its header comment
  asks for, wrote exactly the samples 0 to 9 in order and each only after a ready reader had been
  reported, saw the reader go, and destroyed its factory as its last action. The environment is only
  asked not to run the writer's listener before the writer is created.\<close>

theorem hello_publisher_contract:
  assumes "\<And>tr c. listening installs_writer_listener tr c (env tr c)"
  shows "case run env (hello_publisher argv) s [] of (x, s', tr) \<Rightarrow>
    slept tr \<le> 25000 \<and> (x = Val 1 \<and> failed tr \<or> x = Val 0 \<and> published s' tr)"
  using wpt_run_result [where e = env, OF hello_publisher_wpt assms, of argv s]
  by (simp add: verdict_def split_beta) blast

lemma hello_run: "fst (run smooth_env (hello_publisher [''p'']) pub_state []) = Val 0"
  by (simp add: evaluate hello_publisher_def await_reader_def await_drain_def write_samples_def SAMPLE_COUNT_def
     POLL_PERIOD_MS_def READER_READY_TIMEOUT_MS_def DRAIN_TIMEOUT_MS_def pub_state_def
     on_publication_matched_def on_reliable_reader_ready_def)

theorem hello_publisher_contract_witness:
  "case run smooth_env (hello_publisher [''p'']) pub_state [] of (x, s', tr) \<Rightarrow>
    slept tr \<le> 25000 \<and> x = Val 0 \<and> published s' tr"
  using hello_publisher_contract [OF smooth_env_listens, of "[''p'']" pub_state] hello_run
  by (auto simp: split_beta)

section \<open>The subscriber's contract\<close>

text \<open>The samples the listener took with valid data.\<close>

fun taken_value :: "'v take_event \<Rightarrow> 'v option" where
  "taken_value (Taken rc v valid) = (if rc = DDS_RETCODE_OK \<and> valid then Some v else None)"

definition accepted :: "HelloWorld take_event list \<Rightarrow> int list" where
  "accepted es = map count (List.map_filter taken_value es)"

lemma accepted_simps [simp]:
  "accepted [] = []"
  "accepted (es @ es') = accepted es @ accepted es'"
  "accepted [Taken rc v valid] = (if rc = DDS_RETCODE_OK \<and> valid then [count v] else [])"
  by (simp_all add: accepted_def List.map_filter_def)

definition attached :: SubState where
  "attached = sub_state\<lparr>reader := True\<rparr>"

text \<open>As long as the listener has not left the process, the samples it took are counted from 0.\<close>

lemma listener_counts:
  assumes "deliver on_data_available es attached = Val s"
  shows "reader s \<and> accepted es = map int [0..<nat (expected_next s)]
    \<and> 0 \<le> expected_next s \<and> expected_next s < 2 ^ 31
    \<and> (all_received s \<longleftrightarrow> EXPECTED_SAMPLES \<le> expected_next s)"
  using assms
proof (induction es arbitrary: s rule: rev_induct)
  case Nil
  then show ?case by (auto simp: attached_def sub_state_def EXPECTED_SAMPLES_def)
next
  case (snoc e es)
  then obtain s0 where s0: "deliver on_data_available es attached = Val s0" and e: "on_data_available e s0 = Val s"
    by (auto simp: deliver_append split: outcome.splits)
  obtain rc v valid where e': "e = Taken rc v valid" by (cases e)
  show ?case
    using e snoc.IH [OF s0] unfolding e'
    by (auto simp: Let_def nat_add_distrib EXPECTED_SAMPLES_def split: if_splits)
qed

lemma accepted_length: "length (accepted es) \<le> length es"
proof (induction es rule: rev_induct)
  case (snoc e es)
  then show ?case by (cases e) auto
qed simp

text \<open>How the listener can end the process.\<close>

lemma listener_breaks:
  assumes "deliver on_data_available es attached = x"
  shows "(\<forall>n. x = Exit n \<longrightarrow> n = 1) \<and> (\<forall>m. x = Crash m \<longrightarrow> 2 ^ 31 - 1 < length es) \<and> x \<noteq> OutOfFuel"
  using assms
proof (induction es arbitrary: x rule: rev_induct)
  case Nil
  then show ?case by auto
next
  case (snoc e es)
  obtain rc v valid where e': "e = Taken rc v valid" by (cases e)
  show ?case
  proof (cases "deliver on_data_available es attached")
    case (Val s0)
    have l: "nat (expected_next s0) \<le> length es" and r: "reader s0"
      using listener_counts [OF Val] accepted_length [of es] by auto
    have "x = on_data_available e s0"
      using snoc.prems Val by (simp add: deliver_append split: outcome.splits)
    then show ?thesis
      using l r by (auto simp: e' Let_def split: if_splits)
  qed (use snoc in \<open>auto simp: deliver_append\<close>)
qed

fun installs_waiting :: "'v app_call \<Rightarrow> bool" where
  "installs_waiting (printf line) = (line = ''Subscriber: waiting for 10 samples...'')"
| "installs_waiting _ = False"

lemma setup_not_waiting: "setup_call c \<Longrightarrow> \<not> installs_waiting c"
  by (cases c rule: setup_call.cases) simp_all

lemma heeds_waiting [simp]: "heeds installs_waiting (listening installs_waiting)"
  by (rule heeds_listening) simp

lemmas early_waiting = early_need [OF heeds_waiting] early_check [OF heeds_waiting] early_step [OF heeds_waiting]

definition received_all :: "SubState \<Rightarrow> (HelloWorld, HelloWorld take_event) atrace \<Rightarrow> bool" where
  "received_all s tr \<longleftrightarrow>
     take 10 (accepted (events tr)) = map int [0..<10]
     \<and> only printed tr = [''Create topic: HelloWorld'', ''Create reader for topic: HelloWorld'',
         ''Subscriber: waiting for 10 samples...'', ''Subscriber: received all 10 samples in order.'']
     \<and> closes tr"

lemma received_trace:
  assumes "only destroyed tr = []" and "\<exists>r. (Entity zzdds_create_factory, r) \<in> set tr \<and> ret r = f"
    and "only printed tr = [''Create topic: HelloWorld'', ''Create reader for topic: HelloWorld'', ''Subscriber: waiting for 10 samples...'']"
    and "idle q" and "take 10 (accepted (events (q @ tr))) = map int [0..<10]"
  shows "received_all s ((Entity (zzdds_destroy_factory f), r3) # (printf ''Subscriber: received all 10 samples in order.'', r2)
     # (Entity (delete_datareader sub dr), r1) # q @ tr)"
proof -
  have "length (accepted (events (q @ tr))) \<ge> 10"
    using arg_cong [OF assms(5), of length] by simp
  then have "take 10 (accepted (events (q @ tr)) @ es) = map int [0..<10]" for es
    by (subst take_append) (simp only: assms(5) diff_is_0_eq' take_0 append_Nil2)
  moreover have "closes ((Entity (zzdds_destroy_factory f), r3) # (printf ''Subscriber: received all 10 samples in order.'', r2)
     # (Entity (delete_datareader sub dr), r1) # q @ tr)"
    using assms(1,2,4) by (intro closesI) auto
  note this calculation [of "accepted (evs r1) @ accepted (evs r2) @ accepted (evs r3)"]
  then show ?thesis
    using assms(1-4)
    by (simp add: received_all_def del: take_append)
qed

lemma synced_counts:
  "synced on_data_available attached s tr \<Longrightarrow> all_received s \<Longrightarrow> take 10 (accepted (events tr)) = map int [0..<10]"
  using listener_counts [of "events tr" s] by (auto simp: synced_def EXPECTED_SAMPLES_def take_map)

lemma hello_subscriber_wpt:
  "wpt (listening installs_waiting) (verdict on_data_available attached 30000 received_all) (hello_subscriber argv) s []"
  unfolding hello_subscriber_def Let_def
  apply (rule wpt_open_participant [OF heeds_waiting setup_not_waiting], assumption)
  apply ((erule early_waiting, (simp; fail)) | rule wpt_PutI wpt_GetI)+
  apply (fold attached_def)
  apply (rule wpt_step, erule early_stands, simp, simp)
  apply (rule wpt_await_until [where R = "\<lambda>t. take 10 (accepted (events t)) = map int [0..<10]", OF reads_load],
      erule synced_counts, assumption, assumption, simp)
  apply (rule wpt_ifI, rule wpt_GetI, erule wpt_fail, simp add: POLL_PERIOD_MS_def RECEIVE_TIMEOUT_MS_def)
  apply (erule wpt_step, simp, simp)+
  apply (simp add: verdict_def stands_def POLL_PERIOD_MS_def RECEIVE_TIMEOUT_MS_def)
  apply (rule received_trace)
      apply (simp_all add: opened_factory)
  done

text \<open>The hello_world subscriber, when no data reaches its listener before \<open>state.reader\<close> is set:
  it sleeps 30 seconds at most; it ends with 0 only when the first ten valid samples its listener took
  were counted 0 to 9 in this order, after the documented lines and with the factory destroyed; it
  ends with 1 after a \<open>FAIL:\<close> line or by \<open>exit(1)\<close> in the listener; and it has no other end short of
  2147483648 listener iterations, where \<open>expected_next\<close> overflows.\<close>

theorem hello_subscriber_contract:
  assumes "\<And>tr c. listening installs_waiting tr c (env tr c)"
  shows "case run env (hello_subscriber argv) s [] of (x, s', tr) \<Rightarrow>
    slept tr \<le> 30000 \<and> (x = Val 1 \<and> failed tr \<or> x = Val 0 \<and> received_all s' tr)
    \<or> x = Exit 1 \<or> (\<exists>m. x = Crash m) \<and> 2 ^ 31 - 1 < length (events tr)"
proof -
  obtain x s' tr where r: "run env (hello_subscriber argv) s [] = (x, s', tr)"
    by (cases "run env (hello_subscriber argv) s []")
  have "verdict on_data_available attached 30000 received_all x s' tr"
    by (rule wpt_run [OF hello_subscriber_wpt assms r])
  then show ?thesis
    using listener_breaks [OF refl, of "events tr"] unfolding r verdict_def by (cases x) auto
qed

text \<open>A middleware that has the ten samples ready when the subscriber starts to wait.\<close>

fun relay_env :: "(HelloWorld app_call, (HelloWorld, HelloWorld take_event) answer) env" where
  "relay_env tr (Entity (zzdds_factory_is_nil f)) = answers 0 []"
| "relay_env tr (Entity (type_support_register dp t)) = answers 0 []"
| "relay_env tr (Entity c) = answers 1 []"
| "relay_env tr (printf line) = answers 0 (if installs_waiting (printf line :: HelloWorld app_call)
     then map (\<lambda>i. Taken 0 (hello_sample i) True) [0, 1, 2, 3, 4, 5, 6, 7, 8, 9] @ [Taken 11 (hello_sample 0) False] else [])"
| "relay_env tr c = answers 0 []"

lemma relay_env_listens: "listening installs_waiting tr c (relay_env tr c)"
  by (cases "(tr, c)" rule: relay_env.cases) (auto simp: listening_def answers_def)

lemma relay_run: "fst (run relay_env (hello_subscriber [''s'', ''-d'', ''3'']) sub_state []) = Val 0"
  by (simp add: evaluate hello_subscriber_def hello_sample_def sub_state_def
      EXPECTED_SAMPLES_def POLL_PERIOD_MS_def RECEIVE_TIMEOUT_MS_def)

theorem hello_subscriber_contract_witness:
  "case run relay_env (hello_subscriber [''s'', ''-d'', ''3'']) sub_state [] of (x, s', tr) \<Rightarrow>
    slept tr \<le> 30000 \<and> x = Val 0 \<and> received_all s' tr"
  using hello_subscriber_contract [OF relay_env_listens, of "[''s'', ''-d'', ''3'']" sub_state] relay_run
  by (auto simp: split_beta)

section \<open>From one program to the other\<close>

text \<open>The listener accepts consecutive counts, with any number of empty takes between them.\<close>

definition take_or_empty :: "'v take_event \<Rightarrow> bool" where
  "take_or_empty e \<longleftrightarrow> (case e of Taken rc v valid \<Rightarrow> rc = DDS_RETCODE_NO_DATA \<or> rc = DDS_RETCODE_OK \<and> valid)"

lemma listener_accepts:
  assumes "list_all take_or_empty es" and "accepted es = map int [n..<m]" and "n \<le> m" and "m \<le> 10"
    and "reader s" and "expected_next s = int n" and "all_received s \<longleftrightarrow> n = 10"
  shows "\<exists>s'. deliver on_data_available es s = Val s' \<and> expected_next s' = int m \<and> (all_received s' \<longleftrightarrow> m = 10)"
  using assms
proof (induction es arbitrary: n s)
  case Nil
  then have "n = m" by (metis accepted_simps(1) diff_is_0_eq le_antisym length_map length_upt list.size(3))
  with Nil show ?case by simp
next
  case (Cons e es)
  obtain rc v valid where e: "e = Taken rc v valid" by (cases e)
  have acc: "accepted (e # es) = accepted [e] @ accepted es"
    using accepted_simps(2) [of "[e]" es] by simp
  show ?case
  proof (cases "rc = DDS_RETCODE_NO_DATA")
    case True
    have "\<exists>s'. deliver on_data_available es (s\<lparr>in_listener := False\<rparr>) = Val s' \<and> expected_next s' = int m \<and> (all_received s' \<longleftrightarrow> m = 10)"
      using Cons.prems True acc by (intro Cons.IH [of n]) (auto simp: e)
    with True Cons.prems(5) show ?thesis by (simp add: e)
  next
    case False
    then have ok: "rc = DDS_RETCODE_OK" "valid"
      using Cons.prems(1) by (auto simp: e take_or_empty_def)
    then have "map int [n..<m] = count v # accepted es"
      using Cons.prems(2) acc by (simp add: e)
    then have n: "n < m" "count v = int n" "accepted es = map int [Suc n..<m]"
      by (auto simp: upt_rec [of n m] split: if_splits)
    let ?s = "s\<lparr>expected_next := int n + 1, all_received := all_received s \<or> int n + 1 = EXPECTED_SAMPLES, in_listener := True\<rparr>"
    have "\<exists>s'. deliver on_data_available es ?s = Val s' \<and> expected_next s' = int m \<and> (all_received s' \<longleftrightarrow> m = 10)"
      using Cons.prems n by (intro Cons.IH [of "Suc n"]) (auto simp: EXPECTED_SAMPLES_def)
    then show ?thesis
      using ok n Cons.prems by (simp add: e Let_def)
  qed
qed

text \<open>C8. From the publisher to the subscriber: when the middleware hands the subscriber's listener what
  a successful run of the publisher wrote, in the order of writing and with empty takes anywhere in
  between, the listener accepts all of it, counts to ten and raises \<open>all_received\<close>. The listener starts in the
  state \<open>attached\<close>, that is, after \<open>main\<close> has stored the reader in \<open>state.reader\<close>: no callback is
  taken to run in the window between the creation of the reader and that store, where it would take through a
  null reader (the race shown at the end of this theory). The publisher's run is one that ended with 0, against a
  middleware that calls no writer listener before it is installed.\<close>

theorem hello_end_to_end:
  assumes "\<And>tr c. listening installs_writer_listener tr c (env tr c)"
    and "run env (hello_publisher argv) s [] = (Val 0, s', tr)"
    and "list_all take_or_empty es" and "List.map_filter taken_value es = map snd (only written tr)"
  shows "\<exists>s''. deliver on_data_available es attached = Val s'' \<and> expected_next s'' = 10 \<and> all_received s''"
proof -
  have "published s' tr"
    using wpt_run [OF hello_publisher_wpt assms(1,2)] by (simp add: verdict_def)
  then obtain dw where "only written tr = hello_sent dw SAMPLE_COUNT"
    by (auto simp: published_def)
  then have "accepted es = map int [0..<10]"
    using assms(4) by (simp add: accepted_def hello_sent_def SAMPLE_COUNT_def hello_sample_def comp_def)
  then show ?thesis
    using listener_accepts [OF assms(3), of 0 10 attached] by (auto simp: attached_def sub_state_def)
qed

definition relayed :: "HelloWorld take_event list" where
  "relayed = Taken 11 (hello_sample 0) False
     # map (\<lambda>v. Taken 0 v True) (map snd (only written (snd (snd (run smooth_env (hello_publisher [''p'']) pub_state [])))))"

theorem hello_end_to_end_witness:
  "\<exists>s. deliver on_data_available relayed attached = Val s \<and> expected_next s = 10 \<and> all_received s"
proof -
  obtain s' tr where r: "run smooth_env (hello_publisher [''p'']) pub_state [] = (Val 0, s', tr)"
    using hello_run by (metis fst_conv surj_pair)
  have "list_all take_or_empty relayed"
    by (auto simp: relayed_def take_or_empty_def list_all_iff)
  moreover have "List.map_filter taken_value relayed = map snd (only written tr)"
    by (simp add: relayed_def r List.map_filter_def comp_def)
  ultimately show ?thesis
    by (rule hello_end_to_end [OF smooth_env_listens r])
qed

section \<open>The window between creation and \<open>state.reader\<close>\<close>

text \<open>A sample that arrives while the reader is being created.\<close>

fun eager_env :: "(HelloWorld app_call, (HelloWorld, HelloWorld take_event) answer) env" where
  "eager_env tr (Entity (zzdds_factory_is_nil f)) = answers 0 []"
| "eager_env tr (Entity (type_support_register dp t)) = answers 0 []"
| "eager_env tr (Entity (create_datareader s t q listener)) =
     answers 1 (if listener then [Taken 0 (hello_sample 0) True] else [])"
| "eager_env tr (Entity c) = answers 1 []"
| "eager_env tr c = answers 0 []"

text \<open>The listener is attached when the reader is created, before \<open>state.reader\<close> is set: a middleware
  that keeps the rule to call no listener before it is installed can still make the subscriber call
  \<open>take\<close> through a null reader, with a sample that arrives during \<open>create_datareader\<close>.\<close>

theorem hello_listener_race:
  "\<exists>env. (\<forall>tr c. listening installs_reader_listener tr c (env tr c))
     \<and> fst (run env (hello_subscriber [''s'']) sub_state []) = Crash ''take through a null reader''"
proof (intro exI conjI allI)
  show "listening installs_reader_listener tr c (eager_env tr c)" for tr c
    by (cases "(tr, c)" rule: eager_env.cases) (auto simp: listening_def answers_def)
  show "fst (run eager_env (hello_subscriber [''s'']) sub_state []) = Crash ''take through a null reader''"
    by (simp add: evaluate hello_subscriber_def sub_state_def)
qed

end
