(* ===== verification/Registry.thy ===== *)
theory Registry
  imports Example_Publisher
begin

text \<open>
  The two programs of \<open>examples/c/registry\<close>. The publisher drives three instances of a keyed topic
  through three lifecycles; the subscriber's listener follows the state of each instance and lets
  \<open>main\<close> end when all three have reached the state they should end in.
\<close>

section \<open>Data\<close>

record SensorReading =
  sensor_id :: int
  reading :: int

section \<open>Publisher\<close>

definition key_of :: "int \<Rightarrow> SensorReading" where
  "key_of sid = \<lparr>sensor_id = sid, reading = 0\<rparr>"

text \<open>Seconds are converted to \<open>int32_t\<close>, nanoseconds to \<open>uint32_t\<close>.\<close>

definition realtime_now :: "((int \<times> nat) \<Rightarrow> (PubState, SensorReading, pub_event, 'a) app)
    \<Rightarrow> (PubState, SensorReading, pub_event, 'a) app" where
  "realtime_now k = sys pub_listener clock_realtime (\<lambda>r. k (to_int32 (num r), nat (ret r mod 2 ^ 32)))"

text \<open>Instance A: register, write twice, dispose.\<close>

definition instance_a :: "int \<Rightarrow> (int \<Rightarrow> (PubState, SensorReading, pub_event, int) app)
    \<Rightarrow> (PubState, SensorReading, pub_event, int) app" where
  "instance_a w k = (let h = pub_listener in
     sys h (Data (register_instance w (key_of 1))) (\<lambda>r. let handle_a = ret r in
     say h ''Publisher: registered instance sensor_id=1'' (
     check h (Data (write_data w \<lparr>sensor_id = 1, reading = 100\<rparr> handle_a)) ''write() failed for sensor_id=1'' (
     say h ''Publisher: wrote sensor_id=1 value=100'' (
     check h (Data (write_data w \<lparr>sensor_id = 1, reading = 101\<rparr> handle_a)) ''write() failed for sensor_id=1'' (
     say h ''Publisher: wrote sensor_id=1 value=101'' (
     check h (Data (dispose w (key_of 1) handle_a)) ''dispose() failed for sensor_id=1'' (
     say h ''Publisher: disposed sensor_id=1'' (k handle_a)))))))))"

text \<open>Instance B: register, write with a time stamp, unregister.\<close>

definition instance_b :: "int \<Rightarrow> (PubState, SensorReading, pub_event, int) app
    \<Rightarrow> (PubState, SensorReading, pub_event, int) app" where
  "instance_b w p = (let h = pub_listener in
     sys h (Data (register_instance w (key_of 2))) (\<lambda>r. let handle_b = ret r in
     say h ''Publisher: registered instance sensor_id=2'' (
     realtime_now (\<lambda>ts.
     check h (Data (write_w_timestamp w \<lparr>sensor_id = 2, reading = 200\<rparr> handle_b ts)) ''write_w_timestamp() failed for sensor_id=2'' (
     say h ''Publisher: wrote sensor_id=2 value=200'' (
     check h (Data (unregister w (key_of 2) handle_b)) ''unregister() failed for sensor_id=2'' (
     say h ''Publisher: unregistered sensor_id=2'' p)))))))"

text \<open>Instance C: register, write, left alive.\<close>

definition instance_c :: "int \<Rightarrow> (PubState, SensorReading, pub_event, int) app
    \<Rightarrow> (PubState, SensorReading, pub_event, int) app" where
  "instance_c w p = (let h = pub_listener in
     sys h (Data (register_instance w (key_of 3))) (\<lambda>r. let handle_c = ret r in
     say h ''Publisher: registered instance sensor_id=3'' (
     check h (Data (write_data w \<lparr>sensor_id = 3, reading = 300\<rparr> handle_c)) ''write() failed for sensor_id=3'' (
     say h ''Publisher: wrote sensor_id=3 value=300'' p))))"

definition key_round_trip :: "int \<Rightarrow> int \<Rightarrow> (PubState, SensorReading, pub_event, int) app
    \<Rightarrow> (PubState, SensorReading, pub_event, int) app" where
  "key_round_trip w handle_a p = (let h = pub_listener in
     sys h (Data (get_key_value w handle_a)) (\<lambda>r.
       if ret r \<noteq> 0 then fail h ''get_key_value() failed for sensor_id=1''
       else if num r \<noteq> 1
       then fail h (''get_key_value() round-trip mismatch: expected sensor_id=1, got sensor_id='' @ dec_int (num r))
       else say h ''Publisher: get_key_value round-trip OK for sensor_id=1'' p))"

definition registry_publisher :: "string list \<Rightarrow> (PubState, SensorReading, pub_event, int) app" where
  "registry_publisher argv =
     (let h = pub_listener in
      open_participant h argv ''SensorReading'' ''register_type_support failed'' (\<lambda>factory dp.
      need h (Entity (create_topic dp ''SensorReading'' ''SensorReading'')) ''create_topic() failed'' (\<lambda>topic.
      say h ''Create topic: SensorReading'' (
      need h (Entity (create_publisher dp)) ''create_publisher() failed'' (\<lambda>pub.
      sys h (Entity (get_default_datawriter_qos pub)) (\<lambda>dflt.
      Put pub_state (
      need h (Entity (create_datawriter_ex pub topic (reliable_keep_all (num dflt)))) ''create_datawriter_ex() failed'' (\<lambda>dw.
      say h ''Create writer for topic: SensorReading'' (
      bind_prog await_reader (\<lambda>ready.
      if \<not> ready then fail h ''no reliable reader became ready within 10s''
      else instance_a dw (\<lambda>handle_a. instance_b dw (instance_c dw (key_round_trip dw handle_a (
      bind_prog await_drain (\<lambda>drained.
      if \<not> drained then fail h ''subscriber did not disconnect within 15s''
      else say h ''Publisher: done.'' (
      sys h (Entity (zzdds_destroy_factory factory)) (\<lambda>_. Return 0)))))))))))))))))"

section \<open>Subscriber\<close>

definition state_name :: "nat \<Rightarrow> string" where
  "state_name s =
     (if s = DDS_ALIVE_INSTANCE_STATE then ''ALIVE''
      else if s = DDS_NOT_ALIVE_DISPOSED_INSTANCE_STATE then ''NOT_ALIVE_DISPOSED''
      else if s = DDS_NOT_ALIVE_NO_WRITERS_INSTANCE_STATE then ''NOT_ALIVE_NO_WRITERS''
      else ''UNKNOWN'')"

record InstanceTrack =
  track_id :: int
  seen_alive :: bool
  reached_terminal :: bool
  track_handle :: int

text \<open>\<open>taking\<close> says that an invocation of the listener is inside its loop; \<open>became_done\<close> is that
  invocation's local variable.\<close>

record RegistryState =
  reg_reader :: bool
  tracks :: "InstanceTrack list"
  all_done :: bool
  taking :: bool
  became_done :: bool

definition new_track :: "int \<Rightarrow> InstanceTrack" where
  "new_track sid = \<lparr>track_id = sid, seen_alive = False, reached_terminal = False, track_handle = 0\<rparr>"

definition registry_state :: RegistryState where
  "registry_state = \<lparr>reg_reader = False, tracks = [new_track 1, new_track 2, new_track 3], all_done = False,
     taking = False, became_done = False\<rparr>"

text \<open>The index of the first track of a sensor; \<open>None\<close> is the \<open>exit(1)\<close> for an unexpected one.\<close>

fun track_for :: "InstanceTrack list \<Rightarrow> int \<Rightarrow> nat option" where
  "track_for [] sid = None"
| "track_for (t # ts) sid = (if track_id t = sid then Some 0 else map_option Suc (track_for ts sid))"

definition all_instances_done :: "RegistryState \<Rightarrow> bool" where
  "all_instances_done state = list_all reached_terminal (tracks state)"

text \<open>The \<open>switch\<close> over the instance state.\<close>

definition advance_track :: "nat \<Rightarrow> InstanceTrack \<Rightarrow> InstanceTrack outcome" where
  "advance_track instance_state track =
     (if instance_state = DDS_ALIVE_INSTANCE_STATE
      then let t = track\<lparr>seen_alive := True\<rparr>
           in Val (if track_id t = 3 then t\<lparr>reached_terminal := True\<rparr> else t)
      else if instance_state = DDS_NOT_ALIVE_DISPOSED_INSTANCE_STATE
      then if track_id track \<noteq> 1 then Exit 1
           else if \<not> seen_alive track then Exit 1
           else Val (track\<lparr>reached_terminal := True\<rparr>)
      else if instance_state = DDS_NOT_ALIVE_NO_WRITERS_INSTANCE_STATE
      then if track_id track \<noteq> 2 then Exit 1
           else if \<not> seen_alive track then Exit 1
           else Val (track\<lparr>reached_terminal := True\<rparr>)
      else Exit 1)"

text \<open>One iteration of the listener's loop: the result of \<open>take\<close> (return code, sensor, instance state
  and handle) and what \<open>lookup_instance\<close> answers for sensor 3 should it be asked.\<close>

datatype registry_event = Sensor_taken int int nat int int

definition confirm_done :: "int \<Rightarrow> RegistryState \<Rightarrow> RegistryState outcome" where
  "confirm_done looked_up state =
     (if all_instances_done state \<and> \<not> all_done state \<and> \<not> became_done state
      then case track_for (tracks state) 3 of
             None \<Rightarrow> Exit 1
           | Some c \<Rightarrow>
               if looked_up = 0 \<or> looked_up \<noteq> track_handle (tracks state ! c) then Exit 1
               else Val (state\<lparr>became_done := True\<rparr>)
      else Val state)"

fun registry_listener :: "(registry_event, RegistryState) handler" where
  "registry_listener (Sensor_taken rc sid instance_state handle looked_up) state =
     (if \<not> reg_reader state then Crash ''take through a null reader''
      else let state = (if taking state then state else state\<lparr>taking := True, became_done := False\<rparr>) in
      if rc = DDS_RETCODE_NO_DATA
      then Val (state\<lparr>taking := False, all_done := all_done state \<or> became_done state\<rparr>)
      else if rc \<noteq> DDS_RETCODE_OK then Exit 1
      else case track_for (tracks state) sid of
        None \<Rightarrow> Exit 1
      | Some i \<Rightarrow>
          (case advance_track instance_state ((tracks state ! i)\<lparr>track_handle := handle\<rparr>) of
             Val t \<Rightarrow> confirm_done looked_up (state\<lparr>tracks := (tracks state)[i := t]\<rparr>)
           | Exit n \<Rightarrow> Exit n | Crash m \<Rightarrow> Crash m | OutOfFuel \<Rightarrow> OutOfFuel))"

definition REGISTRY_RECEIVE_TIMEOUT_MS :: nat where "REGISTRY_RECEIVE_TIMEOUT_MS = 30000"

definition registry_subscriber :: "string list \<Rightarrow> (RegistryState, SensorReading, registry_event, int) app" where
  "registry_subscriber argv =
     (let h = registry_listener in
      open_participant h argv ''SensorReading'' ''register_type_support failed'' (\<lambda>factory dp.
      need h (Entity (create_topic dp ''SensorReading'' ''SensorReading'')) ''create_topic() failed'' (\<lambda>topic.
      say h ''Create topic: SensorReading'' (
      need h (Entity (create_subscriber dp)) ''create_subscriber() failed'' (\<lambda>sub.
      sys h (Entity (get_default_datareader_qos sub)) (\<lambda>dflt.
      Put registry_state (
      need h (Entity (create_datareader sub topic (reliable_keep_all (num dflt)) False)) ''create_datareader() failed'' (\<lambda>dr.
      say h ''Create reader for topic: SensorReading'' (
      Get (\<lambda>s. Put (s\<lparr>reg_reader := True\<rparr>) (
      check h (Entity (set_listener dr)) ''set_listener() failed'' (
      say h ''Subscriber: waiting for all three instance lifecycles...'' (
      bind_prog (poll h POLL_PERIOD_MS REGISTRY_RECEIVE_TIMEOUT_MS (load h all_done Return)) (\<lambda>done.
      if \<not> done then fail h ''did not observe all three instance lifecycles within 30s''
      else sys h (Entity (delete_datareader sub dr)) (\<lambda>_.
      say h ''Subscriber: all three instance lifecycles observed correctly.'' (
      sys h (Entity (zzdds_destroy_factory factory)) (\<lambda>_. Return 0)))))))))))))))))"

end
