(* ===== verification/Registry_Contracts.thy ===== *)
theory Registry_Contracts
  imports Registry
begin

text \<open>
  What the two \<open>registry\<close> programs guarantee: the publisher's three lifecycles as the exact sequence of
  writer operations, and the subscriber's listener as a state machine per instance.
\<close>

section \<open>The publisher's contract\<close>

text \<open>The writer operations of the three lifecycles, for the handles the registrations returned.\<close>

definition lifecycles :: "int \<Rightarrow> int \<Rightarrow> int \<Rightarrow> int \<Rightarrow> int \<times> nat \<Rightarrow> SensorReading data_call list" where
  "lifecycles w ha hb hc ts =
     [register_instance w (key_of 1), write_data w \<lparr>sensor_id = 1, reading = 100\<rparr> ha,
      write_data w \<lparr>sensor_id = 1, reading = 101\<rparr> ha, dispose w (key_of 1) ha,
      register_instance w (key_of 2), write_w_timestamp w \<lparr>sensor_id = 2, reading = 200\<rparr> hb ts, unregister w (key_of 2) hb,
      register_instance w (key_of 3), write_data w \<lparr>sensor_id = 3, reading = 300\<rparr> hc,
      get_key_value w ha]"

definition lifecycle_lines :: "string list" where
  "lifecycle_lines =
     [''Publisher: registered instance sensor_id=1'', ''Publisher: wrote sensor_id=1 value=100'',
      ''Publisher: wrote sensor_id=1 value=101'', ''Publisher: disposed sensor_id=1'',
      ''Publisher: registered instance sensor_id=2'', ''Publisher: wrote sensor_id=2 value=200'',
      ''Publisher: unregistered sensor_id=2'', ''Publisher: registered instance sensor_id=3'',
      ''Publisher: wrote sensor_id=3 value=300'', ''Publisher: get_key_value round-trip OK for sensor_id=1'']"

text \<open>A registration that returned \<open>handle\<close>.\<close>

definition registered :: "int \<Rightarrow> int \<Rightarrow> int \<Rightarrow> (SensorReading, 'e) atrace \<Rightarrow> bool" where
  "registered w sid handle tr \<longleftrightarrow> (\<exists>r. (Data (register_instance w (key_of sid)), r) \<in> set tr \<and> ret r = handle)"

text \<open>What the three blocks add to a trace.\<close>

definition drove :: "int \<Rightarrow> (SensorReading, pub_event) atrace \<Rightarrow> bool" where
  "drove w q \<longleftrightarrow>
     (\<exists>ha hb hc ts. only data_op q = lifecycles w ha hb hc ts
        \<and> registered w 1 ha q \<and> registered w 2 hb q \<and> registered w 3 hc q)
     \<and> only printed q = lifecycle_lines \<and> only destroyed q = []"

lemma wpt_lifecycles:
  assumes "stands pub_listener i k s tr" and "k \<le> B"
    and "\<And>s' q. stands pub_listener i k s' (q @ tr) \<Longrightarrow> drove w q \<Longrightarrow> wpt G (verdict pub_listener i B P) p s' (q @ tr)"
  shows "wpt G (verdict pub_listener i B P)
    (instance_a w (\<lambda>ha. instance_b w (instance_c w (key_round_trip w ha p)))) s tr"
proof -
  have fin: "wpt G (verdict pub_listener i B P) p s' tr'"
    if "stands pub_listener i k s' tr'" "grown tr q tr'" "drove w q" for s' tr' q
    using that assms(3) by (simp add: grown_def)
  show ?thesis
    unfolding instance_a_def instance_b_def instance_c_def key_round_trip_def realtime_now_def Let_def
    apply (insert assms(1))
    apply (((erule wpt_step, simp, simp) | (erule wpt_check, simp add: assms(2))
        | (rule wpt_ifI, erule wpt_fail, rule assms(2)))+)
    apply (erule fin)
     apply (rule grown_rules)+
    apply (auto simp: drove_def lifecycles_def lifecycle_lines_def registered_def)
    done
qed

definition registry_published :: "PubState \<Rightarrow> (SensorReading, pub_event) atrace \<Rightarrow> bool" where
  "registry_published s tr \<longleftrightarrow>
     before is_write reported_ready tr \<and> saw_disconnect (events tr)
     \<and> (\<exists>w ha hb hc ts. only data_op tr = lifecycles w ha hb hc ts
          \<and> registered w 1 ha tr \<and> registered w 2 hb tr \<and> registered w 3 hc tr)
     \<and> only printed tr = [''Create topic: SensorReading'', ''Create writer for topic: SensorReading'']
          @ lifecycle_lines @ [''Publisher: done.'']
     \<and> closes tr"

lemma registry_published_trace:
  assumes "before is_write reported_ready tr" and "only data_op tr = []" and "only destroyed tr = []"
    and "only printed tr = [''Create topic: SensorReading'', ''Create writer for topic: SensorReading'']"
    and "\<exists>r. (Entity zzdds_create_factory, r) \<in> set tr \<and> ret r = f"
    and "idle q1" and "reported_ready (q1 @ tr)" and "drove w q2" and "idle q3"
    and "saw_disconnect (events (q3 @ q2 @ q1 @ tr))"
  shows "registry_published s ((Entity (zzdds_destroy_factory f), r2) # (printf ''Publisher: done.'', r1) # q3 @ q2 @ q1 @ tr)"
proof -
  have "before is_write reported_ready (q1 @ tr)"
    using assms(1) idle_not_write [OF assms(6)] by (rule before_other)
  then have "before is_write reported_ready ((q3 @ q2) @ q1 @ tr)"
    using assms(7) by (rule writes_after_ready)
  moreover have "closes ((Entity (zzdds_destroy_factory f), r2) # (printf ''Publisher: done.'', r1) # q3 @ q2 @ q1 @ tr)"
    using assms by (intro closesI) (auto simp: drove_def)
  moreover have "registered w sid ha q2 \<Longrightarrow> registered w sid ha (x # y # q3 @ q2 @ q1 @ tr)" for sid ha x y
    by (auto simp: registered_def)
  moreover obtain ha hb hc ts where d: "only data_op q2 = lifecycles w ha hb hc ts"
    "registered w 1 ha q2" "registered w 2 hb q2" "registered w 3 hc q2"
    and p: "only printed q2 = lifecycle_lines"
    using assms(8) by (auto simp: drove_def)
  moreover have "only data_op (q3 @ q2 @ q1 @ tr) = lifecycles w ha hb hc ts"
    using assms d by simp
  moreover have "only printed (q3 @ q2 @ q1 @ tr) = [''Create topic: SensorReading'', ''Create writer for topic: SensorReading''] @ lifecycle_lines"
    using assms p by simp
  ultimately show ?thesis
    using saw_disconnect_append [OF assms(10), of "evs r1 @ evs r2"] unfolding registry_published_def
    by (intro conjI exI [of _ w] exI [of _ ha] exI [of _ hb] exI [of _ hc] exI [of _ ts])
      (simp_all del: only_simps(3) add: is_write.simps)
qed

lemma registry_publisher_wpt:
  "wpt (listening installs_writer_listener) (verdict pub_listener pub_state 25000 registry_published) (registry_publisher argv) s []"
  unfolding registry_publisher_def Let_def
  apply (rule wpt_open_participant [OF heeds_writer setup_not_writer], assumption)
  apply (erule early_writer, (simp; fail))+
  apply (rule wpt_PutI, rule wpt_need, erule early_stands, simp)
  apply (erule wpt_step, simp, simp)
  apply (erule wpt_await_reader, simp, rule wpt_ifI, erule wpt_fail, simp)
  apply (erule wpt_lifecycles, simp)
  apply (erule wpt_await_drain, simp, rule wpt_ifI, erule wpt_fail, simp)
  apply (erule wpt_step, simp, simp)+
  apply (simp add: verdict_def stands_def)
  apply (rule registry_published_trace)
           apply (simp_all add: opened_no_write opened_factory)
  done

text \<open>The registry publisher against an arbitrary middleware: it sleeps 25 seconds at most, and it
  ends with 1 right after a \<open>FAIL:\<close> line, or with 0 after exactly the operations of the three
  lifecycles in order, each with the handle its own registration returned and none before a ready
  reader had been reported; then the reader has gone, the documented lines are printed and the factory
  is destroyed.\<close>

theorem registry_publisher_contract:
  assumes "\<And>tr c. listening installs_writer_listener tr c (env tr c)"
  shows "case run env (registry_publisher argv) s [] of (x, s', tr) \<Rightarrow>
    slept tr \<le> 25000 \<and> (x = Val 1 \<and> failed tr \<or> x = Val 0 \<and> registry_published s' tr)"
  using wpt_run_result [where e = env, OF registry_publisher_wpt assms, of argv s]
  by (simp add: verdict_def split_beta) blast

fun registry_env :: "(SensorReading app_call, (SensorReading, pub_event) answer) env" where
  "registry_env tr (Data (register_instance w v)) = answers (10 + sensor_id v) []"
| "registry_env tr (Data (get_key_value w ha)) = (answers 0 [])\<lparr>num := ha - 10\<rparr>"
| "registry_env tr c = smooth_env tr c"

lemma registry_env_listens: "listening installs_writer_listener tr c (registry_env tr c)"
  using smooth_env_listens [of tr c]
  by (cases "(tr, c)" rule: registry_env.cases) (auto simp: listening_def answers_def)

lemma registry_run: "fst (run registry_env (registry_publisher [''p'']) pub_state []) = Val 0"
  by (simp add: evaluate registry_publisher_def await_reader_def await_drain_def instance_a_def instance_b_def
     instance_c_def key_round_trip_def realtime_now_def key_of_def
     POLL_PERIOD_MS_def READER_READY_TIMEOUT_MS_def DRAIN_TIMEOUT_MS_def pub_state_def
     on_publication_matched_def on_reliable_reader_ready_def)

theorem registry_publisher_contract_witness:
  "case run registry_env (registry_publisher [''p'']) pub_state [] of (x, s', tr) \<Rightarrow>
    slept tr \<le> 25000 \<and> x = Val 0 \<and> registry_published s' tr"
  using registry_publisher_contract [OF registry_env_listens, of "[''p'']" pub_state] registry_run
  by (auto simp: split_beta)

section \<open>The listener as a state machine\<close>

text \<open>The instance states the listener was shown, in order.\<close>

fun shown :: "registry_event \<Rightarrow> (int \<times> nat) list" where
  "shown (Sensor_taken rc sid st h l) = (if rc = DDS_RETCODE_OK then [(sid, st)] else [])"

definition observed :: "registry_event list \<Rightarrow> (int \<times> nat) list" where
  "observed es = concat (map shown es)"

text \<open>\<open>a\<close> and, later, \<open>b\<close>.\<close>

fun then_seen :: "'a \<Rightarrow> 'a \<Rightarrow> 'a list \<Rightarrow> bool" where
  "then_seen a b [] = False"
| "then_seen a b (x # xs) = (x = a \<and> b \<in> set xs \<or> then_seen a b xs)"

lemma then_seen_snoc: "then_seen a b (xs @ [y]) \<longleftrightarrow> then_seen a b xs \<or> y = b \<and> a \<in> set xs"
  by (induction xs) auto

text \<open>The handle sensor 3 was last seen with.\<close>

fun see_handle :: "int \<Rightarrow> registry_event \<Rightarrow> int" where
  "see_handle prev (Sensor_taken rc sid st h l) = (if rc = DDS_RETCODE_OK \<and> sid = 3 then h else prev)"

definition last_handle :: "registry_event list \<Rightarrow> int" where
  "last_handle es = foldl see_handle 0 es"

definition registry_attached :: RegistryState where
  "registry_attached = registry_state\<lparr>reg_reader := True\<rparr>"

text \<open>What the tracks know of the instance states shown so far.\<close>

definition follows :: "registry_event list \<Rightarrow> InstanceTrack \<Rightarrow> InstanceTrack \<Rightarrow> InstanceTrack \<Rightarrow> bool" where
  "follows es a b c \<longleftrightarrow>
     track_id a = 1 \<and> track_id b = 2 \<and> track_id c = 3 \<and> track_handle c = last_handle es
     \<and> (seen_alive a \<longleftrightarrow> (1, 1) \<in> set (observed es)) \<and> (seen_alive b \<longleftrightarrow> (2, 1) \<in> set (observed es))
     \<and> (reached_terminal a \<longleftrightarrow> then_seen (1, 1) (1, 2) (observed es))
     \<and> (reached_terminal b \<longleftrightarrow> then_seen (2, 1) (2, 4) (observed es))
     \<and> (reached_terminal c \<longleftrightarrow> (3, 1) \<in> set (observed es))"

definition all_ended :: "registry_event list \<Rightarrow> bool" where
  "all_ended es \<longleftrightarrow> then_seen (1, 1) (1, 2) (observed es) \<and> then_seen (2, 1) (2, 4) (observed es)
     \<and> (3, 1) \<in> set (observed es)"

text \<open>\<open>lookup_instance\<close> answered with the handle sensor 3 had been seen with.\<close>

fun looked_up :: "registry_event \<Rightarrow> int" where
  "looked_up (Sensor_taken rc sid st h l) = l"

definition confirmed :: "registry_event list \<Rightarrow> bool" where
  "confirmed es \<longleftrightarrow> (\<exists>xs e ys. es = xs @ e # ys \<and> looked_up e \<noteq> 0 \<and> looked_up e = last_handle (xs @ [e]))"

lemma confirmed_append: "confirmed es \<Longrightarrow> confirmed (es @ es')"
  unfolding confirmed_def by (metis append.assoc append_Cons)

definition registry_inv :: "registry_event list \<Rightarrow> RegistryState \<Rightarrow> bool" where
  "registry_inv es s \<longleftrightarrow>
     reg_reader s \<and> (\<exists>a b c. tracks s = [a, b, c] \<and> follows es a b c)
     \<and> set (observed es) \<subseteq> {(1, 1), (1, 2), (2, 1), (2, 4), (3, 1)}
     \<and> (became_done s \<or> all_done s \<longrightarrow> all_ended es \<and> confirmed es)"

lemma event_simps [simp]:
  "observed [] = []" "observed (es @ [e]) = observed es @ shown e"
  "last_handle [] = 0" "last_handle (es @ [e]) = see_handle (last_handle es) e"
  by (simp_all add: observed_def last_handle_def)

lemma follows_done:
  "tracks s = [a, b, c] \<Longrightarrow> follows es a b c \<Longrightarrow> all_instances_done s \<longleftrightarrow> all_ended es"
  by (simp add: all_instances_done_def follows_def all_ended_def)

lemma advance_track_Val:
  "advance_track st x = Val t \<longleftrightarrow>
     st = 1 \<and> t = x\<lparr>seen_alive := True, reached_terminal := reached_terminal x \<or> track_id x = 3\<rparr>
     \<or> st = 2 \<and> track_id x = 1 \<and> seen_alive x \<and> t = x\<lparr>reached_terminal := True\<rparr>
     \<or> st = 4 \<and> track_id x = 2 \<and> seen_alive x \<and> t = x\<lparr>reached_terminal := True\<rparr>"
  by (cases x) (auto simp: advance_track_def Let_def)

lemma track_for_three:
  assumes "track_id a = 1" and "track_id b = 2" and "track_id c = 3" and "track_for [a, b, c] sid = Some i"
  shows "i = 0 \<and> sid = 1 \<or> i = Suc 0 \<and> sid = 2 \<or> i = Suc (Suc 0) \<and> sid = 3"
  using assms by (auto split: if_splits)

lemma advance_follows:
  assumes f: "follows es a b c" and i: "track_for [a, b, c] sid = Some i"
    and t: "advance_track st (([a, b, c] ! i)\<lparr>track_handle := h\<rparr>) = Val t"
  shows "\<exists>a' b' c'. [a, b, c][i := t] = [a', b', c'] \<and> follows (es @ [Sensor_taken 0 sid st h l]) a' b' c'"
    and "(sid, st) \<in> {(1, 1), (1, 2), (2, 1), (2, 4), (3, 1)}"
proof -
  have ids: "track_id a = 1" "track_id b = 2" "track_id c = 3"
    using f by (simp_all add: follows_def)
  note cases = track_for_three [OF ids i]
  show "\<exists>a' b' c'. [a, b, c][i := t] = [a', b', c'] \<and> follows (es @ [Sensor_taken 0 sid st h l]) a' b' c'"
    using cases t unfolding advance_track_Val
    by (elim disjE conjE) (use f in \<open>simp_all add: follows_def then_seen_snoc\<close>)
  show "(sid, st) \<in> {(1, 1), (1, 2), (2, 1), (2, 4), (3, 1)}"
    using cases t unfolding advance_track_Val by (elim disjE conjE) (simp_all add: ids)
qed

lemma all_ended_snoc: "all_ended es \<Longrightarrow> all_ended (es @ [e])"
  by (cases e) (auto simp: all_ended_def then_seen_snoc)

lemma follows_skip: "rc \<noteq> DDS_RETCODE_OK \<Longrightarrow> follows (es @ [Sensor_taken rc sid st h l]) a b c \<longleftrightarrow> follows es a b c"
  by (simp add: follows_def)

text \<open>What one iteration leaves: it ended the invocation, or it took a sample.\<close>

lemma registry_listener_Val:
  assumes "registry_listener (Sensor_taken rc sid st h l) s = Val s'"
  obtains
    (ended) "rc = DDS_RETCODE_NO_DATA" "tracks s' = tracks s" "\<not> taking s'" "reg_reader s'"
      "all_done s' \<longrightarrow> all_done s \<or> became_done s" "became_done s' \<longrightarrow> became_done s"
  | (took) i t where "rc = 0" "track_for (tracks s) sid = Some i"
      "advance_track st ((tracks s ! i)\<lparr>track_handle := h\<rparr>) = Val t" "tracks s' = (tracks s)[i := t]"
      "reg_reader s'" "all_done s' = all_done s"
      "became_done s' \<longrightarrow> became_done s \<or> all_instances_done s'
         \<and> (\<exists>c. track_for (tracks s') 3 = Some c \<and> l \<noteq> 0 \<and> l = track_handle (tracks s' ! c))"
proof -
  let ?s = "if taking s then s else s\<lparr>taking := True, became_done := False\<rparr>"
  have tr: "tracks ?s = tracks s" "all_done ?s = all_done s" "reg_reader ?s = reg_reader s"
    and bd: "became_done ?s \<longrightarrow> became_done s" by simp_all
  have r: "reg_reader s" using assms by (auto split: if_splits)
  consider "rc = DDS_RETCODE_NO_DATA" | "rc = 0" "rc \<noteq> DDS_RETCODE_NO_DATA"
    using assms r by (auto simp: Let_def split: if_splits)
  then show thesis
  proof cases
    case 1
    then have "s' = ?s\<lparr>taking := False, all_done := all_done ?s \<or> became_done ?s\<rparr>"
      using assms r by (simp add: Let_def)
    then show thesis using 1 r bd by (intro ended) (auto split: if_splits)
  next
    case 2
    then obtain i where i: "track_for (tracks s) sid = Some i"
      using assms r by (cases "track_for (tracks s) sid") (simp_all add: Let_def tr)
    then obtain t where t: "advance_track st ((tracks s ! i)\<lparr>track_handle := h\<rparr>) = Val t"
      using assms r 2 by (cases "advance_track st ((tracks s ! i)\<lparr>track_handle := h\<rparr>)") (simp_all add: Let_def tr)
    have "confirm_done l (?s\<lparr>tracks := (tracks s)[i := t]\<rparr>) = Val s'"
      using assms r 2 i t by (cases "taking s") (simp_all add: Let_def)
    then show thesis
      using 2 i t r bd
      by (intro took [of i t]) (auto simp: confirm_done_def all_instances_done_def split: if_splits option.splits)
  qed
qed

lemma registry_inv_start: "registry_inv [] registry_attached"
  by (simp add: registry_inv_def registry_attached_def registry_state_def new_track_def follows_def)

lemma registry_inv_ended:
  assumes "registry_inv es s0" and "registry_listener (Sensor_taken DDS_RETCODE_NO_DATA sid st h l) s0 = Val s"
  shows "registry_inv (es @ [Sensor_taken DDS_RETCODE_NO_DATA sid st h l]) s"
  using assms(2)
proof (cases rule: registry_listener_Val)
  case ended
  let ?e = "Sensor_taken DDS_RETCODE_NO_DATA sid st h l"
  have o: "observed (es @ [?e]) = observed es" by simp
  have f: "follows (es @ [?e]) a b c = follows es a b c" for a b c by (rule follows_skip) simp
  have "all_ended (es @ [?e]) \<and> confirmed (es @ [?e])" if "became_done s \<or> all_done s"
    using that ended(5,6) assms(1) all_ended_snoc [of es ?e] confirmed_append [of es "[?e]"]
    unfolding registry_inv_def by blast
  then show ?thesis
    using assms(1) ended(2,4) unfolding registry_inv_def o f by simp
qed simp

lemma registry_inv_took:
  assumes inv: "registry_inv es s0" and e: "registry_listener (Sensor_taken 0 sid st h l) s0 = Val s"
  shows "registry_inv (es @ [Sensor_taken 0 sid st h l]) s"
  using e
proof (cases rule: registry_listener_Val)
  case (took i t)
  let ?e = "Sensor_taken 0 sid st h l"
  obtain a b c where tr: "tracks s0 = [a, b, c]" and f: "follows es a b c"
    using inv unfolding registry_inv_def by blast
  obtain a' b' c' where t': "tracks s = [a', b', c']" and f': "follows (es @ [?e]) a' b' c'"
    using advance_follows(1) [OF f, of sid i st h t l] took(2-4) unfolding tr by auto
  have ok: "(sid, st) \<in> {(1, 1), (1, 2), (2, 1), (2, 4), (3, 1)}"
    using advance_follows(2) [OF f, of sid i st h t] took(2,3) unfolding tr by blast
  have "all_ended (es @ [?e]) \<and> confirmed (es @ [?e])" if flag: "became_done s \<or> all_done s"
  proof (cases "became_done s0 \<or> all_done s0")
    case True
    then show ?thesis
      using inv all_ended_snoc [of es ?e] confirmed_append [of es "[?e]"] unfolding registry_inv_def by blast
  next
    case False
    then obtain k where d: "all_instances_done s" and k: "track_for (tracks s) 3 = Some k" "l \<noteq> 0" "l = track_handle (tracks s ! k)"
      using took(6,7) flag by blast
    have ids: "track_id a' = 1" "track_id b' = 2" "track_id c' = 3" and hc: "track_handle c' = last_handle (es @ [?e])"
      using f' by (simp_all add: follows_def)
    have "k = Suc (Suc 0)"
      using track_for_three [OF ids k(1) [unfolded t']] by simp
    then have "l = last_handle (es @ [?e])"
      using k(3) hc by (simp add: t' del: event_simps)
    then have "confirmed (es @ [?e])"
      unfolding confirmed_def using k(2)
      by (intro exI [of _ es] exI [of _ ?e] exI [of _ "[]"]) (simp del: event_simps)
    then show ?thesis using follows_done [OF t' f'] d by simp
  qed
  moreover have "set (observed (es @ [?e])) \<subseteq> {(1, 1), (1, 2), (2, 1), (2, 4), (3, 1)}"
    using inv ok unfolding registry_inv_def by simp
  ultimately show ?thesis
    using t' f' took(5) unfolding registry_inv_def by blast
qed simp

lemma registry_listener_inv:
  assumes "deliver registry_listener es registry_attached = Val s"
  shows "registry_inv es s"
  using assms
proof (induction es arbitrary: s rule: rev_induct)
  case Nil
  then show ?case using registry_inv_start by simp
next
  case (snoc e es)
  obtain s0 where s0: "deliver registry_listener es registry_attached = Val s0" and e: "registry_listener e s0 = Val s"
    using snoc.prems by (auto simp: deliver_append split: outcome.splits simp del: registry_listener.simps)
  obtain rc sid st h l where e': "e = Sensor_taken rc sid st h l" by (cases e)
  have "rc = DDS_RETCODE_NO_DATA \<or> rc = 0"
    using e [unfolded e'] by (cases rule: registry_listener_Val) simp_all
  then show ?case
    using registry_inv_ended registry_inv_took snoc.IH [OF s0] e e' by metis
qed

section \<open>The subscriber's contract\<close>

text \<open>The listener leaves the process only by \<open>exit(1)\<close>.\<close>

lemma advance_track_end:
  "advance_track st x = Exit n \<Longrightarrow> n = 1" "advance_track st x \<noteq> Crash m" "advance_track st x \<noteq> OutOfFuel"
  by (auto simp: advance_track_def Let_def split: if_splits)

lemma registry_listener_end:
  assumes "reg_reader s"
  shows "(\<exists>s'. registry_listener e s = Val s') \<or> registry_listener e s = Exit 1"
proof -
  have c: "(\<exists>s'. confirm_done l s = Val s') \<or> confirm_done l s = Exit 1" for l s
    by (auto simp: confirm_done_def split: option.splits)
  obtain rc sid st h l where e: "e = Sensor_taken rc sid st h l" by (cases e)
  show ?thesis
    using assms c by (auto simp: e Let_def advance_track_end split: option.splits outcome.splits dest: advance_track_end(1))
qed

lemma registry_breaks:
  "deliver registry_listener es registry_attached = x \<Longrightarrow> (\<exists>s. x = Val s) \<or> x = Exit 1"
proof (induction es arbitrary: x rule: rev_induct)
  case (snoc e es)
  show ?case
  proof (cases "deliver registry_listener es registry_attached")
    case (Val s)
    then have "reg_reader s" using registry_listener_inv unfolding registry_inv_def by blast
    then show ?thesis
      using registry_listener_end [of s e] snoc.prems Val
      by (auto simp: deliver_append simp del: registry_listener.simps)
  qed (use snoc in \<open>auto simp: deliver_append\<close>)
qed auto

text \<open>The flag is raised at the end of an invocation of the listener, never inside its loop.\<close>

definition invocation_over :: "registry_event list \<Rightarrow> bool" where
  "invocation_over es \<longleftrightarrow> (\<exists>xs ys s. es = xs @ ys \<and> deliver registry_listener xs registry_attached = Val s
     \<and> all_done s \<and> \<not> taking s)"

lemma invocation_over_append: "invocation_over es \<Longrightarrow> invocation_over (es @ es')"
  unfolding invocation_over_def by (metis append.assoc)

lemma done_over:
  "deliver registry_listener es registry_attached = Val s \<Longrightarrow> all_done s \<Longrightarrow> invocation_over es"
proof (induction es arbitrary: s rule: rev_induct)
  case Nil
  then show ?case by (auto simp: registry_attached_def registry_state_def)
next
  case (snoc e es)
  obtain s0 where s0: "deliver registry_listener es registry_attached = Val s0" and e: "registry_listener e s0 = Val s"
    using snoc.prems by (auto simp: deliver_append split: outcome.splits simp del: registry_listener.simps)
  obtain rc sid st h l where e': "e = Sensor_taken rc sid st h l" by (cases e)
  from e [unfolded e'] show ?case
  proof (cases rule: registry_listener_Val)
    case ended
    then show ?thesis
      unfolding invocation_over_def using snoc.prems by (intro exI [of _ "es @ [e]"] exI [of _ "[]"] exI [of _ s]) simp
  next
    case took
    then show ?thesis using snoc.IH [OF s0] snoc.prems(2) invocation_over_append by blast
  qed
qed

definition lifecycles_seen :: "registry_event list \<Rightarrow> bool" where
  "lifecycles_seen es \<longleftrightarrow> all_ended es \<and> confirmed es \<and> invocation_over es"

lemma lifecycles_seen_append: "lifecycles_seen es \<Longrightarrow> lifecycles_seen (es @ es')"
proof (induction es' rule: rev_induct)
  case (snoc e es')
  then have "lifecycles_seen (es @ es')" by simp
  then have "lifecycles_seen ((es @ es') @ [e])"
    using all_ended_snoc confirmed_append invocation_over_append unfolding lifecycles_seen_def by blast
  then show ?case by simp
qed simp

lemma synced_lifecycles:
  "synced registry_listener registry_attached s tr \<Longrightarrow> all_done s \<Longrightarrow> lifecycles_seen (events tr)"
  using registry_listener_inv done_over unfolding synced_def lifecycles_seen_def registry_inv_def by blast

fun deletes_reader :: "'v app_call \<Rightarrow> bool" where
  "deletes_reader (Entity (delete_datareader s r)) = True"
| "deletes_reader _ = False"

lemma idle_not_delete: "idle q \<Longrightarrow> x \<in> set q \<Longrightarrow> \<not> deletes_reader (fst x)"
  by (cases "fst x") (auto simp: idle_def)

text \<open>What \<open>main\<close> created: one subscriber and, on the topic, one reliable reader that keeps all samples.\<close>

definition sensor_reader_made :: "int \<Rightarrow> int \<Rightarrow> (SensorReading, registry_event) atrace \<Rightarrow> bool" where
  "sensor_reader_made sub dr tr \<longleftrightarrow> (\<exists>f domain dp topic q. creations tr =
     [(Entity zzdds_create_factory, f), (Entity (create_participant f domain), dp),
      (Entity (create_topic dp ''SensorReading'' ''SensorReading''), topic), (Entity (create_subscriber dp), sub),
      (Entity (create_datareader sub topic q False), dr)] \<and> reliable q \<and> keep_all q)"

definition listens :: "int \<Rightarrow> (SensorReading, registry_event) atrace \<Rightarrow> bool" where
  "listens dr tr \<longleftrightarrow> (\<exists>r. (Entity (set_listener dr), r) \<in> set tr \<and> ret r = DDS_RETCODE_OK)"

lemma listens_simps [simp]:
  "listens dr ((c, r) # tr) \<longleftrightarrow> c = Entity (set_listener dr) \<and> ret r = DDS_RETCODE_OK \<or> listens dr tr"
  "listens dr (q @ tr) \<longleftrightarrow> listens dr q \<or> listens dr tr"
  by (auto simp: listens_def)

definition registry_received :: "RegistryState \<Rightarrow> (SensorReading, registry_event) atrace \<Rightarrow> bool" where
  "registry_received s tr \<longleftrightarrow>
     before deletes_reader (\<lambda>t. lifecycles_seen (events t)) tr
     \<and> (\<exists>sub dr. sensor_reader_made sub dr tr \<and> listens dr tr \<and> (\<exists>r. (Entity (delete_datareader sub dr), r) \<in> set tr))
     \<and> only printed tr = [''Create topic: SensorReading'', ''Create reader for topic: SensorReading'',
         ''Subscriber: waiting for all three instance lifecycles...'',
         ''Subscriber: all three instance lifecycles observed correctly.'']
     \<and> closes tr"

lemma registry_received_trace:
  assumes "only destroyed tr = []" and "\<exists>r. (Entity zzdds_create_factory, r) \<in> set tr \<and> ret r = f"
    and "before deletes_reader (\<lambda>t. lifecycles_seen (events t)) tr"
    and "only printed tr = [''Create topic: SensorReading'', ''Create reader for topic: SensorReading'',
      ''Subscriber: waiting for all three instance lifecycles...'']"
    and "idle q" and "lifecycles_seen (events (q @ tr))" and "sensor_reader_made sub dr tr" and "listens dr tr"
  shows "registry_received s ((Entity (zzdds_destroy_factory f), r3)
     # (printf ''Subscriber: all three instance lifecycles observed correctly.'', r2)
     # (Entity (delete_datareader sub dr), r1) # q @ tr)"
proof -
  have "before deletes_reader (\<lambda>t. lifecycles_seen (events t)) (q @ tr)"
    using assms(3) idle_not_delete [OF assms(5)] by (rule before_other)
  moreover have "closes ((Entity (zzdds_destroy_factory f), r3)
     # (printf ''Subscriber: all three instance lifecycles observed correctly.'', r2)
     # (Entity (delete_datareader sub dr), r1) # q @ tr)"
    using assms(1,2,5) by (intro closesI) auto
  moreover have "sensor_reader_made sub dr (q @ tr)"
    using assms(5,7) by (simp add: sensor_reader_made_def)
  ultimately show ?thesis
    using assms(4,5,6,8) by (auto simp: registry_received_def sensor_reader_made_def)
qed

lemma opened_no_delete: "opened argv type_name factory dp tr \<Longrightarrow> before deletes_reader P tr"
  by (auto simp: opened_def)

lemma registry_subscriber_wpt:
  "wpt (listening installs_reader_listener) (verdict registry_listener registry_attached 30000 registry_received)
     (registry_subscriber argv) s []"
  unfolding registry_subscriber_def Let_def
  apply (rule wpt_open_participant [OF heeds_reader setup_not_reader], assumption)
  apply ((erule early_reader, (simp; fail)) | rule wpt_PutI wpt_GetI)+
  apply (fold registry_attached_def)
  apply (rule wpt_check, erule early_stands, simp)
  apply (erule wpt_step, simp, simp)
  apply (rule wpt_await_until [where R = "\<lambda>t. lifecycles_seen (events t)", OF reads_load],
      erule synced_lifecycles, assumption, assumption, simp)
  apply (rule wpt_ifI, erule wpt_fail, simp add: POLL_PERIOD_MS_def REGISTRY_RECEIVE_TIMEOUT_MS_def)
  apply (erule wpt_step, simp, simp)+
  apply (simp add: verdict_def stands_def POLL_PERIOD_MS_def REGISTRY_RECEIVE_TIMEOUT_MS_def)
  apply (rule registry_received_trace)
         apply (simp_all add: opened_factory opened_no_delete sensor_reader_made_def)
  apply (auto simp: reliable_keep_all_def)
  done

lemma registry_subscriber_sleeps: "sleeps 30000 (registry_subscriber argv)"
  unfolding registry_subscriber_def Let_def
  by (rule sleeps_open sleeps_steps | rule sleeps_poll | simp add: POLL_PERIOD_MS_def REGISTRY_RECEIVE_TIMEOUT_MS_def; fail)+

text \<open>C26. The registry subscriber, under the rule that a listener is not called before it is installed:
  however it ends, it has slept 30 seconds at most, and it never takes through a null reader. It ends with 0 only
  when it had installed its listener on the one reader it created, a reliable reader of the topic that keeps all
  samples, and before it deleted that reader, sensor 1 had been shown alive and then disposed, sensor 2 alive and
  then without writers, sensor 3 alive, \<open>lookup_instance\<close> had returned sensor 3's handle, and the
  invocation of the listener that completed all this had ended; otherwise it ends with 1, after a
  \<open>FAIL:\<close> line or by \<open>exit(1)\<close> in the listener.\<close>

theorem registry_subscriber_contract:
  assumes "\<And>tr c. listening installs_reader_listener tr c (env tr c)"
  shows "case run env (registry_subscriber argv) s [] of (x, s', tr) \<Rightarrow>
    slept tr \<le> 30000 \<and> (x = Val 1 \<and> failed tr \<or> x = Val 0 \<and> registry_received s' tr \<or> x = Exit 1)"
proof -
  obtain x s' tr where r: "run env (registry_subscriber argv) s [] = (x, s', tr)"
    by (cases "run env (registry_subscriber argv) s []")
  have "verdict registry_listener registry_attached 30000 registry_received x s' tr"
    by (rule wpt_run [OF registry_subscriber_wpt assms r])
  then show ?thesis
    using registry_breaks [OF refl, of "events tr"] sleeps_run [OF registry_subscriber_sleeps r]
    unfolding r verdict_def by (cases x) auto
qed

fun sensors_env :: "(SensorReading app_call, (SensorReading, registry_event) answer) env" where
  "sensors_env tr (Entity (zzdds_factory_is_nil f)) = answers 0 []"
| "sensors_env tr (Entity (type_support_register dp t)) = answers 0 []"
| "sensors_env tr (Entity (set_listener dr)) = answers 0
     [Sensor_taken 0 1 1 11 0, Sensor_taken 0 1 1 11 0, Sensor_taken 0 1 2 11 0, Sensor_taken 11 0 0 0 0,
      Sensor_taken 0 2 1 12 0, Sensor_taken 0 2 4 12 0, Sensor_taken 0 3 1 13 13, Sensor_taken 11 0 0 0 0]"
| "sensors_env tr (Entity c) = answers 1 []"
| "sensors_env tr c = answers 0 []"

lemma sensors_env_listens: "listening installs_reader_listener tr c (sensors_env tr c)"
  by (cases "(tr, c)" rule: sensors_env.cases) (auto simp: listening_def answers_def)

lemma sensors_run: "fst (run sensors_env (registry_subscriber [''s'']) registry_state []) = Val 0"
  by (simp add: evaluate registry_subscriber_def registry_state_def new_track_def advance_track_def confirm_done_def
      all_instances_done_def POLL_PERIOD_MS_def REGISTRY_RECEIVE_TIMEOUT_MS_def)

theorem registry_subscriber_contract_witness:
  "case run sensors_env (registry_subscriber [''s'']) registry_state [] of (x, s', tr) \<Rightarrow>
    slept tr \<le> 30000 \<and> x = Val 0 \<and> registry_received s' tr"
  using registry_subscriber_contract [OF sensors_env_listens, of "[''s'']" registry_state] sensors_run
  by (auto simp: split_beta)

text \<open>The registry listener on its own, as a state machine: while it has not left the process, the
  tracks are exactly what the instance states shown to it so far say: a track is alive or terminal
  when its sensor was shown so, in the order of its lifecycle, no other state of any sensor was ever
  accepted, and \<open>became_done\<close> and \<open>all_done\<close> are raised only after all three lifecycles ended and the
  look-up of sensor 3 was confirmed.\<close>

theorem registry_listener_tracks:
  assumes "deliver registry_listener es registry_attached = Val s"
  shows "registry_inv es s"
  using assms by (rule registry_listener_inv)

theorem registry_listener_tracks_witness:
  "\<exists>s. deliver registry_listener [Sensor_taken 0 1 1 11 0, Sensor_taken 0 1 2 11 0, Sensor_taken 11 0 0 0 0] registry_attached = Val s
     \<and> registry_inv [Sensor_taken 0 1 1 11 0, Sensor_taken 0 1 2 11 0, Sensor_taken 11 0 0 0 0] s"
proof -
  have "\<exists>s. deliver registry_listener [Sensor_taken 0 1 1 11 0, Sensor_taken 0 1 2 11 0, Sensor_taken 11 0 0 0 0] registry_attached = Val s"
    by (simp add: registry_attached_def registry_state_def new_track_def advance_track_def confirm_done_def all_instances_done_def)
  then show ?thesis using registry_listener_tracks by blast
qed

end
