(* ===== verification/Cft_Reconfigure.thy ===== *)
theory Cft_Reconfigure
  imports Example_Kit
begin

text \<open>
  The subscriber of the integration test \<open>integration-tests/c/cft-reconfigure\<close>: an unfiltered reader
  that witnesses what was sent and a reader of a content-filtered topic whose parameter \<open>main\<close> changes
  between two phases, both with the same listener function on state of their own.
\<close>

definition TOTAL_COUNT :: nat where "TOTAL_COUNT = 10"
definition PHASE1_COUNT :: nat where "PHASE1_COUNT = 5"
definition PHASE2_COUNT :: nat where "PHASE2_COUNT = 5"
definition WITNESS_TIMEOUT_MS :: nat where "WITNESS_TIMEOUT_MS = 45000"
definition SETTLE_WINDOW_S :: nat where "SETTLE_WINDOW_S = 3"
definition FINAL_TIMEOUT_MS :: nat where "FINAL_TIMEOUT_MS = 20000"
definition CFT_POLL_PERIOD_MS :: nat where "CFT_POLL_PERIOD_MS = 20"

lemmas cft_constants =
  TOTAL_COUNT_def PHASE1_COUNT_def PHASE2_COUNT_def WITNESS_TIMEOUT_MS_def SETTLE_WINDOW_S_def FINAL_TIMEOUT_MS_def
  CFT_POLL_PERIOD_MS_def

section \<open>Listener\<close>

record ReaderState =
  has_reader :: bool
  received :: "bool list"
  cft_count :: nat

record CftState =
  witness_state :: ReaderState
  filtered_state :: ReaderState

definition zero_reader :: ReaderState where
  "zero_reader = \<lparr>has_reader = False, received = replicate TOTAL_COUNT False, cft_count = 0\<rparr>"

text \<open>One iteration of the loop of \<open>on_data_available\<close>. The bounds check keeps the index inside
  \<open>received\<close>; outside it the access is undefined. The store to \<open>received\<close> and the increment of the count
  belong to one step: \<open>main\<close> never sees the one without the other.\<close>

definition cft_on_data_available :: "int \<Rightarrow> int \<Rightarrow> bool \<Rightarrow> ReaderState \<Rightarrow> ReaderState outcome" where
  "cft_on_data_available rc seq valid state =
     (if \<not> has_reader state then Crash ''take through a null reader''
      else if rc = DDS_RETCODE_NO_DATA then Val state
      else if rc \<noteq> DDS_RETCODE_OK then Exit 1
      else if \<not> valid then Val state
      else if seq < 0 \<or> seq \<ge> int TOTAL_COUNT then Exit 1
      else if nat seq \<ge> length (received state) then Crash ''received''
      else if \<not> received state ! nat seq
      then Val (state\<lparr>received := (received state)[nat seq := True], cft_count := cft_count state + 1\<rparr>)
      else Val state)"

datatype cft_reader = Witness | Filtered
datatype cft_event = Cft_taken cft_reader int int bool

fun cft_listener :: "(cft_event, CftState) handler" where
  "cft_listener (Cft_taken Witness rc seq valid) s =
     (case cft_on_data_available rc seq valid (witness_state s) of
        Val rs \<Rightarrow> Val (s\<lparr>witness_state := rs\<rparr>)
      | Exit n \<Rightarrow> Exit n | Crash m \<Rightarrow> Crash m | OutOfFuel \<Rightarrow> OutOfFuel)"
| "cft_listener (Cft_taken Filtered rc seq valid) s =
     (case cft_on_data_available rc seq valid (filtered_state s) of
        Val rs \<Rightarrow> Val (s\<lparr>filtered_state := rs\<rparr>)
      | Exit n \<Rightarrow> Exit n | Crash m \<Rightarrow> Crash m | OutOfFuel \<Rightarrow> OutOfFuel)"

section \<open>Diagnostics\<close>

definition reader_matched :: "int \<Rightarrow> (int \<Rightarrow> (CftState, int, cft_event, 'a) app) \<Rightarrow> (CftState, int, cft_event, 'a) app" where
  "reader_matched dr k = sys cft_listener (Query (get_subscription_matched_status dr)) (\<lambda>r.
     k (if ret r = DDS_RETCODE_OK then num r else - 1))"

definition writer_matched :: "int \<Rightarrow> (int \<Rightarrow> (CftState, int, cft_event, 'a) app) \<Rightarrow> (CftState, int, cft_event, 'a) app" where
  "writer_matched dw k = sys cft_listener (Query (get_publication_matched_status dw)) (\<lambda>r.
     k (if ret r = DDS_RETCODE_OK then num r else - 1))"

text \<open>The two lines a timeout prints; \<open>shown\<close> is the counter the second one reports.\<close>

record cft_endpoints =
  witness_dr :: int
  filtered_dr :: int
  go_dw :: int

definition time_out :: "cft_endpoints \<Rightarrow> (CftState \<Rightarrow> nat) \<Rightarrow> string \<Rightarrow> string \<Rightarrow> (CftState, int, cft_event, int) app" where
  "time_out ep shown pre post =
     reader_matched (witness_dr ep) (\<lambda>a. reader_matched (filtered_dr ep) (\<lambda>b. writer_matched (go_dw ep) (\<lambda>c.
     sys cft_listener (eprintf (''  matched: witness='' @ dec_int a @ '' filtered='' @ dec_int b @ '' GoTopic_writer='' @ dec_int c)) (\<lambda>_.
     load cft_listener shown (\<lambda>n. fail cft_listener (pre @ dec n @ post))))))"

section \<open>\<open>main\<close>\<close>

text \<open>Reading back what the content-filtered topic was created with.\<close>

definition introspect :: "int \<Rightarrow> (CftState, int, cft_event, int) app \<Rightarrow> (CftState, int, cft_event, int) app" where
  "introspect cft p = (let h = cft_listener in
     sys h (Query (get_filter_expression cft)) (\<lambda>e.
     if strs e = [] \<or> hd (strs e) \<noteq> ''seq >= %0'' then fail h (''get_filter_expression() returned \"'' @ (if strs e = [] then ''(null)'' else hd (strs e)) @ ''\", expected \"seq >= %0\"'')
     else sys h (Query (get_expression_parameters cft)) (\<lambda>ps.
     if ret ps \<noteq> DDS_RETCODE_OK \<or> length (strs ps) \<noteq> 1 \<or> hd (strs ps) \<noteq> ''1000''
     then fail h ''get_expression_parameters() at creation did not return [\"1000\"]''
     else sys h sequence_free (\<lambda>_.
     sys h (Query (get_related_topic cft)) (\<lambda>related.
     if ret related = 0 then fail h ''get_related_topic() did not return the CftEvent topic''
     else sys h (Query (get_name (ret related))) (\<lambda>name.
     if strs name = [] \<or> hd (strs name) \<noteq> ''CftEvent'' then fail h ''get_related_topic() did not return the CftEvent topic''
     else say h ''Subscriber: CFT introspection (filter_expression/expression_parameters/related_topic) verified at creation.'' p))))))"

definition new_params :: "int \<Rightarrow> (CftState, int, cft_event, int) app \<Rightarrow> (CftState, int, cft_event, int) app" where
  "new_params cft p = (let h = cft_listener in
     check h (Query (set_expression_parameters cft [''3''])) ''set_expression_parameters() failed'' (
     sys h (Query (get_expression_parameters cft)) (\<lambda>ps.
     if ret ps \<noteq> DDS_RETCODE_OK \<or> length (strs ps) \<noteq> 1 \<or> hd (strs ps) \<noteq> ''3''
     then fail h ''get_expression_parameters() after reconfigure did not return [\"3\"]''
     else sys h sequence_free (\<lambda>_.
     say h ''Subscriber: set_expression_parameters() reconfigured threshold to 3, read-back verified.'' p))))"

text \<open>The exact contents of the filtered reader.\<close>

definition none_of_phase1 :: "(CftState, int, cft_event, int option) app" where
  "none_of_phase1 = for_prog 0 PHASE1_COUNT (\<lambda>seq.
     load cft_listener (\<lambda>s. received (filtered_state s) ! seq) (\<lambda>b.
       if b then fail_out cft_listener (''filtered reader retroactively received phase1 seq='' @ dec seq @ '' after reconfigure'')
       else Return None))"

definition all_of_phase2 :: "(CftState, int, cft_event, int option) app" where
  "all_of_phase2 = for_prog PHASE1_COUNT (TOTAL_COUNT - PHASE1_COUNT) (\<lambda>seq.
     load cft_listener (\<lambda>s. received (filtered_state s) ! seq) (\<lambda>b.
       if \<not> b then fail_out cft_listener (''filtered reader never received phase2 seq='' @ dec seq @ '' despite threshold=3'')
       else Return None))"

definition final_assertions :: "(CftState, int, cft_event, int) app \<Rightarrow> (CftState, int, cft_event, int) app" where
  "final_assertions p =
     bind_prog none_of_phase1 (\<lambda>x. leave_or x (
     bind_prog all_of_phase2 (\<lambda>x. leave_or x (
     load cft_listener (\<lambda>s. cft_count (filtered_state s)) (\<lambda>n.
       if n \<noteq> PHASE2_COUNT
       then load cft_listener (\<lambda>s. cft_count (filtered_state s)) (\<lambda>n.
              fail cft_listener (''filtered reader received '' @ dec n @ '' samples total, expected exactly 5''))
       else say cft_listener ''Subscriber: filtered reader received exactly the post-reconfigure samples {5..9}, confirming live re-filtering without CFT recreation.''
              p)))))"

text \<open>Phase two, from the wait for all ten samples on.\<close>

definition cft_phase2 :: "int \<Rightarrow> cft_endpoints \<Rightarrow> (CftState, int, cft_event, int) app" where
  "cft_phase2 factory ep = (let h = cft_listener in
     bind_prog (poll h CFT_POLL_PERIOD_MS FINAL_TIMEOUT_MS (load h (\<lambda>s. cft_count (witness_state s) \<ge> TOTAL_COUNT) Return)) (\<lambda>b.
     if \<not> b then time_out ep (\<lambda>s. cft_count (witness_state s)) ''witness reader only saw '' ''/10 total samples within 20s''
     else say h ''Subscriber: witnessed all 10 total samples via unfiltered reader.'' (
     bind_prog (poll h CFT_POLL_PERIOD_MS FINAL_TIMEOUT_MS (load h (\<lambda>s. cft_count (filtered_state s) \<ge> PHASE2_COUNT) Return)) (\<lambda>b.
     if \<not> b then time_out ep (\<lambda>s. cft_count (filtered_state s)) ''filtered reader only saw '' ''/5 phase2 samples within 20s''
     else final_assertions (
     say h ''Subscriber: done.'' (
     sys h (Entity (zzdds_destroy_factory factory)) (\<lambda>_. Return 0)))))))"

text \<open>Phase one, the reconfiguration and the go-ahead signal.\<close>

definition cft_phases :: "int \<Rightarrow> int \<Rightarrow> cft_endpoints \<Rightarrow> (CftState, int, cft_event, int) app" where
  "cft_phases factory cft ep = (let h = cft_listener in
     bind_prog (poll h CFT_POLL_PERIOD_MS WITNESS_TIMEOUT_MS (load h (\<lambda>s. cft_count (witness_state s) \<ge> PHASE1_COUNT) Return)) (\<lambda>b.
     if \<not> b then time_out ep (\<lambda>s. cft_count (witness_state s)) ''witness reader only saw '' ''/5 phase1 samples within 45s''
     else say h ''Subscriber: witnessed all 5 phase1 samples via unfiltered reader.'' (
     sys h (sleep_ms (SETTLE_WINDOW_S * 1000)) (\<lambda>_.
     load h (\<lambda>s. cft_count (filtered_state s)) (\<lambda>filtered_after_phase1.
     if filtered_after_phase1 \<noteq> 0
     then fail h (''filtered reader received '' @ dec filtered_after_phase1 @ '' phase1 samples despite threshold=1000'')
     else say h ''Subscriber: filtered reader correctly received zero phase1 samples (threshold=1000).'' (
     new_params cft (
     check h (Data (write_data (go_dw ep) 0 0)) ''write(GoTopic) failed'' (
     say h ''Subscriber: sent go-ahead signal.'' (
     cft_phase2 factory ep)))))))))"

definition cft_subscriber :: "string list \<Rightarrow> (CftState, int, cft_event, int) app" where
  "cft_subscriber argv = (let h = cft_listener in
     open_participant h argv ''CftEvent'' ''register_type_support failed'' (\<lambda>factory dp.
     need h (Entity (create_topic dp ''CftEvent'' ''CftEvent'')) ''create_topic() failed'' (\<lambda>topic.
     say h ''Create topic: CftEvent'' (
     need h (Entity (create_topic dp ''GoTopic'' ''CftEvent'')) ''create_topic(GoTopic) failed'' (\<lambda>go_topic.
     say h ''Create topic: GoTopic'' (
     sys h (Entity (create_subscriber dp)) (\<lambda>sub.
     sys h (Entity (create_publisher dp)) (\<lambda>pub.
     if ret sub = 0 \<or> ret pub = 0 then fail h ''create_subscriber()/create_publisher() failed''
     else sys h (Entity (get_default_datareader_qos (ret sub))) (\<lambda>rq.
     need h (Entity (create_datareader (ret sub) topic (reliable_keep_all (num rq)) False)) ''create_datareader(witness) failed'' (\<lambda>wdr.
     say h ''Create reader for topic: CftEvent (witness)'' (
     need h (Query (create_contentfilteredtopic dp ''CftEvent_Filtered'' topic ''seq >= %0'' [''1000''])) ''create_contentfilteredtopic() failed'' (\<lambda>cft.
     introspect cft (
     need h (Entity (create_datareader (ret sub) cft (reliable_keep_all (num rq)) False)) ''create_datareader(filtered) failed'' (\<lambda>fdr.
     say h ''Create reader for topic: CftEvent_Filtered'' (
     sys h (Entity (get_default_datawriter_qos (ret pub))) (\<lambda>wq.
     need h (Entity (create_datawriter (ret pub) go_topic (reliable_keep_all (num wq)))) ''create_datawriter(GoTopic) failed'' (\<lambda>gdw.
     say h ''Create writer for topic: GoTopic'' (
     Put \<lparr>witness_state = zero_reader, filtered_state = zero_reader\<rparr> (
     Put \<lparr>witness_state = zero_reader\<lparr>has_reader := True\<rparr>, filtered_state = zero_reader\<lparr>has_reader := True\<rparr>\<rparr> (
     check h (Entity (set_listener wdr)) ''set_listener() failed'' (
     check h (Entity (set_listener fdr)) ''set_listener() failed'' (
     say h ''Subscriber: ready.'' (
     cft_phases factory cft \<lparr>witness_dr = wdr, filtered_dr = fdr, go_dw = gdw\<rparr>)))))))))))))))))))))))"

end
