(* ===== verification/Cft_Contracts.thy ===== *)
theory Cft_Contracts
  imports Cft_Reconfigure Example_Publisher
begin

text \<open>
  What the content-filter test establishes when it succeeds, in terms of the samples the middleware
  handed to its two listeners.
\<close>

section \<open>The listener\<close>

text \<open>The sequence numbers a reader took with valid data.\<close>

definition seqs :: "cft_reader \<Rightarrow> cft_event list \<Rightarrow> int set" where
  "seqs who es = {seq. Cft_taken who DDS_RETCODE_OK seq True \<in> set es}"

lemma seqs_simps [simp]:
  "seqs who [] = {}"
  "seqs who (es @ es') = seqs who es \<union> seqs who es'"
  "seqs who [Cft_taken w rc seq valid] = (if w = who \<and> rc = DDS_RETCODE_OK \<and> valid then {seq} else {})"
  by (auto simp: seqs_def)

text \<open>The flags and the counter of a reader agree with the set of numbers it took.\<close>

definition counts :: "int set \<Rightarrow> ReaderState \<Rightarrow> bool" where
  "counts S rs \<longleftrightarrow>
     has_reader rs \<and> length (received rs) = TOTAL_COUNT \<and> S \<subseteq> {0..<int TOTAL_COUNT}
     \<and> (\<forall>i<TOTAL_COUNT. received rs ! i \<longleftrightarrow> int i \<in> S) \<and> cft_count rs = card S"

lemma counts_step:
  assumes "counts S rs" and "cft_on_data_available rc seq valid rs = Val rs'"
  shows "counts (S \<union> (if rc = DDS_RETCODE_OK \<and> valid then {seq} else {})) rs'"
proof (cases "rc = DDS_RETCODE_OK \<and> valid")
  case False
  then have "rs' = rs" using assms(2) by (auto simp: cft_on_data_available_def split: if_splits)
  moreover have "(if rc = DDS_RETCODE_OK \<and> valid then {seq} else {}) = ({} :: int set)"
    using False by (rule if_not_P)
  ultimately show ?thesis using assms(1) by simp
next
  case True
  have range: "0 \<le> seq" "seq < int TOTAL_COUNT"
    using assms True by (auto simp: cft_on_data_available_def counts_def split: if_splits)
  have fin: "finite S"
    using assms(1) finite_subset unfolding counts_def by blast
  have bit: "received rs ! nat seq \<longleftrightarrow> seq \<in> S"
    using assms(1) range unfolding counts_def by (metis int_nat_eq nat_less_iff)
  show ?thesis
  proof (cases "seq \<in> S")
    case True
    then have "rs' = rs" using assms bit range by (auto simp: cft_on_data_available_def split: if_splits)
    then show ?thesis using assms(1) True by (simp add: insert_absorb)
  next
    case False
    have "nat seq < length (received rs)" and r: "has_reader rs"
      using assms(1) range by (auto simp: counts_def)
    then have "rs' = rs\<lparr>received := (received rs)[nat seq := True], cft_count := cft_count rs + 1\<rparr>"
      using assms(2) bit range False \<open>rc = DDS_RETCODE_OK \<and> valid\<close> by (simp add: cft_on_data_available_def)
    then show ?thesis
      using assms(1) False range fin \<open>rc = DDS_RETCODE_OK \<and> valid\<close>
      by (auto simp: counts_def nth_list_update)
  qed
qed

definition cft_attached :: CftState where
  "cft_attached = \<lparr>witness_state = zero_reader\<lparr>has_reader := True\<rparr>, filtered_state = zero_reader\<lparr>has_reader := True\<rparr>\<rparr>"

lemma cft_listener_counts:
  assumes "deliver cft_listener es cft_attached = Val s"
  shows "counts (seqs Witness es) (witness_state s) \<and> counts (seqs Filtered es) (filtered_state s)"
  using assms
proof (induction es arbitrary: s rule: rev_induct)
  case Nil
  then show ?case by (auto simp: cft_attached_def zero_reader_def counts_def)
next
  case (snoc e es)
  then obtain s0 where s0: "deliver cft_listener es cft_attached = Val s0" and e: "cft_listener e s0 = Val s"
    by (auto simp: deliver_append split: outcome.splits)
  obtain who rc seq valid where e': "e = Cft_taken who rc seq valid" by (cases e)
  show ?case
    using e snoc.IH [OF s0] counts_step [of _ _ rc seq valid]
    by (cases who) (auto simp: e' split: outcome.splits)
qed

lemma cft_breaks:
  "deliver cft_listener es cft_attached = x \<Longrightarrow> (\<exists>s. x = Val s) \<or> x = Exit 1"
proof (induction es arbitrary: x rule: rev_induct)
  case (snoc e es)
  obtain who rc seq valid where e: "e = Cft_taken who rc seq valid" by (cases e)
  show ?case
  proof (cases "deliver cft_listener es cft_attached")
    case (Val s)
    have "(\<exists>rs'. cft_on_data_available rc seq valid rs = Val rs') \<or> cft_on_data_available rc seq valid rs = Exit 1"
      if "counts S rs" for S rs
      using that by (auto simp: cft_on_data_available_def counts_def)
    then show ?thesis
      using cft_listener_counts [OF Val] snoc.prems Val
      by (cases who) (fastforce simp: deliver_append e)+
  qed (use snoc in \<open>auto simp: deliver_append\<close>)
qed auto

section \<open>\<open>main\<close>\<close>

lemma synced_counts_cft:
  assumes "synced cft_listener cft_attached s tr"
  shows "counts (seqs Witness (events tr)) (witness_state s)" "counts (seqs Filtered (events tr)) (filtered_state s)"
  using cft_listener_counts assms by (auto simp: synced_def)

lemma wpt_time_out:
  assumes "stands cft_listener i k s tr" and "k \<le> B"
  shows "wpt G (verdict cft_listener i B P) (time_out ep shown pre post) s tr"
  unfolding time_out_def reader_matched_def writer_matched_def load_def
  by (insert assms(1), ((erule wpt_step, simp, simp) | rule wpt_GetI)+, erule wpt_fail, rule assms(2))

lemma wpt_none_of_phase1:
  assumes "stands cft_listener i k s tr" and "k \<le> B"
    and "\<And>s' q. stands cft_listener i k s' (q @ tr) \<Longrightarrow> idle q \<Longrightarrow> wpt G (verdict cft_listener i B P) p s' (q @ tr)"
  shows "wpt G (verdict cft_listener i B P) (bind_prog none_of_phase1 (\<lambda>x. leave_or x p)) s tr"
  unfolding none_of_phase1_def
proof (rule wpt_main_loop [where J = "\<lambda>n q. idle q"])
  fix n s' q
  assume s': "stands cft_listener i k s' (q @ tr)" and q: "idle q"
  show "wpt G (iteration cft_listener i B P k tr idle)
     (load cft_listener (\<lambda>s. received (filtered_state s) ! n) (\<lambda>b.
       if b then fail_out cft_listener (''filtered reader retroactively received phase1 seq='' @ dec n @ '' after reconfigure'')
       else Return None)) s' (q @ tr)"
    by (rule wpt_load_stands [OF s'], simp, rule wpt_ifI, erule wpt_fail_out, rule assms(2), erule wpt_continue)
      (use q in \<open>simp flip: append_Cons\<close>)
qed (use assms in simp_all)

lemma wpt_all_of_phase2:
  assumes "stands cft_listener cft_attached k s tr" and "k \<le> B"
    and "\<And>s' q. stands cft_listener cft_attached k s' (q @ tr) \<Longrightarrow> idle q \<Longrightarrow> {5..<10} \<subseteq> seqs Filtered (events (q @ tr))
      \<Longrightarrow> wpt G (verdict cft_listener cft_attached B P) p s' (q @ tr)"
  shows "wpt G (verdict cft_listener cft_attached B P) (bind_prog all_of_phase2 (\<lambda>x. leave_or x p)) s tr"
  unfolding all_of_phase2_def
proof (rule wpt_main_loop [where J = "\<lambda>n q. idle q \<and> {5..<int n} \<subseteq> seqs Filtered (events (q @ tr))"])
  fix n s' q
  assume n: "PHASE1_COUNT \<le> n" "n < PHASE1_COUNT + (TOTAL_COUNT - PHASE1_COUNT)"
    and s': "stands cft_listener cft_attached k s' (q @ tr)"
    and q: "idle q \<and> {5..<int n} \<subseteq> seqs Filtered (events (q @ tr))"
  show "wpt G (iteration cft_listener cft_attached B P k tr (\<lambda>q. idle q \<and> {5..<int (Suc n)} \<subseteq> seqs Filtered (events (q @ tr))))
     (load cft_listener (\<lambda>s. received (filtered_state s) ! n) (\<lambda>b.
       if \<not> b then fail_out cft_listener (''filtered reader never received phase2 seq='' @ dec n @ '' despite threshold=3'')
       else Return None)) s' (q @ tr)"
  proof (rule wpt_load_stands [OF s'], simp, rule wpt_ifI, erule wpt_fail_out, rule assms(2), rule wpt_continue, assumption)
    fix r s2
    assume s2: "stands cft_listener cft_attached k s2 ((atomic_access, r) # q @ tr)" and b: "\<not> \<not> received (filtered_state s2) ! n"
    let ?q = "(atomic_access, r) # q"
    have "counts (seqs Filtered (events (?q @ tr))) (filtered_state s2)"
      using synced_counts_cft(2) [of s2 "?q @ tr"] s2 by (simp add: stands_def)
    then have "int n \<in> seqs Filtered (events (?q @ tr))"
      using b n unfolding counts_def by (simp add: cft_constants)
    moreover have "{5..<int n} \<subseteq> seqs Filtered (events (?q @ tr))"
      using q by auto
    moreover have "{5..<int (Suc n)} = insert (int n) {5..<int n}"
      using n by (auto simp: cft_constants)
    ultimately have "{5..<int (Suc n)} \<subseteq> seqs Filtered (events (?q @ tr))"
      by simp
    then show "\<exists>q'. (atomic_access, r) # q @ tr = q' @ tr \<and> idle q' \<and> {5..<int (Suc n)} \<subseteq> seqs Filtered (events (q' @ tr))"
      using q by (intro exI [of _ ?q]) simp
  qed
qed (use assms in \<open>simp_all add: cft_constants\<close>)

lemma wpt_final_assertions:
  assumes "stands cft_listener cft_attached k s tr" and "k \<le> B"
    and "\<And>s' q r. stands cft_listener cft_attached k s' ((printf ''Subscriber: filtered reader received exactly the post-reconfigure samples {5..9}, confirming live re-filtering without CFT recreation.'', r) # q @ tr)
      \<Longrightarrow> idle q \<Longrightarrow> seqs Filtered (events (q @ tr)) = {5..<10}
      \<Longrightarrow> wpt G (verdict cft_listener cft_attached B P) p s' ((printf ''Subscriber: filtered reader received exactly the post-reconfigure samples {5..9}, confirming live re-filtering without CFT recreation.'', r) # q @ tr)"
  shows "wpt G (verdict cft_listener cft_attached B P) (final_assertions p) s tr"
  unfolding final_assertions_def
proof (rule wpt_none_of_phase1 [OF assms(1,2)], erule wpt_all_of_phase2 [OF _ assms(2)], erule wpt_load_stands, simp, rule wpt_ifI)
  fix s1 q1 s2 q2 r3 s3
  assume s3: "stands cft_listener cft_attached k s3 ((atomic_access, r3) # q2 @ q1 @ tr)"
  then show "wpt G (verdict cft_listener cft_attached B P)
      (load cft_listener (\<lambda>s. cft_count (filtered_state s)) (\<lambda>n.
         fail cft_listener (''filtered reader received '' @ dec n @ '' samples total, expected exactly 5''))) s3
      ((atomic_access, r3) # q2 @ q1 @ tr)"
    by (rule wpt_load_stands) (simp, erule wpt_fail, rule assms(2))
  assume q: "idle q1" "idle q2" "{5..<10} \<subseteq> seqs Filtered (events (q2 @ q1 @ tr))"
    and n: "\<not> cft_count (filtered_state s3) \<noteq> PHASE2_COUNT"
  let ?q = "(atomic_access, r3) # q2 @ q1"
  have c: "counts (seqs Filtered (events (?q @ tr))) (filtered_state s3)"
    using synced_counts_cft(2) [of s3 "?q @ tr"] s3 by (simp add: stands_def)
  then have "finite (seqs Filtered (events (?q @ tr)))" "card (seqs Filtered (events (?q @ tr))) = 5"
    using n finite_subset unfolding counts_def cft_constants by (blast, simp)
  moreover have "{5..<10} \<subseteq> seqs Filtered (events (?q @ tr))"
    using q(3) by auto
  ultimately have "seqs Filtered (events (?q @ tr)) = {5..<10}"
    using card_subset_eq [of "seqs Filtered (events (?q @ tr))" "{5..<10}"] by simp
  then show "wpt G (verdict cft_listener cft_attached B P)
      (say cft_listener ''Subscriber: filtered reader received exactly the post-reconfigure samples {5..9}, confirming live re-filtering without CFT recreation.''
         p) s3 ((atomic_access, r3) # q2 @ q1 @ tr)"
    using q(1,2) s3 assms(3) [of _ _ ?q] by (intro wpt_step [OF s3]) (simp_all del: seqs_simps events_simps(3))
qed

fun sets_params :: "'v app_call \<Rightarrow> bool" where
  "sets_params (Query (set_expression_parameters c ps)) = True"
| "sets_params _ = False"

lemma idle_not_params: "idle q \<Longrightarrow> x \<in> set q \<Longrightarrow> \<not> sets_params (fst x)"
  by (cases "fst x") (auto simp: idle_def)

text \<open>The changes of a filter's parameters, and that the one to the threshold 3 was accepted.\<close>

fun set_params :: "'v app_call \<Rightarrow> (int \<times> string list) option" where
  "set_params (Query (set_expression_parameters c ps)) = Some (c, ps)"
| "set_params _ = None"

lemma idle_set_params [simp]: "idle_call c \<Longrightarrow> set_params c = None"
  by (cases c rule: set_params.cases) simp_all

definition reconfigured :: "int \<Rightarrow> (int, cft_event) atrace \<Rightarrow> bool" where
  "reconfigured cft tr \<longleftrightarrow> only set_params tr = [(cft, [''3''])]
     \<and> (\<exists>r. (Query (set_expression_parameters cft [''3'']), r) \<in> set tr \<and> ret r = DDS_RETCODE_OK)"

text \<open>What \<open>main\<close> created: the witness on the topic itself, the filtered reader on a content-filtered topic of it
  with the threshold 1000, and the writer of the go-ahead.\<close>

definition cft_made :: "int \<Rightarrow> int \<Rightarrow> int \<Rightarrow> int \<Rightarrow> (int, cft_event) atrace \<Rightarrow> bool" where
  "cft_made wdr cft fdr w tr \<longleftrightarrow> (\<exists>f domain dp topic go sub pub rq wq. creations tr =
     [(Entity zzdds_create_factory, f), (Entity (create_participant f domain), dp),
      (Entity (create_topic dp ''CftEvent'' ''CftEvent''), topic), (Entity (create_topic dp ''GoTopic'' ''CftEvent''), go),
      (Entity (create_subscriber dp), sub), (Entity (create_publisher dp), pub),
      (Entity (create_datareader sub topic (reliable_keep_all rq) False), wdr),
      (Query (create_contentfilteredtopic dp ''CftEvent_Filtered'' topic ''seq >= %0'' [''1000'']), cft),
      (Entity (create_datareader sub cft (reliable_keep_all rq) False), fdr),
      (Entity (create_datawriter pub go (reliable_keep_all wq)), w)])"

lemma cft_made_simps [simp]:
  "\<not> creates c \<Longrightarrow> cft_made wdr cft fdr w ((c, r) # tr) = cft_made wdr cft fdr w tr"
  "creations q = [] \<Longrightarrow> cft_made wdr cft fdr w (q @ tr) = cft_made wdr cft fdr w tr"
  by (simp_all add: cft_made_def)

text \<open>At some moment the witness had five samples and the filtered reader none.\<close>

definition nothing_filtered :: "(int, cft_event) atrace \<Rightarrow> bool" where
  "nothing_filtered t \<longleftrightarrow> (\<exists>q t'. t = q @ t' \<and> 5 \<le> card (seqs Witness (events t')) \<and> seqs Filtered (events t') = {})"

text \<open>At some moment after the go-ahead the filtered reader had exactly the samples of phase two and the
  witness all of them.\<close>

definition exactly_phase2 :: "int \<Rightarrow> (int, cft_event) atrace \<Rightarrow> bool" where
  "exactly_phase2 w t \<longleftrightarrow> (\<exists>q t'. t = q @ t' \<and> seqs Filtered (events t') = {5..<10}
     \<and> seqs Witness (events t') = {0..<10} \<and> only written t' = [(w, 0)])"

definition cft_setup_lines :: "string list" where
  "cft_setup_lines = [''Create topic: CftEvent'', ''Create topic: GoTopic'', ''Create reader for topic: CftEvent (witness)'',
     ''Subscriber: CFT introspection (filter_expression/expression_parameters/related_topic) verified at creation.'',
     ''Create reader for topic: CftEvent_Filtered'', ''Create writer for topic: GoTopic'', ''Subscriber: ready.'']"

definition cft_phase1_lines :: "string list" where
  "cft_phase1_lines = [''Subscriber: witnessed all 5 phase1 samples via unfiltered reader.'',
     ''Subscriber: filtered reader correctly received zero phase1 samples (threshold=1000).'',
     ''Subscriber: set_expression_parameters() reconfigured threshold to 3, read-back verified.'',
     ''Subscriber: sent go-ahead signal.'']"

definition cft_phase2_lines :: "string list" where
  "cft_phase2_lines = [''Subscriber: witnessed all 10 total samples via unfiltered reader.'',
     ''Subscriber: filtered reader received exactly the post-reconfigure samples {5..9}, confirming live re-filtering without CFT recreation.'',
     ''Subscriber: done.'']"

definition cft_verified :: "CftState \<Rightarrow> (int, cft_event) atrace \<Rightarrow> bool" where
  "cft_verified s tr \<longleftrightarrow>
     before sets_params nothing_filtered tr
     \<and> (\<exists>wdr cft fdr w. cft_made wdr cft fdr w tr \<and> reconfigured cft tr \<and> before is_write (reconfigured cft) tr
          \<and> exactly_phase2 w tr)
     \<and> only printed tr = cft_setup_lines @ cft_phase1_lines @ cft_phase2_lines \<and> closes tr"

text \<open>What the trace holds when \<open>main\<close> has printed \<open>lines\<close>, set the parameters \<open>ps\<close> and written \<open>ws\<close>.\<close>

definition cft_ready :: "int \<Rightarrow> int \<Rightarrow> (int, cft_event) atrace \<Rightarrow> bool" where
  "cft_ready cft w tr \<longleftrightarrow> (\<exists>wdr fdr. cft_made wdr cft fdr w tr) \<and> before is_write (reconfigured cft) tr"

definition cft_sets :: "int \<Rightarrow> bool \<Rightarrow> (int, cft_event) atrace \<Rightarrow> bool" where
  "cft_sets cft done tr \<longleftrightarrow> (if done then reconfigured cft tr else only set_params tr = [])"

definition cft_progress :: "int \<Rightarrow> int \<Rightarrow> int \<Rightarrow> string list \<Rightarrow> (int \<times> int) list \<Rightarrow> (int, cft_event) atrace \<Rightarrow> bool" where
  "cft_progress factory cft w lines ws tr \<longleftrightarrow>
     only printed tr = lines \<and> only written tr = ws \<and> only destroyed tr = []
     \<and> cft_ready cft w tr \<and> cft_sets cft (ws \<noteq> []) tr
     \<and> before sets_params nothing_filtered tr \<and> (\<exists>r. (Entity zzdds_create_factory, r) \<in> set tr \<and> ret r = factory)"

lemma cft_ready_idle: "idle q \<Longrightarrow> cft_ready cft w tr \<Longrightarrow> cft_ready cft w (q @ tr)"
  using before_other [of is_write "reconfigured cft" tr q] idle_not_write by (auto simp: cft_ready_def)

lemma cft_sets_idle: "idle q \<Longrightarrow> cft_sets cft b tr \<Longrightarrow> cft_sets cft b (q @ tr)"
  by (auto simp: cft_sets_def reconfigured_def)

lemma cft_progress_idle: "idle q \<Longrightarrow> cft_progress factory cft w lines ws tr \<Longrightarrow> cft_progress factory cft w lines ws (q @ tr)"
  using before_other [of sets_params nothing_filtered tr q] idle_not_params cft_ready_idle [of q cft w tr] cft_sets_idle [of q cft "ws \<noteq> []" tr]
  by (auto simp: cft_progress_def)

lemma cft_progress_say: "cft_progress factory cft w lines ws tr \<Longrightarrow> cft_progress factory cft w (lines @ [l]) ws ((printf l, r) # tr)"
  by (auto simp: cft_progress_def cft_ready_def cft_sets_def reconfigured_def)

lemma witness_five:
  "synced cft_listener cft_attached s tr \<Longrightarrow> cft_count (witness_state s) \<ge> PHASE1_COUNT \<Longrightarrow> 5 \<le> card (seqs Witness (events tr))"
  using synced_counts_cft(1) by (fastforce simp: counts_def cft_constants)

lemma witness_all:
  assumes "synced cft_listener cft_attached s tr" and "cft_count (witness_state s) \<ge> TOTAL_COUNT"
  shows "seqs Witness (events tr) = {0..<10}"
  using synced_counts_cft(1) [OF assms(1)] assms(2) card_seteq [of "{0..<10}" "seqs Witness (events tr)"]
  by (simp add: counts_def cft_constants)

lemma filtered_none:
  "stands cft_listener cft_attached k s tr \<Longrightarrow> cft_count (filtered_state s) = 0 \<Longrightarrow> seqs Filtered (events tr) = {}"
  using synced_counts_cft(2) [of s tr] finite_subset [of "seqs Filtered (events tr)" "{0..<int TOTAL_COUNT}"]
  by (auto simp: counts_def stands_def)

lemma witness_bounded:
  assumes "stands cft_listener cft_attached k s (q' @ q @ tr)" and "{0..<10} \<subseteq> seqs Witness (events tr)"
  shows "seqs Witness (events (q @ tr)) = {0..<10}"
  using synced_counts_cft(1) [of s "q' @ q @ tr"] assms by (auto simp: counts_def cft_constants stands_def)

lemma cft_verified_trace:
  assumes s: "stands cft_listener cft_attached k s ((printf l2, r2) # q2 @ tr)"
    and p: "cft_progress factory cft w ((cft_setup_lines @ cft_phase1_lines) @ [l1]) [(w, 0)] tr"
    and l: "cft_phase2_lines = [l1, l2, l3]" and q: "idle q2"
    and f: "seqs Filtered (events (q2 @ tr)) = {5..<10}" and wit: "{0..<10} \<subseteq> seqs Witness (events tr)"
  shows "cft_verified s' ((Entity (zzdds_destroy_factory factory), r4) # (printf l3, r3) # (printf l2, r2) # q2 @ tr)"
proof -
  have p': "cft_progress factory cft w ((cft_setup_lines @ cft_phase1_lines) @ [l1]) [(w, 0)] (q2 @ tr)"
    using p q by (rule cft_progress_idle [rotated])
  have "seqs Witness (events (q2 @ tr)) = {0..<10}"
    using witness_bounded [of k s "[(printf l2, r2)]" q2 tr] s wit by simp
  then have "exactly_phase2 w ((Entity (zzdds_destroy_factory factory), r4) # (printf l3, r3) # (printf l2, r2) # q2 @ tr)"
    unfolding exactly_phase2_def using f p'
    by (intro exI [of _ "[(Entity (zzdds_destroy_factory factory), r4), (printf l3, r3), (printf l2, r2)]"] exI [of _ "q2 @ tr"])
       (simp add: cft_progress_def)
  moreover have "closes ((Entity (zzdds_destroy_factory factory), r4) # (printf l3, r3) # (printf l2, r2) # q2 @ tr)"
    using p' by (intro closesI) (auto simp: cft_progress_def)
  moreover have "cft_ready cft w (q2 @ tr)" "reconfigured cft (q2 @ tr)"
    using p' by (simp_all add: cft_progress_def cft_sets_def)
  ultimately show ?thesis
    using p' unfolding cft_verified_def l
    by (auto simp: cft_progress_def cft_ready_def reconfigured_def)
qed

lemma wpt_cft_phase2:
  assumes "stands cft_listener cft_attached 48000 s tr"
    and "cft_progress factory cft w (cft_setup_lines @ cft_phase1_lines) [(w, 0)] tr"
  shows "wpt G (verdict cft_listener cft_attached 88000 cft_verified) (cft_phase2 factory ep) s tr"
  unfolding cft_phase2_def Let_def
  apply (insert assms(2))
  apply (rule wpt_await_until [where R = "\<lambda>t. seqs Witness (events t) = {0..<10}", OF reads_load _ assms(1)],
      erule witness_all, assumption, simp)
  apply (rule wpt_ifI, erule wpt_time_out, simp add: cft_constants)
  apply (erule wpt_step, simp, simp)
  apply (rule wpt_await_until [where R = "\<lambda>t. True", OF reads_load], simp, assumption, simp)
  apply (rule wpt_ifI, erule wpt_time_out, simp add: cft_constants)
  apply (rule wpt_final_assertions, assumption, simp add: cft_constants)
  apply (rule wpt_step, assumption, simp, simp)
  apply (rule wpt_step, assumption, simp, simp)
  apply (simp only: wpt.simps verdict_def)
  apply (rule disjI2, rule conjI, simp add: stands_def cft_constants, rule disjI2, rule conjI, rule refl, rule conjI, simp add: stands_def)
  apply (rule cft_verified_trace, assumption, rule cft_progress_idle, assumption, rule cft_progress_say, rule cft_progress_idle,
      assumption, assumption, simp add: cft_phase2_lines_def, assumption, assumption)
  apply auto
  done

lemma phase1_trace:
  assumes "cft_progress factory cft w cft_setup_lines [] tr" and "idle q" and "5 \<le> card (seqs Witness (events (q @ tr)))"
    and "seqs Filtered (events ((atomic_access, r3) # (sleep_ms n, r2) # (printf l1, r1) # q @ tr)) = {}"
    and fin: "finite (seqs Witness (events ((atomic_access, r3) # (sleep_ms n, r2) # (printf l1, r1) # q @ tr)))"
    and "cft_phase1_lines = [l1, l2, l3, l4]" and "ps = [''3'']" and "ret r5 = DDS_RETCODE_OK"
  shows "cft_progress factory cft w (cft_setup_lines @ cft_phase1_lines) [(w, 0)]
     ((printf l4, r10) # (Data (write_data w 0 0), r9) # (printf l3, r8) # (sequence_free, r7)
      # (Query (get_expression_parameters cft), r6) # (Query (set_expression_parameters cft ps), r5)
      # (printf l2, r4) # (atomic_access, r3) # (sleep_ms n, r2) # (printf l1, r1) # q @ tr)"
proof -
  let ?t = "(atomic_access, r3) # (sleep_ms n, r2) # (printf l1, r1) # q @ tr"
  have "card (seqs Witness (events (q @ tr))) \<le> card (seqs Witness (events ?t))"
    using fin by (intro card_mono) auto
  then have "nothing_filtered ((printf l2, r4) # ?t)"
    unfolding nothing_filtered_def using assms(3,4)
    by (intro exI [of _ "[(printf l2, r4)]"] exI [of _ ?t]) simp
  then show ?thesis
    using cft_progress_idle [OF assms(2,1)] assms(6,7,8)
    by (auto simp: cft_progress_def cft_ready_def cft_sets_def reconfigured_def)
qed

lemma witness_finite: "stands cft_listener cft_attached k s tr \<Longrightarrow> finite (seqs Witness (events tr))"
  using synced_counts_cft(1) [of s tr] finite_subset by (auto simp: counts_def stands_def)

lemma wpt_cft_phases:
  assumes "stands cft_listener cft_attached 0 s tr" and "cft_progress factory cft (go_dw ep) cft_setup_lines [] tr"
  shows "wpt G (verdict cft_listener cft_attached 88000 cft_verified) (cft_phases factory cft ep) s tr"
  unfolding cft_phases_def new_params_def Let_def
  apply (rule wpt_await_until [where R = "\<lambda>t. 5 \<le> card (seqs Witness (events t))", OF reads_load _ assms(1)],
      erule witness_five, assumption, simp)
  apply (rule wpt_ifI, erule wpt_time_out, simp add: cft_constants)
  apply (erule wpt_step, simp, simp)
  apply (erule wpt_sleep, simp)
  apply (erule wpt_load_stands, simp)
  apply (rule wpt_ifI, erule wpt_fail, simp add: cft_constants)
  apply (frule filtered_none, simp, frule witness_finite)
  apply (erule wpt_step, simp, simp)
  apply (erule wpt_check, simp add: cft_constants)
  apply (erule wpt_step, simp, simp)
  apply (rule wpt_ifI, erule wpt_fail, simp add: cft_constants)
  apply (erule wpt_step, simp, simp)+
  apply (erule wpt_check, simp add: cft_constants)
  apply (erule wpt_step, simp, simp)
  apply (rule wpt_cft_phase2, simp add: cft_constants)
  apply (rule phase1_trace [OF assms(2)], assumption, simp, simp, simp, simp add: cft_phase1_lines_def, simp, simp)
  done

lemma opened_progress:
  "opened argv type_name factory dp tr \<Longrightarrow> before sets_params P tr"
  "opened argv type_name factory dp tr \<Longrightarrow> before is_write R tr"
  "opened argv type_name factory dp tr \<Longrightarrow> only set_params tr = []"
  by (auto simp: opened_def)

lemma cft_subscriber_wpt:
  "wpt (listening installs_reader_listener) (verdict cft_listener cft_attached 88000 cft_verified) (cft_subscriber argv) s []"
  unfolding cft_subscriber_def introspect_def Let_def
  apply (rule wpt_open_participant [OF heeds_reader setup_not_reader], assumption)
  apply ((erule early_reader, (simp; fail)) | (rule wpt_ifI, erule early_fail [OF heeds_reader]) | rule wpt_PutI)+
  apply (fold cft_attached_def)
  apply (rule wpt_check, erule early_stands, simp)
  apply (erule wpt_check, simp)
  apply (erule wpt_step, simp, simp)
  apply (erule wpt_cft_phases)
  apply (simp add: cft_progress_def cft_setup_lines_def opened_progress opened_factory cft_ready_def cft_made_def cft_sets_def)
  apply (intro conjI; rule exI; rule refl)
  done

lemma cft_subscriber_sleeps: "sleeps 88000 (cft_subscriber argv)"
  unfolding cft_subscriber_def introspect_def cft_phases_def new_params_def cft_phase2_def final_assertions_def
    none_of_phase1_def all_of_phase2_def time_out_def reader_matched_def writer_matched_def Let_def
  by (rule sleeps_open | rule sleeps_sleep | rule sleeps_steps sleeps_poll sleeps_bind [OF sleeps_for]
    | simp add: cft_constants; fail)+

text \<open>C27. The content-filter test against an arbitrary middleware that calls no listener before it is
  installed. However it ends, it has slept 88 seconds at most, and it never uses an index outside \<open>received\<close> or a
  null reader; it ends with 1, after a \<open>FAIL:\<close> line or by \<open>exit(1)\<close> in a listener, or with 0. With 0 it has proved
  what its header comment claims: it created a reader on the topic and one on a content-filtered topic of it with the
  threshold 1000; it changed the parameters of that filter exactly once, to the threshold 3, and the change was
  accepted, before the go-ahead was written; when the parameter was changed, the unfiltered reader had taken at
  least five different samples and, at a moment after that, the filtered reader none; and at a later
  moment, with the go-ahead sent, the filtered reader had taken exactly the samples 5 to 9, never one
  of phase one, and the unfiltered reader all ten. Every documented line was printed in order and the
  factory was destroyed.\<close>

theorem cft_subscriber_contract:
  assumes "\<And>tr c. listening installs_reader_listener tr c (env tr c)"
  shows "case run env (cft_subscriber argv) s [] of (x, s', tr) \<Rightarrow>
    slept tr \<le> 88000 \<and> (x = Val 1 \<and> failed tr \<or> x = Val 0 \<and> cft_verified s' tr \<or> x = Exit 1)"
proof -
  obtain x s' tr where r: "run env (cft_subscriber argv) s [] = (x, s', tr)"
    by (cases "run env (cft_subscriber argv) s []")
  have "verdict cft_listener cft_attached 88000 cft_verified x s' tr"
    by (rule wpt_run [OF cft_subscriber_wpt assms r])
  then show ?thesis
    using cft_breaks [OF refl, of "events tr"] sleeps_run [OF cft_subscriber_sleeps r]
    unfolding r verdict_def by (cases x) auto
qed

text \<open>A middleware that filters correctly.\<close>

fun cft_env :: "(int app_call, (int, cft_event) answer) env" where
  "cft_env tr (Entity (zzdds_factory_is_nil f)) = answers 0 []"
| "cft_env tr (Entity (type_support_register dp t)) = answers 0 []"
| "cft_env tr (Entity (set_listener dr)) = answers 0 (if dr = 5
     then map (\<lambda>n. Cft_taken Witness 0 n True) [0, 1, 2, 3, 4] @ [Cft_taken Witness 11 0 False] else [])"
| "cft_env tr (Entity (create_datareader sub t q listener)) = answers (if t = 1 then 5 else 6) []"
| "cft_env tr (Entity c) = answers 1 []"
| "cft_env tr (Query (create_contentfilteredtopic dp n t e ps)) = answers 2 []"
| "cft_env tr (Query (get_filter_expression c)) = (answers 0 [])\<lparr>strs := [''seq >= %0'']\<rparr>"
| "cft_env tr (Query (get_expression_parameters c)) =
     (answers 0 [])\<lparr>strs := [if list_ex (sets_params \<circ> fst) tr then ''3'' else ''1000'']\<rparr>"
| "cft_env tr (Query (get_related_topic c)) = answers 1 []"
| "cft_env tr (Query (get_name t)) = (answers 0 [])\<lparr>strs := [''CftEvent'']\<rparr>"
| "cft_env tr (Data d) = answers 0 (map (\<lambda>n. Cft_taken Witness 0 n True) [5, 6, 7, 8, 9]
     @ map (\<lambda>n. Cft_taken Filtered 0 n True) [5, 6, 7, 8, 9])"
| "cft_env tr c = answers 0 []"

lemma ten_flags: "replicate 10 False = [False, False, False, False, False, False, False, False, False, False]"
  by (simp add: eval_nat_numeral)

lemma cft_run: "fst (run (silent_before installs_reader_listener cft_env) (cft_subscriber [''s'']) cft_attached []) = Val 0"
  by (simp add: evaluate cft_subscriber_def introspect_def cft_phases_def cft_phase2_def new_params_def final_assertions_def
      none_of_phase1_def all_of_phase2_def cft_on_data_available_def zero_reader_def silent_before_def cft_constants
      ten_flags)

theorem cft_subscriber_contract_witness:
  "case run (silent_before installs_reader_listener cft_env) (cft_subscriber [''s'']) cft_attached [] of (x, s', tr) \<Rightarrow>
    slept tr \<le> 88000 \<and> x = Val 0 \<and> cft_verified s' tr"
  using cft_subscriber_contract [where env = "silent_before installs_reader_listener cft_env", OF silent_before_listens,
      of "[''s'']" cft_attached] cft_run
  by (auto simp: split_beta)

text \<open>The listener function both readers share: while the process runs, the flag of a number is set
  exactly when that reader took it with valid data, the counter is the number of different numbers
  taken, and none lies outside 0 to 9; duplicates are not counted twice.\<close>

theorem cft_listener_counts_distinct:
  assumes "deliver cft_listener es cft_attached = Val s"
  shows "counts (seqs Witness es) (witness_state s) \<and> counts (seqs Filtered es) (filtered_state s)"
  using assms by (rule cft_listener_counts)

theorem cft_listener_counts_distinct_witness:
  "\<exists>s. deliver cft_listener [Cft_taken Witness 0 7 True, Cft_taken Witness 0 7 True, Cft_taken Filtered 0 3 False] cft_attached = Val s
     \<and> counts {7} (witness_state s) \<and> counts {} (filtered_state s)"
proof -
  let ?es = "[Cft_taken Witness 0 7 True, Cft_taken Witness 0 7 True, Cft_taken Filtered 0 3 False]"
  have "\<exists>s. deliver cft_listener ?es cft_attached = Val s"
    by (simp add: cft_attached_def zero_reader_def cft_on_data_available_def cft_constants ten_flags)
  then obtain s where s: "deliver cft_listener ?es cft_attached = Val s" ..
  have "seqs Witness ?es = {7}" and "seqs Filtered ?es = {}"
    by (auto simp: seqs_def)
  then show ?thesis
    using cft_listener_counts_distinct [OF s] s by simp
qed

end
