(* ===== verification/Waitset_Subscriber.thy ===== *)
theory Waitset_Subscriber
  imports Example_Kit
begin

text \<open>
  The subscriber of \<open>examples/c/waitset\<close>: four kinds of condition on one wait set, and a watchdog
  thread that triggers the guard condition after thirty seconds so that the loop cannot wait forever.
\<close>

definition WS_EXPECTED_SAMPLES :: nat where "WS_EXPECTED_SAMPLES = 10"
definition WAIT_STEP_SEC :: nat where "WAIT_STEP_SEC = 1"
definition OVERALL_DEADLINE_MS :: nat where "OVERALL_DEADLINE_MS = 30000"
definition WATCHDOG_POLL_MS :: nat where "WATCHDOG_POLL_MS = 50"

section \<open>The watchdog thread\<close>

text \<open>\<open>alive\<close>: the thread is in its loop. \<open>tripped\<close>: it has set the guard condition's trigger value.\<close>

record Watchdog =
  stop :: bool
  alive :: bool
  elapsed_ms :: nat
  tripped :: bool

definition watchdog_start :: Watchdog where
  "watchdog_start = \<lparr>stop = False, alive = True, elapsed_ms = 0, tripped = False\<rparr>"

text \<open>One iteration of the loop of \<open>watchdog_run\<close>, its sleep included.\<close>

datatype tick = Tick

fun watchdog_run :: "(tick, Watchdog) handler" where
  "watchdog_run Tick w =
     (if \<not> alive w then Val w
      else if stop w then Val (w\<lparr>alive := False\<rparr>)
      else if elapsed_ms w \<ge> OVERALL_DEADLINE_MS then Val (w\<lparr>tripped := True, alive := False\<rparr>)
      else Val (w\<lparr>elapsed_ms := elapsed_ms w + WATCHDOG_POLL_MS\<rparr>))"

section \<open>The wait loop\<close>

record WaitsetSample =
  ws_count :: int
  priority :: int

type_synonym 'a waitset = "(Watchdog, WaitsetSample, tick, 'a) app"

record conditions =
  ws :: int
  ws_reader :: int
  sc_cond :: int
  rc_cond :: int
  qc_cond :: int
  gc_cond :: int

definition condition_active :: "int list \<Rightarrow> int \<Rightarrow> bool" where
  "condition_active active c = list_ex (\<lambda>x. x = c) active"

text \<open>The first \<open>n\<close> entries of the zeroed arrays of ten that a batch take filled in.\<close>

definition batch :: "int \<Rightarrow> (WaitsetSample \<times> bool) list \<Rightarrow> (WaitsetSample \<times> bool) list" where
  "batch n arr = take (nat n) (arr @ replicate WS_EXPECTED_SAMPLES (\<lparr>ws_count = 0, priority = 0\<rparr>, False))"

definition sample_label :: "WaitsetSample \<Rightarrow> string" where
  "sample_label v = (if priority v > 4 then ''Subscriber: high-priority count='' else ''Subscriber: low-priority count='')
     @ dec_int (ws_count v) @ '' priority='' @ dec_int (priority v)"

fun report_batch :: "(WaitsetSample \<times> bool) list \<Rightarrow> 'a waitset \<Rightarrow> 'a waitset" where
  "report_batch [] p = p"
| "report_batch ((v, valid) # xs) p =
     (if valid then say watchdog_run (sample_label v) (report_batch xs p) else report_batch xs p)"

definition valid_in :: "(WaitsetSample \<times> bool) list \<Rightarrow> nat" where
  "valid_in xs = length (filter snd xs)"

definition note_match :: "conditions \<Rightarrow> bool \<Rightarrow> bool \<Rightarrow> (bool \<Rightarrow> 'a waitset) \<Rightarrow> 'a waitset" where
  "note_match c matched_logged sc_triggered k =
     (if \<not> matched_logged \<and> sc_triggered
      then sys watchdog_run (Query (get_subscription_matched_status (ws_reader c))) (\<lambda>r.
             if num r > 0 then say watchdog_run ''Subscriber: writer matched'' (k True) else k matched_logged)
      else k matched_logged)"

text \<open>Both takes of one pass; an answer above the capacity of the arrays reads past them.\<close>

definition take_batches :: "conditions \<Rightarrow> (nat \<Rightarrow> 'a waitset) \<Rightarrow> 'a waitset" where
  "take_batches c k =
     sys watchdog_run (Data (take_w_condition (ws_reader c) (qc_cond c) WS_EXPECTED_SAMPLES)) (\<lambda>high.
     sys watchdog_run (Data (take_n (ws_reader c) WS_EXPECTED_SAMPLES)) (\<lambda>low.
     if ret high > int WS_EXPECTED_SAMPLES \<or> ret low > int WS_EXPECTED_SAMPLES then Leaf (Crash ''read past the sample arrays'')
     else report_batch (batch (ret high) (got high)) (report_batch (batch (ret low) (got low))
       (k (valid_in (batch (ret high) (got high)) + valid_in (batch (ret low) (got low)))))))"

text \<open>One pass; \<open>go\<close> is the rest of the loop with the new count and flag.\<close>

definition drain_active :: "conditions \<Rightarrow> int list \<Rightarrow> nat \<Rightarrow> bool \<Rightarrow> (nat \<Rightarrow> bool \<Rightarrow> 'a waitset) \<Rightarrow> 'a waitset" where
  "drain_active c active n matched_logged go =
     (let sc_triggered = condition_active active (sc_cond c);
          query_triggered = condition_active active (qc_cond c);
          read_triggered = condition_active active (rc_cond c)
      in note_match c matched_logged sc_triggered (\<lambda>logged.
        if \<not> query_triggered \<and> \<not> read_triggered then go n logged
        else take_batches c (\<lambda>k. go (n + k) logged)))"

definition wait_pass :: "conditions \<Rightarrow> nat \<Rightarrow> bool \<Rightarrow> (nat \<Rightarrow> bool \<Rightarrow> int option waitset) \<Rightarrow> int option waitset" where
  "wait_pass c n matched_logged go =
     sys watchdog_run (Wait (waitset_wait (ws c) WAIT_STEP_SEC)) (\<lambda>r.
       if ret r = DDS_RETCODE_TIMEOUT then go n matched_logged
       else if ret r \<noteq> DDS_RETCODE_OK then fail_out watchdog_run (''WaitSet.wait() returned '' @ dec_int (ret r))
       else sys watchdog_run sequence_free (\<lambda>_.
         if condition_active (hs r) (gc_cond c)
         then fail_out watchdog_run (''watchdog fired -- only received '' @ dec n @ ''/10 samples'')
         else drain_active c (hs r) n matched_logged go))"

text \<open>The loop, with a bound on the number of calls of \<open>wait\<close>.\<close>

fun wait_loop :: "nat \<Rightarrow> conditions \<Rightarrow> nat \<Rightarrow> bool \<Rightarrow> int option waitset" where
  "wait_loop fuel c n matched_logged =
     (if n \<ge> WS_EXPECTED_SAMPLES then Return None
      else case fuel of 0 \<Rightarrow> Leaf OutOfFuel | Suc fuel \<Rightarrow> wait_pass c n matched_logged (wait_loop fuel c))"

declare wait_loop.simps [simp del]

section \<open>\<open>main\<close>\<close>

definition attach_all :: "conditions \<Rightarrow> int waitset \<Rightarrow> int waitset" where
  "attach_all c p = (let h = watchdog_run in
     check h (Wait (attach_condition (ws c) (sc_cond c))) ''attach_condition() failed'' (
     check h (Wait (attach_condition (ws c) (rc_cond c))) ''attach_condition() failed'' (
     check h (Wait (attach_condition (ws c) (qc_cond c))) ''attach_condition() failed'' (
     check h (Wait (attach_condition (ws c) (gc_cond c))) ''attach_condition() failed'' (
     sys h (Wait (get_conditions (ws c))) (\<lambda>r.
       if ret r \<noteq> DDS_RETCODE_OK then fail h ''WaitSet_get_conditions() failed''
       else if length (hs r) \<noteq> 4
       then sys h (eprintf (FAIL (''WaitSet_get_conditions() returned '' @ dec (length (hs r)) @ '' conditions, expected 4''))) (\<lambda>_.
            sys h sequence_free (\<lambda>_. Return 1))
       else sys h sequence_free (\<lambda>_. p)))))))"

definition create_conditions :: "int \<Rightarrow> (conditions \<Rightarrow> int waitset) \<Rightarrow> int waitset" where
  "create_conditions dr k = (let h = watchdog_run in
     sys h (Wait zzdds_create_waitset) (\<lambda>w.
     sys h (Wait (zzdds_waitset_is_nil (ret w))) (\<lambda>nil.
     if ret nil \<noteq> 0 then fail h ''create_waitset() failed''
     else sys h (Wait (get_statuscondition dr)) (\<lambda>sc.
     check h (Wait (set_enabled_statuses (ret sc))) ''set_enabled_statuses() failed'' (
     need h (Wait (create_readcondition dr)) ''create_readcondition() failed'' (\<lambda>rc.
     need h (Wait (create_querycondition dr ''priority > %0'' [''4''])) ''create_querycondition() failed'' (\<lambda>qc.
     sys h (Wait zzdds_create_guardcondition) (\<lambda>gc.
     sys h (Wait (zzdds_guardcondition_is_nil (ret gc))) (\<lambda>nil.
     if ret nil \<noteq> 0 then fail h ''create_guardcondition() failed''
     else k \<lparr>ws = ret w, ws_reader = dr, sc_cond = ret sc, rc_cond = rc, qc_cond = qc, gc_cond = ret gc\<rparr>)))))))))"

definition tear_down :: "int \<Rightarrow> int \<Rightarrow> conditions \<Rightarrow> int waitset" where
  "tear_down factory sub c = (let h = watchdog_run in
     say h ''Subscriber: received all 10 samples.'' (
     store h (\<lambda>w. w\<lparr>stop := True\<rparr>) (
     sys h thread_join (\<lambda>_.
     sys h (Wait (detach_condition (ws c) (sc_cond c))) (\<lambda>_.
     sys h (Wait (detach_condition (ws c) (rc_cond c))) (\<lambda>_.
     sys h (Wait (detach_condition (ws c) (qc_cond c))) (\<lambda>_.
     sys h (Wait (detach_condition (ws c) (gc_cond c))) (\<lambda>_.
     sys h (Wait (delete_readcondition (ws_reader c) (rc_cond c))) (\<lambda>_.
     sys h (Wait (delete_readcondition (ws_reader c) (qc_cond c))) (\<lambda>_.
     sys h (Entity (delete_datareader sub (ws_reader c))) (\<lambda>_.
     sys h (Wait (zzdds_destroy_guardcondition (gc_cond c))) (\<lambda>_.
     sys h (Wait (zzdds_destroy_waitset (ws c))) (\<lambda>_.
     say h ''Subscriber: done.'' (
     sys h (Entity (zzdds_destroy_factory factory)) (\<lambda>_. Return 0)))))))))))))))"

definition waitset_subscriber :: "nat \<Rightarrow> string list \<Rightarrow> int waitset" where
  "waitset_subscriber fuel argv = (let h = watchdog_run in
     open_participant h argv ''WaitsetSample'' ''register_type_support failed'' (\<lambda>factory dp.
     need h (Entity (create_topic dp ''WaitsetSample'' ''WaitsetSample'')) ''create_topic() failed'' (\<lambda>topic.
     say h ''Create topic: WaitsetSample'' (
     need h (Entity (create_subscriber dp)) ''create_subscriber() failed'' (\<lambda>sub.
     sys h (Entity (get_default_datareader_qos sub)) (\<lambda>dflt.
     need h (Entity (create_datareader sub topic (reliable_keep_all (num dflt)) False)) ''create_datareader() failed'' (\<lambda>dr.
     say h ''Create reader for topic: WaitsetSample'' (
     create_conditions dr (\<lambda>c.
     attach_all c (
     Put watchdog_start (
     sys h thread_create (\<lambda>r.
     if ret r \<noteq> 0 then fail h ''watchdog thread creation failed''
     else bind_prog (wait_loop fuel c 0 False) (\<lambda>x. leave_or x (tear_down factory sub c))))))))))))))"

end
