(* ===== verification/Waitset_Contracts.thy ===== *)
theory Waitset_Contracts
  imports Waitset_Subscriber
begin

text \<open>
  What the wait set subscriber guarantees: it ends although its loop has no time limit of its own, it
  ends successfully only with ten valid samples taken and reported, and it takes its conditions down in
  an order that never uses one after it is gone.
\<close>

section \<open>The watchdog\<close>

lemma watchdog_total: "\<exists>w'. deliver watchdog_run es w = Val w'"
proof (induction es arbitrary: w)
  case (Cons e es)
  then show ?case by (cases e) (auto split: if_splits)
qed simp

text \<open>\<open>main\<close> never looks at the shared state, so a call of \<open>main\<close> goes on in some state.\<close>

lemma wpt_ticks:
  assumes "\<And>r s'. G tr c r \<Longrightarrow> wpt G Q (k r) s' ((c, r) # tr)"
  shows "wpt G Q (sys watchdog_run c k) s tr"
proof -
  have "wpt G Q (case deliver watchdog_run (evs r) s of Val s' \<Rightarrow> Put s' (k r) | Exit n \<Rightarrow> Leaf (Exit n)
      | Crash m \<Rightarrow> Leaf (Crash m) | OutOfFuel \<Rightarrow> Leaf OutOfFuel) s ((c, r) # tr)" if "G tr c r" for r
    using watchdog_total [of "evs r" s] assms that by auto
  then show ?thesis by (simp add: sys_def)
qed

definition watchdog_fired :: "('v, tick) atrace \<Rightarrow> bool" where
  "watchdog_fired tr = (case deliver watchdog_run (events tr) watchdog_start of Val w \<Rightarrow> tripped w | _ \<Rightarrow> False)"

lemma watchdog_dead: "\<not> alive w \<Longrightarrow> deliver watchdog_run es w = Val w"
proof (induction es)
  case (Cons e es)
  then show ?case by (cases e) simp
qed simp

lemma watchdog_trips:
  assumes "\<not> stop w" and "alive w" and "\<not> tripped w" and "elapsed_ms w + 50 * n = 30000"
  shows "(case deliver watchdog_run es w of Val w' \<Rightarrow> tripped w' | _ \<Rightarrow> False) \<longleftrightarrow> length es > n"
  using assms
proof (induction es arbitrary: w n)
  case (Cons e es)
  show ?case
  proof (cases n)
    case 0
    with Cons.prems show ?thesis
      by (cases e) (simp add: OVERALL_DEADLINE_MS_def watchdog_dead)
  next
    case (Suc m)
    with Cons.prems Cons.IH [of "w\<lparr>elapsed_ms := elapsed_ms w + WATCHDOG_POLL_MS\<rparr>" m] show ?thesis
      by (cases e) (simp add: OVERALL_DEADLINE_MS_def WATCHDOG_POLL_MS_def)
  qed
qed simp

lemma watchdog_fired_iff: "watchdog_fired tr \<longleftrightarrow> length (events tr) > 600"
  unfolding watchdog_fired_def by (rule watchdog_trips) (simp_all add: watchdog_start_def)

section \<open>Measures\<close>

definition waits :: "('v, 'e) atrace \<Rightarrow> nat" where
  "waits tr = length (filter (is_wait \<circ> fst) tr)"

lemma waits_simps [simp]:
  "waits [] = 0"
  "waits ((c, r) # tr) = of_bool (is_wait c) + waits tr"
  "waits (q @ tr) = waits q + waits tr"
  by (simp_all add: waits_def)

fun is_take :: "'v app_call \<Rightarrow> bool" where
  "is_take (Data (take_w_condition dr c n)) = True"
| "is_take (Data (take_n dr n)) = True"
| "is_take _ = False"

text \<open>The valid samples of a batch, and those of all takes of a run in their order.\<close>

definition valid_samples :: "(WaitsetSample \<times> bool) list \<Rightarrow> WaitsetSample list" where
  "valid_samples xs = map fst (filter snd xs)"

lemma valid_samples_simps [simp]:
  "valid_samples [] = []"
  "valid_samples ((v, b) # xs) = (if b then v # valid_samples xs else valid_samples xs)"
  by (simp_all add: valid_samples_def)

lemma valid_in_length: "valid_in xs = length (valid_samples xs)"
  by (simp add: valid_in_def valid_samples_def)

definition taken :: "(WaitsetSample, tick) atrace \<Rightarrow> WaitsetSample list" where
  "taken tr = concat (map (\<lambda>x. if is_take (fst x) then valid_samples (batch (ret (snd x)) (got (snd x))) else []) (rev tr))"

lemma taken_simps [simp]:
  "taken [] = []"
  "taken ((c, r) # tr) = taken tr @ (if is_take c then valid_samples (batch (ret r) (got r)) else [])"
  "taken (q @ tr) = taken tr @ taken q"
  by (simp_all add: taken_def)

lemma valid_batch_bound: "n \<le> 10 \<Longrightarrow> length (valid_samples (batch n xs)) \<le> 10"
proof -
  assume "n \<le> 10"
  have "length (valid_samples (batch n xs)) \<le> length (batch n xs)"
    by (simp add: valid_samples_def)
  also have "\<dots> \<le> nat n"
    by (simp add: batch_def)
  finally show ?thesis using \<open>n \<le> 10\<close> by simp
qed

text \<open>A stretch of \<open>main\<close> that prints some lines and does nothing else.\<close>

definition prints :: "string list \<Rightarrow> (WaitsetSample, tick) atrace \<Rightarrow> bool" where
  "prints lines q \<longleftrightarrow> list_all (\<lambda>x. printed (fst x) \<noteq> None) q \<and> only printed q = lines"

lemma printed_Some: "printed c = Some l \<longleftrightarrow> c = printf l"
  by (cases c) auto

lemma prints_other:
  assumes "prints lines q"
  shows "taken q = []" "waits q = 0" "only destroyed q = []"
proof -
  have "list_all (\<lambda>x. printed (fst x) \<noteq> None) q \<Longrightarrow> taken q = [] \<and> waits q = 0 \<and> only destroyed q = []"
    by (induction q) (auto simp: printed_Some)
  then show "taken q = []" "waits q = 0" "only destroyed q = []"
    using assms by (simp_all add: prints_def)
qed

lemma wpt_report_batch:
  assumes "\<And>q s'. prints (map sample_label (valid_samples xs)) q \<Longrightarrow> wpt G Q p s' (q @ tr)"
  shows "wpt G Q (report_batch xs p) s tr"
  using assms
proof (induction xs arbitrary: s tr)
  case Nil
  then show ?case using Nil [of "[]" s] by (simp add: prints_def)
next
  case (Cons x xs)
  obtain v valid where x: "x = (v, valid)" by fastforce
  show ?case
  proof (cases valid)
    case True
    have "wpt G Q (report_batch xs p) s' ((printf (sample_label v), r) # tr)" for s' r
    proof (rule Cons.IH)
      fix q s''
      assume "prints (map sample_label (valid_samples xs)) q"
      then have "prints (map sample_label (valid_samples (x # xs))) (q @ [(printf (sample_label v), r)])"
        using x True by (simp add: prints_def)
      from Cons.prems [OF this] show "wpt G Q p s'' (q @ (printf (sample_label v), r) # tr)" by simp
    qed
    with x True show ?thesis by (simp add: wpt_ticks)
  next
    case False
    with x Cons show ?thesis by simp
  qed
qed

section \<open>The environment\<close>

fun starts_thread :: "'v app_call \<Rightarrow> bool" where
  "starts_thread thread_create = True"
| "starts_thread _ = False"

text \<open>
  What is asked of the platform and the middleware: the watchdog runs only once its thread is created,
  and then it is scheduled, so that \<open>k\<close> waits take at least one of its periods; a take returns no more
  samples than asked for; and once the guard condition is triggered, waiting ends at once and reports it.
\<close>

definition wait_contract :: "nat \<Rightarrow> (WaitsetSample, tick) atrace \<Rightarrow> WaitsetSample app_call \<Rightarrow> (WaitsetSample, tick) answer \<Rightarrow> bool" where
  "wait_contract k tr c r \<longleftrightarrow>
     listening starts_thread tr c r
     \<and> (is_take c \<longrightarrow> ret r \<le> int WS_EXPECTED_SAMPLES)
     \<and> (is_wait c \<and> list_ex (starts_thread \<circ> fst) tr \<longrightarrow> Suc (waits tr) \<le> k * Suc (length (events tr @ evs r)))
     \<and> (is_wait c \<and> watchdog_fired tr \<longrightarrow> ret r \<noteq> DDS_RETCODE_TIMEOUT
          \<and> (ret r = DDS_RETCODE_OK \<longrightarrow> (\<forall>g. (Wait zzdds_create_guardcondition, g) \<in> set tr \<longrightarrow> ret g \<in> set (hs r))))"

definition matched_line :: string where
  "matched_line = ''Subscriber: writer matched''"

lemma label_not_matched [simp]: "sample_label v \<noteq> matched_line" "matched_line \<noteq> sample_label v"
  by (simp_all add: sample_label_def matched_line_def)

text \<open>What the loop has added to the trace after taking \<open>n\<close> samples.\<close>

definition drained :: "nat \<Rightarrow> bool \<Rightarrow> (WaitsetSample, tick) atrace \<Rightarrow> bool" where
  "drained n matched_logged q \<longleftrightarrow>
     length (taken q) = n \<and> n < 30 \<and> only destroyed q = []
     \<and> removeAll matched_line (only printed q) = map sample_label (taken q)
     \<and> count_list (only printed q) matched_line = of_bool matched_logged"

lemma removeAll_labels [simp]: "removeAll matched_line (map sample_label xs) = map sample_label xs"
  by (induction xs) simp_all

lemma count_labels [simp]: "count_list (map sample_label xs) matched_line = 0"
  by (induction xs) simp_all

lemma drained_simps:
  "drained 0 False []"
  "drained n b q \<Longrightarrow> printed c = None \<Longrightarrow> \<not> is_take c \<Longrightarrow> destroyed c = None \<Longrightarrow> drained n b ((c, r) # q)"
  "drained n False q \<Longrightarrow> drained n True ((printf matched_line, r) # q)"
  by (simp_all add: drained_def)

lemma drained_batches:
  assumes q: "drained n b q" and n: "n < 10" and bounds: "ret high \<le> 10" "ret low \<le> 10"
    and c: "is_take c1" "is_take c2" "printed c1 = None" "printed c2 = None" "destroyed c1 = None" "destroyed c2 = None"
    and p: "prints (map sample_label (valid_samples (batch (ret high) (got high)))) q1"
      "prints (map sample_label (valid_samples (batch (ret low) (got low)))) q2"
  shows "drained (n + (valid_in (batch (ret high) (got high)) + valid_in (batch (ret low) (got low)))) b
    (q2 @ q1 @ (c2, low) # (c1, high) # q)"
  using q n c p valid_batch_bound [OF bounds(1), of "got high"] valid_batch_bound [OF bounds(2), of "got low"]
    prints_other [OF p(1)] prints_other [OF p(2)]
  by (simp add: drained_def prints_def valid_in_length)


section \<open>The loop\<close>

text \<open>What the loop leaves behind: ten samples or more, or a failure line as its last action.\<close>

definition loop_ends :: "nat \<Rightarrow> (WaitsetSample, tick) atrace \<Rightarrow> int option outcome \<Rightarrow> (WaitsetSample, tick) atrace \<Rightarrow> bool" where
  "loop_ends k tr0 x tr \<longleftrightarrow> (\<exists>q. tr = q @ tr0 \<and> waits tr \<le> k * 601 + 2 \<and>
     (x = Val (Some 1) \<and> failed tr \<or> x = Val None \<and> (\<exists>n b. n \<ge> WS_EXPECTED_SAMPLES \<and> drained n b q)))"

text \<open>A wait that finds the guard condition triggered is the last one.\<close>

lemma fired_wait:
  assumes "wait_contract k tr (Wait (waitset_wait w t)) r" and "k * 601 < waits tr"
    and "waits tr \<le> k * Suc (length (events tr))"
    and "(Wait zzdds_create_guardcondition, g) \<in> set tr"
  shows "ret r \<noteq> DDS_RETCODE_TIMEOUT" "ret r = DDS_RETCODE_OK \<Longrightarrow> condition_active (hs r) (ret g)"
proof -
  have "k * 601 < k * Suc (length (events tr))" using assms(2,3) by linarith
  then have "watchdog_fired tr" by (simp add: watchdog_fired_iff)
  with assms(1,4) show "ret r \<noteq> DDS_RETCODE_TIMEOUT" "ret r = DDS_RETCODE_OK \<Longrightarrow> condition_active (hs r) (ret g)"
    by (auto simp: wait_contract_def condition_active_def list_ex_iff)
qed

lemma wpt_note_match:
  assumes "drained n b q" and "\<And>b q' s'. drained n b (q' @ q) \<Longrightarrow> waits q' = 0 \<Longrightarrow> wpt G Q (k b) s' (q' @ q @ tr)"
  shows "wpt G Q (note_match c b triggered k) s (q @ tr)"
proof (cases "\<not> b \<and> triggered")
  case True
  have "wpt G Q (if num r > 0 then say watchdog_run ''Subscriber: writer matched'' (k True) else k b) s'
      ((Query (get_subscription_matched_status (ws_reader c)), r) # q @ tr)" for r s'
  proof (intro wpt_ifI wpt_ticks)
    fix r' s''
    show "wpt G Q (k True) s'' ((printf ''Subscriber: writer matched'', r') # (Query (get_subscription_matched_status (ws_reader c)), r) # q @ tr)"
      using assms(2) [of True "[(printf matched_line, r'), (Query (get_subscription_matched_status (ws_reader c)), r)]" s'']
        assms(1) True by (simp add: drained_simps matched_line_def [symmetric])
  next
    show "wpt G Q (k b) s' ((Query (get_subscription_matched_status (ws_reader c)), r) # q @ tr)"
      using assms(2) [of b "[(Query (get_subscription_matched_status (ws_reader c)), r)]" s'] assms(1)
      by (simp add: drained_simps)
  qed
  then show ?thesis unfolding note_match_def if_P [OF True] by (rule wpt_ticks)
next
  case False
  then show ?thesis using assms(2) [of b "[]" s] assms(1) by (auto simp: note_match_def)
qed

lemma wpt_take_batches:
  assumes "drained n b q" and "n < 10"
    and "\<And>k q' s'. drained (n + k) b (q' @ q) \<Longrightarrow> waits q' = 0 \<Longrightarrow> wpt (wait_contract K) Q (p k) s' (q' @ q @ tr)"
  shows "wpt (wait_contract K) Q (take_batches c p) s (q @ tr)"
  unfolding take_batches_def
proof (intro wpt_ticks wpt_ifI wpt_report_batch)
  fix high low q1 q2 s'
  let ?c1 = "Data (take_w_condition (ws_reader c) (qc_cond c) WS_EXPECTED_SAMPLES) :: WaitsetSample app_call"
  let ?c2 = "Data (take_n (ws_reader c) WS_EXPECTED_SAMPLES) :: WaitsetSample app_call"
  assume G: "wait_contract K (q @ tr) ?c1 high" "wait_contract K ((?c1, high) # q @ tr) ?c2 low"
    and p: "prints (map sample_label (valid_samples (batch (ret high) (got high)))) q1"
      "prints (map sample_label (valid_samples (batch (ret low) (got low)))) q2"
  then have "ret high \<le> 10" "ret low \<le> 10"
    by (simp_all add: wait_contract_def WS_EXPECTED_SAMPLES_def)
  from drained_batches [OF assms(1,2) this, of ?c1 ?c2, OF _ _ _ _ _ _ p]
  show "wpt (wait_contract K) Q (p (valid_in (batch (ret high) (got high)) + valid_in (batch (ret low) (got low)))) s'
     (q2 @ q1 @ (?c2, low) # (?c1, high) # q @ tr)"
    using assms(3) [of _ "q2 @ q1 @ [(?c2, low), (?c1, high)]"] prints_other(2) [OF p(1)] prints_other(2) [OF p(2)] by simp
next
  fix high low s'
  let ?c1 = "Data (take_w_condition (ws_reader c) (qc_cond c) WS_EXPECTED_SAMPLES) :: WaitsetSample app_call"
  let ?c2 = "Data (take_n (ws_reader c) WS_EXPECTED_SAMPLES) :: WaitsetSample app_call"
  assume "wait_contract K (q @ tr) ?c1 high" "wait_contract K ((?c1, high) # q @ tr) ?c2 low"
    and "int WS_EXPECTED_SAMPLES < ret high \<or> int WS_EXPECTED_SAMPLES < ret low"
  then show "wpt (wait_contract K) Q (Leaf (Crash ''read past the sample arrays'')) s' ((?c2, low) # (?c1, high) # q @ tr)"
    by (auto simp: wait_contract_def)
qed

lemma wpt_drain_active:
  assumes "drained n b q" and "n < 10"
    and go: "\<And>m b' q' s'. drained m b' (q' @ q) \<Longrightarrow> waits q' = 0 \<Longrightarrow> wpt (wait_contract K) Q (go m b') s' (q' @ q @ tr)"
  shows "wpt (wait_contract K) Q (drain_active c active n b go) s (q @ tr)"
  unfolding drain_active_def Let_def
proof (rule wpt_note_match [OF assms(1)], intro wpt_ifI)
  fix b' q1 s1
  assume q1: "drained n b' (q1 @ q)" "waits q1 = 0"
  then show "wpt (wait_contract K) Q (go n b') s1 (q1 @ q @ tr)" by (rule go)
  have "wpt (wait_contract K) Q (take_batches c (\<lambda>k. go (n + k) b')) s1 ((q1 @ q) @ tr)"
    using q1 go [of _ _ "_ @ q1"] by (intro wpt_take_batches [OF q1(1) assms(2)]) simp
  then show "wpt (wait_contract K) Q (take_batches c (\<lambda>k. go (n + k) b')) s1 (q1 @ q @ tr)" by simp
qed

text \<open>One pass: it leaves with a failure line, or goes on with one more wait made, before the watchdog fired.\<close>

lemma wpt_wait_pass:
  assumes d: "drained n b q" and n: "n < 10" and thread: "list_ex (starts_thread \<circ> fst) tr"
    and g: "(Wait zzdds_create_guardcondition, g) \<in> set tr" "gc_cond c = ret g"
    and time: "waits (q @ tr) \<le> K * Suc (length (events (q @ tr)))"
    and out: "\<And>q' s' line r. waits q' = Suc (waits q)
      \<Longrightarrow> Q (Val (Some 1)) s' ((eprintf (FAIL line), r) # q' @ tr)"
    and go: "\<And>m b' q' s'. drained m b' q' \<Longrightarrow> waits q' = Suc (waits q) \<Longrightarrow> waits (q @ tr) \<le> K * 601
      \<Longrightarrow> waits (q' @ tr) \<le> K * Suc (length (events (q' @ tr))) \<Longrightarrow> wpt (wait_contract K) Q (go m b') s' (q' @ tr)"
  shows "wpt (wait_contract K) Q (wait_pass c n b go) s (q @ tr)"
  unfolding wait_pass_def
proof (rule wpt_ticks)
  fix r s'
  let ?w = "Wait (waitset_wait (ws c) WAIT_STEP_SEC) :: WaitsetSample app_call"
  assume G: "wait_contract K (q @ tr) ?w r"
  have d1: "drained n b ((?w, r) # q)" and d2: "drained n b ((sequence_free, r') # (?w, r) # q)" for r'
    using d by (simp_all add: drained_simps)
  have time': "Suc (waits (q @ tr)) \<le> K * Suc (length (events (q @ tr) @ evs r))"
    using G thread by (simp add: wait_contract_def)
  have go': "wpt (wait_contract K) Q (go m b') s1 (q' @ (?w, r) # q @ tr)"
    if "drained m b' (q' @ (?w, r) # q)" "waits q' = 0" "waits (q @ tr) \<le> K * 601" for m b' q' s1
  proof -
    have "Suc (waits (q @ tr)) \<le> K * Suc (length (events (q' @ (?w, r) # q @ tr)))"
      by (rule le_trans [OF time' mult_le_mono2]) simp
    then show ?thesis using go [OF that(1)] that(2,3) by simp
  qed
  have out': "wpt (wait_contract K) Q (fail_out watchdog_run line) s1 (q' @ (?w, r) # q @ tr)"
    if "waits q' = 0" for line s1 q'
    unfolding fail_out_def using out [of "q' @ (?w, r) # q"] that by (intro wpt_ticks) simp
  have early: "waits (q @ tr) \<le> K * 601"
    if "ret r = DDS_RETCODE_TIMEOUT \<or> ret r = DDS_RETCODE_OK \<and> \<not> condition_active (hs r) (gc_cond c)"
  proof (rule ccontr)
    assume "\<not> waits (q @ tr) \<le> K * 601"
    with fired_wait [OF G _ time, of g] that g show False by auto
  qed
  show "wpt (wait_contract K) Q (if ret r = DDS_RETCODE_TIMEOUT then go n b
      else if ret r \<noteq> DDS_RETCODE_OK then fail_out watchdog_run (''WaitSet.wait() returned '' @ dec_int (ret r))
      else sys watchdog_run sequence_free (\<lambda>_. if condition_active (hs r) (gc_cond c)
        then fail_out watchdog_run (''watchdog fired -- only received '' @ dec n @ ''/10 samples'')
        else drain_active c (hs r) n b go)) s' ((?w, r) # q @ tr)"
    using go' [OF _ _ early, of n b "[]"] out' [of "[]"] out' [of "[(sequence_free, _)]"] d1
      wpt_drain_active [OF d2 n, where K = K and Q = Q and go = go and tr = tr] go' [OF _ _ early, of _ _ "_ @ [(sequence_free, _)]"]
    by (auto intro!: wpt_ifI wpt_ticks)
qed

lemma wpt_wait_loop:
  assumes "drained n b q" and "list_ex (starts_thread \<circ> fst) tr0" and "(Wait zzdds_create_guardcondition, g) \<in> set tr0"
    and "gc_cond c = ret g" and "waits (q @ tr0) \<le> K * 601 + 1" and "waits (q @ tr0) \<le> K * Suc (length (events (q @ tr0)))"
    and "K * 601 + 2 \<le> fuel + waits (q @ tr0)"
  shows "wpt (wait_contract K) (\<lambda>x s tr. loop_ends K tr0 x tr) (wait_loop fuel c n b) s (q @ tr0)"
  using assms(1,5-)
proof (induction fuel arbitrary: n b q s)
  case 0
  then show ?case by simp
next
  case (Suc fuel)
  show ?case
  proof (cases "n \<ge> WS_EXPECTED_SAMPLES")
    case True
    with Suc.prems show ?thesis
      by (auto simp: wait_loop.simps [of _ _ n] loop_ends_def)
  next
    case False
    have out: "loop_ends K tr0 (Val (Some 1)) ((eprintf (FAIL line), r) # q' @ tr0)" if "waits q' = Suc (waits q)" for q' line r
      using that Suc.prems(2) by (auto simp: loop_ends_def intro!: exI [of _ "_ # q'"])
    have "wpt (wait_contract K) (\<lambda>x s tr. loop_ends K tr0 x tr) (wait_pass c n b (wait_loop fuel c)) s (q @ tr0)"
    proof (rule wpt_wait_pass [OF Suc.prems(1) _ assms(2-4) Suc.prems(3)])
      show "n < 10" using False by (simp add: WS_EXPECTED_SAMPLES_def)
    qed (use Suc.prems out in \<open>auto intro!: Suc.IH\<close>)
    with False show ?thesis by (simp add: wait_loop.simps [of "Suc fuel"])
  qed
qed


section \<open>\<open>main\<close>\<close>

text \<open>Endings before the loop: any \<open>FAIL:\<close> line with exit code 1.\<close>

definition lets_fail :: "(int outcome \<Rightarrow> Watchdog \<Rightarrow> (WaitsetSample, tick) atrace \<Rightarrow> bool) \<Rightarrow> (WaitsetSample, tick) atrace \<Rightarrow> bool" where
  "lets_fail Q tr \<longleftrightarrow> (\<forall>line r s q. waits q = 0 \<longrightarrow> Q (Val 1) s (q @ (eprintf (FAIL line), r) # tr))"

lemma wpt_fail_w: "lets_fail Q tr \<Longrightarrow> wpt G Q (fail watchdog_run line) s tr"
  unfolding fail_def lets_fail_def by (rule wpt_ticks) (metis append_Nil waits_simps(1) wpt.simps(1))

lemma wpt_need_w:
  assumes "\<And>r. lets_fail Q ((c, r) # tr)"
    and "\<And>r s'. G tr c r \<Longrightarrow> wpt G Q (k (ret r)) s' ((c, r) # tr)"
  shows "wpt G Q (need watchdog_run c line k) s tr"
  unfolding need_def using assms by (intro wpt_ticks wpt_ifI wpt_fail_w)

lemma wpt_check_w:
  assumes "\<And>r. lets_fail Q ((c, r) # tr)"
    and "\<And>r s'. G tr c r \<Longrightarrow> wpt G Q p s' ((c, r) # tr)"
  shows "wpt G Q (check watchdog_run c line p) s tr"
  unfolding check_def using assms by (intro wpt_ticks wpt_ifI wpt_fail_w)

text \<open>The calls that end a successful run, in their order.\<close>

definition teardown_calls :: "int \<Rightarrow> int \<Rightarrow> conditions \<Rightarrow> WaitsetSample app_call list" where
  "teardown_calls factory sub c =
     [printf ''Subscriber: received all 10 samples.'', atomic_access, thread_join,
      Wait (detach_condition (ws c) (sc_cond c)), Wait (detach_condition (ws c) (rc_cond c)),
      Wait (detach_condition (ws c) (qc_cond c)), Wait (detach_condition (ws c) (gc_cond c)),
      Wait (delete_readcondition (ws_reader c) (rc_cond c)), Wait (delete_readcondition (ws_reader c) (qc_cond c)),
      Entity (delete_datareader sub (ws_reader c)), Wait (zzdds_destroy_guardcondition (gc_cond c)),
      Wait (zzdds_destroy_waitset (ws c)), printf ''Subscriber: done.'', Entity (zzdds_destroy_factory factory)]"

definition ws_success :: "(WaitsetSample, tick) atrace \<Rightarrow> bool" where
  "ws_success tr \<longleftrightarrow> length (taken tr) \<ge> 10 \<and> closes tr
     \<and> (\<exists>lines. only printed tr = [''Create topic: WaitsetSample'', ''Create reader for topic: WaitsetSample''] @ lines
            @ [''Subscriber: received all 10 samples.'', ''Subscriber: done.'']
          \<and> removeAll matched_line lines = map sample_label (taken tr) \<and> count_list lines matched_line \<le> 1)
     \<and> (\<exists>setup factory sub c. map fst (rev tr) = setup @ teardown_calls factory sub c)"

definition reported :: "('v, 'e) atrace \<Rightarrow> bool" where
  "reported tr \<longleftrightarrow> (\<exists>line. eprintf (FAIL line) \<in> fst ` set tr)"

lemma reported_simps [simp]:
  "reported ((eprintf (FAIL line), r) # tr)"
  "reported tr \<Longrightarrow> reported (x # tr)"
  "failed tr \<Longrightarrow> reported tr"
  by (auto simp: reported_def failed_def)

definition ws_verdict :: "nat \<Rightarrow> int outcome \<Rightarrow> (WaitsetSample, tick) atrace \<Rightarrow> bool" where
  "ws_verdict k x tr \<longleftrightarrow> waits tr \<le> k * 601 + 2 \<and>
     (x = Val 1 \<and> reported tr \<or> x = Val 0 \<and> ws_success tr)"

lemma ws_failI: "waits tr \<le> k * 601 + 2 \<Longrightarrow> reported tr \<Longrightarrow> ws_verdict k (Val 1) tr"
  by (simp add: ws_verdict_def)

lemma lets_fail_verdict [simp]: "waits tr = 0 \<Longrightarrow> lets_fail (\<lambda>x s tr. ws_verdict k x tr) tr"
  by (auto simp: lets_fail_def ws_verdict_def reported_def)

text \<open>The trace when the watchdog thread has been created.\<close>

definition ready :: "int \<Rightarrow> conditions \<Rightarrow> (WaitsetSample, tick) atrace \<Rightarrow> bool" where
  "ready factory c tr \<longleftrightarrow> waits tr = 0 \<and> taken tr = [] \<and> only destroyed tr = []
     \<and> only printed tr = [''Create topic: WaitsetSample'', ''Create reader for topic: WaitsetSample'']
     \<and> list_ex (starts_thread \<circ> fst) tr \<and> (\<exists>g. (Wait zzdds_create_guardcondition, g) \<in> set tr \<and> gc_cond c = ret g)
     \<and> (\<exists>f. (Entity zzdds_create_factory, f) \<in> set tr \<and> ret f = factory)"

lemma wpt_tear_down:
  assumes "ready factory c tr" and "drained n b q" and "n \<ge> 10" and "waits (q @ tr) \<le> k * 601 + 2"
  shows "wpt (wait_contract k) (\<lambda>x s tr. ws_verdict k x tr) (tear_down factory sub c) s (q @ tr)"
  unfolding tear_down_def Let_def store_def
  by (intro wpt_ticks wpt_GetI wpt_PutI)
     (use assms in \<open>auto simp: ready_def drained_def ws_verdict_def ws_success_def teardown_calls_def intro!: closesI\<close>)


text \<open>The trace between the phases of the set-up: nothing waited for, taken or destroyed yet.\<close>

definition setting_up :: "string list \<Rightarrow> int \<Rightarrow> (WaitsetSample, tick) atrace \<Rightarrow> bool" where
  "setting_up lines factory tr \<longleftrightarrow> waits tr = 0 \<and> taken tr = [] \<and> only destroyed tr = [] \<and> only printed tr = lines
     \<and> (\<exists>f. (Entity zzdds_create_factory, f) \<in> set tr \<and> ret f = factory)"

lemma wpt_create_conditions:
  assumes "setting_up lines factory tr"
    and "\<And>c tr' s'. setting_up lines factory tr' \<Longrightarrow> (\<exists>g. (Wait zzdds_create_guardcondition, g) \<in> set tr' \<and> gc_cond c = ret g)
      \<Longrightarrow> wpt G (\<lambda>x s tr. ws_verdict k x tr) (p c) s' tr'"
  shows "wpt G (\<lambda>x s tr. ws_verdict k x tr) (create_conditions dr p) s tr"
  unfolding create_conditions_def Let_def
  by (intro wpt_ticks wpt_ifI wpt_need_w wpt_check_w wpt_fail_w assms(2)) (use assms(1) in \<open>auto simp: setting_up_def\<close>)

lemma wpt_attach_all:
  assumes "setting_up lines factory tr" and "x \<in> set tr"
    and "\<And>tr' s'. setting_up lines factory tr' \<Longrightarrow> x \<in> set tr' \<Longrightarrow> wpt G (\<lambda>x s tr. ws_verdict k x tr) p s' tr'"
  shows "wpt G (\<lambda>x s tr. ws_verdict k x tr) (attach_all c p) s tr"
  unfolding attach_all_def Let_def
  by (intro wpt_ticks wpt_ifI wpt_check_w wpt_fail_w assms(3))
     (use assms(1,2) in \<open>auto simp: setting_up_def intro!: ws_failI\<close>)

lemma wpt_watched_loop:
  assumes "setting_up [''Create topic: WaitsetSample'', ''Create reader for topic: WaitsetSample''] factory tr"
    and "(Wait zzdds_create_guardcondition, g) \<in> set tr" and "gc_cond c = ret g" and "k * 601 + 2 \<le> fuel"
  shows "wpt (wait_contract k) (\<lambda>x s tr. ws_verdict k x tr)
    (bind_prog (wait_loop fuel c 0 False) (\<lambda>x. leave_or x (tear_down factory sub c))) s ((thread_create, r) # tr)"
  unfolding wpt_bind
proof (rule wpt_mono)
  let ?tr = "(thread_create, r) # tr"
  have ready: "ready factory c ?tr"
    using assms(1-3) by (auto simp: ready_def setting_up_def)
  have "wpt (wait_contract k) (\<lambda>x s tr. loop_ends k ?tr x tr) (wait_loop fuel c 0 False) s ([] @ ?tr)"
    using assms by (intro wpt_wait_loop [of _ _ _ _ g]) (auto simp: drained_simps setting_up_def)
  then show "wpt (wait_contract k) (\<lambda>x s tr. loop_ends k ?tr x tr) (wait_loop fuel c 0 False) s ?tr" by simp
  fix x s' tr'
  assume "loop_ends k ?tr x tr'"
  then show "after (wait_contract k) (\<lambda>x s tr. ws_verdict k x tr) (\<lambda>x. leave_or x (tear_down factory sub c)) x s' tr'"
    using wpt_tear_down [OF ready]
    by (auto simp: loop_ends_def WS_EXPECTED_SAMPLES_def intro!: ws_failI)
qed

text \<open>C24. The wait set subscriber. Its loop has no time limit of its own: it ends because the watchdog
  triggers the guard condition. Whatever the middleware does, as long as the watchdog thread is scheduled
  (at most \<open>k\<close> waits fit into one of its periods), a triggered guard condition is reported by the next wait
  and a take stays within its limit, the program returns after at most \<open>601 k + 2\<close> waits: with 1 and a
  \<open>FAIL:\<close> line, or with 0 after at least ten valid samples were taken and each reported in order under the
  label of its own priority, \<open>writer matched\<close> printed at most once, and conditions, reader, wait set and
  factory taken down in this order.\<close>

theorem waitset_subscriber_contract:
  assumes "\<And>tr c. wait_contract k tr c (env tr c)" and "k * 601 + 2 \<le> fuel"
  shows "case run env (waitset_subscriber fuel argv) s [] of (x, s', tr) \<Rightarrow> ws_verdict k x tr"
proof -
  let ?lines = "[''Create topic: WaitsetSample'', ''Create reader for topic: WaitsetSample'']"
  have conditions: "wpt (wait_contract k) (\<lambda>x s tr. ws_verdict k x tr)
      (create_conditions dr (\<lambda>c. attach_all c (Put watchdog_start (sys watchdog_run thread_create (\<lambda>r.
         if ret r \<noteq> 0 then fail watchdog_run ''watchdog thread creation failed''
         else bind_prog (wait_loop fuel c 0 False) (\<lambda>x. leave_or x (tear_down factory sub c))))))) s1 tr1"
    if "setting_up ?lines factory tr1" for dr factory sub s1 tr1
  proof (rule wpt_create_conditions [OF that], elim exE conjE)
    fix c :: conditions and s2 tr2 g
    assume up: "setting_up ?lines factory tr2" and g: "(Wait zzdds_create_guardcondition, g) \<in> set tr2" "gc_cond c = ret g"
    show "wpt (wait_contract k) (\<lambda>x s tr. ws_verdict k x tr)
      (attach_all c (Put watchdog_start (sys watchdog_run thread_create (\<lambda>r.
         if ret r \<noteq> 0 then fail watchdog_run ''watchdog thread creation failed''
         else bind_prog (wait_loop fuel c 0 False) (\<lambda>x. leave_or x (tear_down factory sub c)))))) s2 tr2"
      by (rule wpt_attach_all [OF up g(1)], intro wpt_PutI wpt_ticks wpt_ifI wpt_fail_w lets_fail_verdict)
         (simp add: setting_up_def, rule wpt_watched_loop [OF _ _ g(2) assms(2)])
  qed
  have "wpt (wait_contract k) (\<lambda>x s tr. ws_verdict k x tr) (waitset_subscriber fuel argv) s []"
    unfolding waitset_subscriber_def open_participant_def Let_def
    by (intro wpt_ticks wpt_ifI wpt_need_w wpt_check_w wpt_fail_w conditions) (simp_all add: setting_up_def)
  from wpt_run_result [OF this assms(1)] show ?thesis by (simp add: case_prod_beta)
qed

text \<open>A middleware that hands over ten samples, the last five of high priority, in two waits.\<close>

fun wakes :: "'v app_call \<Rightarrow> bool" where
  "wakes (Wait (create_readcondition dr)) = True"
| "wakes (Wait (get_statuscondition dr)) = True"
| "wakes _ = False"

fun batches :: "(WaitsetSample, tick) atrace \<Rightarrow> WaitsetSample app_call \<Rightarrow> (WaitsetSample, tick) answer" where
  "batches tr (Entity zzdds_create_factory) = answers 1 []"
| "batches tr (Entity (create_participant f d)) = answers 2 []"
| "batches tr (Entity (create_topic dp name t)) = answers 3 []"
| "batches tr (Entity (create_subscriber dp)) = answers 4 []"
| "batches tr (Entity (create_datareader s t q l)) = answers 5 []"
| "batches tr (Wait zzdds_create_waitset) = answers 6 []"
| "batches tr (Wait zzdds_create_guardcondition) = answers (int (length tr)) []"
| "batches tr (Wait (get_statuscondition dr)) = answers (int (length tr)) []"
| "batches tr (Wait (create_readcondition dr)) = answers (int (length tr)) []"
| "batches tr (Wait (create_querycondition dr e ps)) = answers (int (length tr)) []"
| "batches tr (Wait (get_conditions w)) = (answers 0 [])\<lparr>hs := [1, 2, 3, 4]\<rparr>"
| "batches tr (Wait (waitset_wait w t)) = (answers 0 [])\<lparr>hs :=
     (if watchdog_fired tr then map (\<lambda>x. ret (snd x)) tr else map (\<lambda>x. ret (snd x)) (filter (wakes \<circ> fst) tr))\<rparr>"
| "batches tr (Query q) = (answers 0 [])\<lparr>num := 1\<rparr>"
| "batches tr (Data (take_w_condition dr cnd n)) =
     (answers 2 [])\<lparr>got := [(\<lparr>ws_count = 5, priority = 5\<rparr>, True), (\<lparr>ws_count = 0, priority = 0\<rparr>, False)]\<rparr>"
| "batches tr (Data (take_n dr n)) =
     (answers 4 [])\<lparr>got := (let v = (\<lparr>ws_count = 0, priority = 0\<rparr>, True) in [v, v, v, v])\<rparr>"
| "batches tr c = answers 0 []"

definition batches_env :: "(WaitsetSample app_call, (WaitsetSample, tick) answer) env" where
  "batches_env tr c = (batches tr c)
     \<lparr>evs := (if list_ex (starts_thread \<circ> fst) tr then replicate (Suc (waits tr)) Tick else [])\<rparr>"

lemma batches_env_contract: "wait_contract 1 tr c (batches_env tr c)"
proof -
  have take: "ret (batches_env tr c) \<le> 10" if "is_take c"
    using that by (cases c rule: is_take.cases) (simp_all add: batches_env_def Let_def answers_def)
  have wait: "ret (batches_env tr c) = 0 \<and> (watchdog_fired tr \<and> (x, g) \<in> set tr \<longrightarrow> ret g \<in> set (hs (batches_env tr c)))"
    if "is_wait c" for x g
    using that by (cases c rule: is_wait.cases) (force simp: batches_env_def Let_def answers_def)+
  have "evs (batches_env tr c) = (if list_ex (starts_thread \<circ> fst) tr then replicate (Suc (waits tr)) Tick else [])"
    by (simp add: batches_env_def Let_def)
  then show ?thesis
    using take wait
    by (auto simp: wait_contract_def listening_def list_ex_iff WS_EXPECTED_SAMPLES_def DDS_RETCODE_TIMEOUT_def)
qed


theorem waitset_subscriber_contract_witness:
  "(\<forall>tr c. wait_contract 1 tr c (batches_env tr c)) \<and>
   (case run batches_env (waitset_subscriber 603 [''subscriber'']) watchdog_start [] of (x, s', tr) \<Rightarrow>
      x = Val 0 \<and> ws_verdict 1 x tr \<and> map ws_count (taken tr) = [5, 0, 0, 0, 0, 5, 0, 0, 0, 0])"
proof -
  let ?run = "run batches_env (waitset_subscriber 603 [''subscriber'']) watchdog_start []"
  have eval: "fst ?run = Val 0 \<and> map ws_count (taken (snd (snd ?run))) = [5, 0, 0, 0, 0, 5, 0, 0, 0, 0]"
    by (simp add: waitset_subscriber_def evaluate batches_env_def create_conditions_def attach_all_def wait_loop.simps
        wait_pass_def drain_active_def note_match_def take_batches_def tear_down_def watchdog_fired_iff
        WS_EXPECTED_SAMPLES_def WAIT_STEP_SEC_def condition_active_def batch_def valid_in_def watchdog_start_def
        OVERALL_DEADLINE_MS_def WATCHDOG_POLL_MS_def DDS_RETCODE_TIMEOUT_def)
  have "case ?run of (x, s', tr) \<Rightarrow> ws_verdict 1 x tr"
    by (rule waitset_subscriber_contract [of 1 batches_env, OF batches_env_contract]) simp
  with eval batches_env_contract show ?thesis by (simp add: case_prod_beta)
qed

end
