(* ===== verification/Quiet_Kit.thy ===== *)
theory Quiet_Kit
  imports Example_Kit
begin

text \<open>
  Programs without listeners: nothing runs between the calls of \<open>main\<close>, and all they learn are answers. Their
  contracts say through which phases a successful run went, in which order, how long each may sleep and which lines
  it printed.
\<close>

text \<open>No callbacks, no shared variables.\<close>

datatype no_statics = No_statics

fun quiet :: "(unit, no_statics) handler" where
  "quiet e s = Val s"

section \<open>Rules\<close>

lemma deliver_quiet [simp]: "deliver quiet es s = Val s"
  by (induction es) simp_all

lemma wpt_quiet: "(\<And>r. G tr c r \<Longrightarrow> wpt G Q (k r) s ((c, r) # tr)) \<Longrightarrow> wpt G Q (sys quiet c k) s tr"
  by (simp add: sys_def)

text \<open>A stretch of the run that slept at most \<open>b\<close> milliseconds, printed \<open>lines\<close> and did not destroy the factory.\<close>

definition adds :: "nat \<Rightarrow> string list \<Rightarrow> ('v, unit) atrace \<Rightarrow> bool" where
  "adds b lines q \<longleftrightarrow> slept q \<le> b \<and> only printed q = lines \<and> only destroyed q = []"

lemma adds_append: "adds b lines q \<Longrightarrow> adds b' lines' q' \<Longrightarrow> adds (b + b') (lines @ lines') (q' @ q)"
  by (simp add: adds_def)

definition quiet_post :: "nat \<Rightarrow> (('v, unit) atrace \<Rightarrow> bool) \<Rightarrow> int outcome \<Rightarrow> ('v, unit) atrace \<Rightarrow> bool" where
  "quiet_post B P x tr \<longleftrightarrow> slept tr \<le> B \<and> (x = Val 1 \<and> failed tr \<or> x = Val 0 \<and> P tr)"

abbreviation quiet_wpt where
  "quiet_wpt B G P p s tr \<equiv> wpt G (\<lambda>x s tr. quiet_post B P x tr) p s tr"

lemma quiet_fail: "slept tr \<le> B \<Longrightarrow> quiet_wpt B G P (fail quiet line) s tr"
  unfolding fail_def by (rule wpt_quiet) (simp add: quiet_post_def)

lemma quiet_need:
  assumes "slept tr \<le> B" and "slept_by c = 0"
    and "\<And>r. G tr c r \<Longrightarrow> ret r \<noteq> 0 \<Longrightarrow> quiet_wpt B G P (k (ret r)) s ((c, r) # tr)"
  shows "quiet_wpt B G P (need quiet c line k) s tr"
  unfolding need_def using assms by (intro wpt_quiet wpt_ifI quiet_fail) simp_all

lemma quiet_check:
  assumes "slept tr \<le> B" and "slept_by c = 0"
    and "\<And>r. G tr c r \<Longrightarrow> ret r = DDS_RETCODE_OK \<Longrightarrow> quiet_wpt B G P p s ((c, r) # tr)"
  shows "quiet_wpt B G P (check quiet c line p) s tr"
  unfolding check_def using assms by (intro wpt_quiet wpt_ifI quiet_fail) simp_all

text \<open>A call was made and answered so.\<close>

definition asked :: "'v app_call \<Rightarrow> (('v, unit) answer \<Rightarrow> bool) \<Rightarrow> ('v, unit) atrace \<Rightarrow> bool" where
  "asked c P q \<longleftrightarrow> (\<exists>r. (c, r) \<in> set q \<and> P r)"

lemma asked_simps [simp]:
  "asked c P ((c', r) # q) \<longleftrightarrow> c = c' \<and> P r \<or> asked c P q"
  "asked c P (q @ q') \<longleftrightarrow> asked c P q \<or> asked c P q'"
  "\<not> asked c P []"
  by (auto simp: asked_def)

abbreviation accepted :: "'v app_call \<Rightarrow> ('v, unit) atrace \<Rightarrow> bool" where
  "accepted c \<equiv> asked c (\<lambda>r. ret r = DDS_RETCODE_OK)"

abbreviation returned :: "'v app_call \<Rightarrow> int \<Rightarrow> ('v, unit) atrace \<Rightarrow> bool" where
  "returned c h \<equiv> asked c (\<lambda>r. ret r = h)"

section \<open>The run as a sequence of phases\<close>

text \<open>A phase: the time it may sleep, the lines it prints, and what it establishes.\<close>

type_synonym 'v run_phase = "nat \<times> string list \<times> (('v, unit) atrace \<Rightarrow> bool)"

primrec in_order :: "'v run_phase list \<Rightarrow> ('v, unit) atrace \<Rightarrow> bool" where
  "in_order [] tr \<longleftrightarrow> tr = []"
| "in_order (p # ps) tr \<longleftrightarrow> (\<exists>q q'. tr = q' @ q \<and> (case p of (b, lines, P) \<Rightarrow> adds b lines q \<and> P q) \<and> in_order ps q')"

lemma in_order_snoc: "in_order (ps @ [(b, lines, P)]) (q @ tr)" if "in_order ps tr" "adds b lines q \<and> P q"
  using that
proof (induction ps arbitrary: tr)
  case (Cons p ps)
  then obtain q1 q2 where "tr = q2 @ q1" "case p of (b, lines, P) \<Rightarrow> adds b lines q1 \<and> P q1" "in_order ps q2" by auto
  moreover then have "in_order (ps @ [(b, lines, P)]) (q @ q2)" using Cons by blast
  ultimately show ?case
    unfolding append_Cons in_order.simps by (intro exI [of _ q1] exI [of _ "q @ q2"]) simp
qed simp

lemma in_order_adds: "in_order ps tr \<Longrightarrow> adds (sum_list (map fst ps)) (concat (map (\<lambda>p. fst (snd p)) ps)) tr"
proof (induction ps arbitrary: tr)
  case (Cons p ps)
  then show ?case by (cases p) (auto intro!: adds_append)
qed (simp add: adds_def)

lemma in_order_slept: "in_order ps tr \<Longrightarrow> slept tr \<le> sum_list (map fst ps)"
  using in_order_adds [of ps tr] by (simp add: adds_def)

lemma next_phase: "in_order ps tr \<Longrightarrow> grown tr q tr' \<Longrightarrow> adds b lines q \<and> P q \<Longrightarrow> in_order (ps @ [(b, lines, P)]) tr'"
  by (simp add: grown_def in_order_snoc)

lemma in_order_snoc2:
  assumes "in_order ps tr" and "grown tr q tr'" and "adds b lines q \<and> P q" and "adds 0 [] [x] \<and> P' [x]"
  shows "in_order (ps @ [(b, lines, P), (0, [], P')]) (x # tr')"
  using in_order_snoc [OF next_phase [where P = P, OF assms(1-3)], where P = P' and q = "[x]"] assms(4) by simp

lemma quiet_open_participant:
  assumes "\<And>factory dp tr. in_order [(0, [], opened argv type_name factory dp)] tr \<Longrightarrow> quiet_wpt B G P (k factory dp) s tr"
  shows "quiet_wpt B G P (open_participant quiet argv type_name line k) s []"
  unfolding open_participant_def Let_def
  apply (intro wpt_quiet wpt_ifI quiet_fail quiet_need quiet_check)
        apply (simp; fail)+
  apply (rule assms)
  apply (auto simp: adds_def opened_def)
  done

end
