(* ===== verification/Ignore_Entities.thy ===== *)
theory Ignore_Entities
  imports Quiet_Kit
begin

text \<open>
  The program under test of the integration test \<open>integration-tests/c/ignore-entities\<close>: it ignores a
  topic, a participant, a publication and a subscription, and then checks that nothing ignored reaches it
  while an endpoint it did not ignore works as ever. It has no listeners: all it learns are answers.
\<close>

definition IGN_SAMPLE_COUNT :: nat where "IGN_SAMPLE_COUNT = 5"
definition DISCOVER_BYSTANDER_TIMEOUT_MS :: nat where "DISCOVER_BYSTANDER_TIMEOUT_MS = 15000"
definition PROBE_MATCH_TIMEOUT_MS :: nat where "PROBE_MATCH_TIMEOUT_MS = 45000"
definition IGN_SETTLE_WINDOW_S :: nat where "IGN_SETTLE_WINDOW_S = 3"
definition MATCH_TIMEOUT_MS :: nat where "MATCH_TIMEOUT_MS = 20000"
definition IGN_RECEIVE_TIMEOUT_MS :: nat where "IGN_RECEIVE_TIMEOUT_MS = 20000"
definition IGN_POLL_PERIOD_MS :: nat where "IGN_POLL_PERIOD_MS = 20"

lemmas ign_constants =
  IGN_SAMPLE_COUNT_def DISCOVER_BYSTANDER_TIMEOUT_MS_def PROBE_MATCH_TIMEOUT_MS_def IGN_SETTLE_WINDOW_S_def
  MATCH_TIMEOUT_MS_def IGN_RECEIVE_TIMEOUT_MS_def IGN_POLL_PERIOD_MS_def

type_synonym 'a ign = "(no_statics, int, unit, 'a) app"

section \<open>Searching with a time limit\<close>

text \<open>What one look gave: not yet, a failure that was reported, or a result.\<close>

datatype 'a look = Not_yet | Gave_up | Seen 'a

text \<open>
  \<open>for (waited_ms = 0; !found; waited_ms += POLL_PERIOD_MS) { if (waited_ms >= timeout) fail; look or usleep }\<close>:
  the time limit is checked before each look, so there are \<open>timeout / POLL_PERIOD_MS\<close> of them.
\<close>

primrec search_loop :: "nat \<Rightarrow> 'a look ign \<Rightarrow> 'a look ign" where
  "search_loop 0 look = Return Not_yet"
| "search_loop (Suc n) look = bind_prog look (\<lambda>x. case x of
      Not_yet \<Rightarrow> sys quiet (sleep_ms IGN_POLL_PERIOD_MS) (\<lambda>_. search_loop n look)
    | _ \<Rightarrow> Return x)"

definition search :: "nat \<Rightarrow> 'a look ign \<Rightarrow> string \<Rightarrow> ('a \<Rightarrow> int ign) \<Rightarrow> int ign" where
  "search timeout look timed_out k =
     bind_prog (search_loop ((timeout + IGN_POLL_PERIOD_MS - 1) div IGN_POLL_PERIOD_MS) look) (\<lambda>x. case x of
       Not_yet \<Rightarrow> fail quiet timed_out
     | Gave_up \<Rightarrow> Return 1
     | Seen a \<Rightarrow> k a)"

definition give_up :: "string \<Rightarrow> 'a look ign" where
  "give_up line = sys quiet (eprintf (FAIL line)) (\<lambda>_. Return Gave_up)"

text \<open>The first participant discovered is ignored.\<close>

definition look_bystander :: "int \<Rightarrow> int look ign" where
  "look_bystander dp = sys quiet (Query (get_discovered_participants dp)) (\<lambda>r.
     case hs r of
       [] \<Rightarrow> sys quiet sequence_free (\<lambda>_. Return Not_yet)
     | h # _ \<Rightarrow> sys quiet (Query (ignore_participant dp h)) (\<lambda>rc. sys quiet sequence_free (\<lambda>_.
         if ret rc \<noteq> DDS_RETCODE_OK then give_up (''ignore_participant() returned '' @ dec_int (ret rc))
         else Return (Seen h))))"

definition look_matched :: "query_call \<Rightarrow> string \<Rightarrow> unit look ign" where
  "look_matched status failed_line = sys quiet (Query status) (\<lambda>r.
     if ret r \<noteq> DDS_RETCODE_OK then give_up failed_line
     else if num r > 0 then Return (Seen ()) else Return Not_yet)"

section \<open>The phases of \<open>main\<close>\<close>

record ign_topics =
  control_topic :: int
  topic_ignored_topic :: int
  pub_ignored_topic :: int
  sub_ignored_topic :: int
  participant_ignored_topic :: int

record ign_ends =
  ign_dp :: int
  ign_sub :: int
  ign_pub :: int
  dr_qos :: ep_qos
  dw_qos :: ep_qos

definition create_topics :: "int \<Rightarrow> (ign_topics \<Rightarrow> int ign) \<Rightarrow> int ign" where
  "create_topics dp k =
     sys quiet (Entity (create_topic dp ''ControlTopic'' ''IgnoreEvent'')) (\<lambda>c.
     sys quiet (Entity (create_topic dp ''TopicIgnoredTopic'' ''IgnoreEvent'')) (\<lambda>t.
     sys quiet (Entity (create_topic dp ''PublicationIgnoredTopic'' ''IgnoreEvent'')) (\<lambda>p.
     sys quiet (Entity (create_topic dp ''SubscriptionIgnoredTopic'' ''IgnoreEvent'')) (\<lambda>s.
     sys quiet (Entity (create_topic dp ''ParticipantIgnoredTopic'' ''IgnoreEvent'')) (\<lambda>q.
       if ret c = 0 \<or> ret t = 0 \<or> ret p = 0 \<or> ret s = 0 \<or> ret q = 0 then fail quiet ''create_topic() failed''
       else k \<lparr>control_topic = ret c, topic_ignored_topic = ret t, pub_ignored_topic = ret p, sub_ignored_topic = ret s,
         participant_ignored_topic = ret q\<rparr>)))))"

text \<open>
  A probe endpoint learns the handle of the peer's endpoint, which is ignored; then the probe is deleted and
  the endpoint that must not match is created the same way.
\<close>

record probe_lines =
  not_created :: string
  no_status :: string
  never_matched :: string
  no_handles :: string
  not_ignored :: string
  applied :: string
  not_recreated :: string

definition via_probe ::
  "probe_lines \<Rightarrow> entity_call \<Rightarrow> (int \<Rightarrow> query_call) \<Rightarrow> (int \<Rightarrow> query_call) \<Rightarrow> (int \<Rightarrow> query_call) \<Rightarrow> (int \<Rightarrow> entity_call)
     \<Rightarrow> (int \<Rightarrow> int ign) \<Rightarrow> int ign" where
  "via_probe l create status matched ignore_it delete_it k =
     need quiet (Entity create) (not_created l) (\<lambda>probe.
     search PROBE_MATCH_TIMEOUT_MS (look_matched (status probe) (no_status l)) (never_matched l) (\<lambda>_.
     sys quiet (Query (matched probe)) (\<lambda>r.
       if ret r \<noteq> DDS_RETCODE_OK \<or> hs r = [] then fail quiet (no_handles l)
       else sys quiet sequence_free (\<lambda>_.
     check quiet (Query (ignore_it (hd (hs r)))) (not_ignored l) (
     sys quiet (Entity (delete_it probe)) (\<lambda>_.
     say quiet (applied l) (
     need quiet (Entity create) (not_recreated l) k)))))))"

definition ignore_writer :: "ign_topics \<Rightarrow> ign_ends \<Rightarrow> (int \<Rightarrow> int ign) \<Rightarrow> int ign" where
  "ignore_writer t e = via_probe
     \<lparr>not_created = ''create_datareader(probe, PublicationIgnoredTopic) failed'',
      no_status = ''get_subscription_matched_status(probe) failed'',
      never_matched = ''probe reader never matched peer's PublicationIgnoredTopic writer within 45s'',
      no_handles = ''get_matched_publications(probe) returned no handles'',
      not_ignored = ''ignore_publication() failed'',
      applied = ''Ignorer: ignore_publication() applied via probe.'',
      not_recreated = ''create_datareader(real, PublicationIgnoredTopic) failed''\<rparr>
     (create_datareader (ign_sub e) (pub_ignored_topic t) (dr_qos e) False)
     get_subscription_matched_status get_matched_publications (ignore_publication (ign_dp e)) (delete_datareader (ign_sub e))"

definition ignore_reader :: "ign_topics \<Rightarrow> ign_ends \<Rightarrow> (int \<Rightarrow> int ign) \<Rightarrow> int ign" where
  "ignore_reader t e = via_probe
     \<lparr>not_created = ''create_datawriter(probe, SubscriptionIgnoredTopic) failed'',
      no_status = ''get_publication_matched_status(probe) failed'',
      never_matched = ''probe writer never matched peer's SubscriptionIgnoredTopic reader within 45s'',
      no_handles = ''get_matched_subscriptions(probe) returned no handles'',
      not_ignored = ''ignore_subscription() failed'',
      applied = ''Ignorer: ignore_subscription() applied via probe.'',
      not_recreated = ''create_datawriter(real, SubscriptionIgnoredTopic) failed''\<rparr>
     (create_datawriter (ign_pub e) (sub_ignored_topic t) (dw_qos e))
     get_publication_matched_status get_matched_subscriptions (ignore_subscription (ign_dp e)) (delete_datawriter (ign_pub e))"

definition write_ignored :: "int \<Rightarrow> int option ign" where
  "write_ignored dw = for_prog 0 IGN_SAMPLE_COUNT (\<lambda>seq.
     sys quiet (Data (write_data dw (int seq) 0)) (\<lambda>r.
       if ret r \<noteq> DDS_RETCODE_OK then fail_out quiet (''write(SubscriptionIgnoredTopic) failed at seq='' @ dec seq)
       else Return None))"


definition unmatched :: "int \<Rightarrow> string \<Rightarrow> int ign \<Rightarrow> int ign" where
  "unmatched dr line p = sys quiet (Query (get_subscription_matched_status dr)) (\<lambda>r.
     if ret r \<noteq> DDS_RETCODE_OK \<or> num r \<noteq> 0 then fail quiet (line @ '' (current_count='' @ dec_int (num r) @ '')'') else p)"

text \<open>\<open>for (;;)\<close> over the takes of one reader, with a bound on their number; the count of valid samples is an \<open>int\<close>,
  whose overflow is undefined.\<close>

primrec take_all :: "nat \<Rightarrow> int \<Rightarrow> string \<Rightarrow> nat \<Rightarrow> nat look ign" where
  "take_all 0 dr label taken_count = Leaf OutOfFuel"
| "take_all (Suc fuel) dr label taken_count =
     sys quiet (Data (take_one dr)) (\<lambda>r.
       if ret r = DDS_RETCODE_NO_DATA then Return (Seen taken_count)
       else if ret r \<noteq> DDS_RETCODE_OK then give_up (''take('' @ label @ '') CDR error (rc='' @ dec_int (ret r) @ '')'')
       else if \<not> take_valid r then take_all fuel dr label taken_count
       else if taken_count = 2147483647 then Leaf (Crash ''overflow of taken_count'')
       else take_all fuel dr label (taken_count + 1))"

definition nothing_received :: "nat \<Rightarrow> int \<Rightarrow> string \<Rightarrow> int ign \<Rightarrow> int ign" where
  "nothing_received fuel dr label p = bind_prog (take_all fuel dr label 0) (\<lambda>x. case x of
       Seen n \<Rightarrow> if n \<noteq> 0 then fail quiet (label @ '' reader received '' @ dec n @ '' samples, expected 0'') else p
     | _ \<Rightarrow> Return 1)"

text \<open>The control reader: \<open>waited_ms\<close> advances in every iteration, also in those that do not sleep.\<close>

primrec control_loop :: "nat \<Rightarrow> int \<Rightarrow> nat \<Rightarrow> int \<Rightarrow> int option ign" where
  "control_loop 0 dr received last_seq =
     (if received \<ge> IGN_SAMPLE_COUNT then Return None
      else fail_out quiet (''ControlTopic did not receive all 5 samples within 20s (got '' @ dec received @ '')''))"
| "control_loop (Suc n) dr received last_seq =
     (if received \<ge> IGN_SAMPLE_COUNT then Return None
      else sys quiet (Data (take_one dr)) (\<lambda>r.
        if ret r = DDS_RETCODE_OK \<and> take_valid r
        then if take_value r \<noteq> last_seq + 1
             then fail_out quiet (''ControlTopic out-of-order sample, expected seq='' @ dec_int (last_seq + 1) @ '' got seq='' @ dec_int (take_value r))
             else control_loop n dr (received + 1) (take_value r)
        else if ret r \<noteq> DDS_RETCODE_OK \<and> ret r \<noteq> DDS_RETCODE_NO_DATA
        then fail_out quiet (''take(ControlTopic) CDR error (rc='' @ dec_int (ret r) @ '')'')
        else sys quiet (sleep_ms IGN_POLL_PERIOD_MS) (\<lambda>_. control_loop n dr received last_seq)))"

definition control :: "int \<Rightarrow> int ign \<Rightarrow> int ign" where
  "control dr p =
     search MATCH_TIMEOUT_MS (look_matched (get_subscription_matched_status dr) ''get_subscription_matched_status(control) failed'')
       ''ControlTopic reader never matched within 20s'' (\<lambda>_.
     bind_prog (control_loop ((IGN_RECEIVE_TIMEOUT_MS + IGN_POLL_PERIOD_MS - 1) div IGN_POLL_PERIOD_MS) dr 0 (- 1)) (\<lambda>x. leave_or x (
     say quiet ''Ignorer: ControlTopic received all 5 samples.'' p)))"

definition ignore_checks :: "nat \<Rightarrow> int \<Rightarrow> int \<Rightarrow> int \<Rightarrow> int ign \<Rightarrow> int ign" where
  "ignore_checks fuel topic_dr participant_dr pub_dr p =
     unmatched topic_dr ''TopicIgnoredTopic reader matched despite ignore_topic()'' (
     unmatched participant_dr ''ParticipantIgnoredTopic reader matched despite ignore_participant()'' (
     unmatched pub_dr ''PublicationIgnoredTopic reader matched despite ignore_publication()'' (
     nothing_received fuel topic_dr ''TopicIgnoredTopic'' (
     nothing_received fuel pub_dr ''PublicationIgnoredTopic'' (
     say quiet ''Ignorer: all ignore checks passed.'' p)))))"

text \<open>The three readers that exist before the peers do.\<close>

definition first_readers :: "ign_topics \<Rightarrow> ign_ends \<Rightarrow> (int \<Rightarrow> int \<Rightarrow> int \<Rightarrow> int ign) \<Rightarrow> int ign" where
  "first_readers t e k =
     sys quiet (Entity (create_datareader (ign_sub e) (topic_ignored_topic t) (dr_qos e) False)) (\<lambda>a.
     sys quiet (Entity (create_datareader (ign_sub e) (participant_ignored_topic t) (dr_qos e) False)) (\<lambda>b.
     sys quiet (Entity (create_datareader (ign_sub e) (control_topic t) (dr_qos e) False)) (\<lambda>c.
       if ret a = 0 \<or> ret b = 0 \<or> ret c = 0 then fail quiet ''create_datareader() failed''
       else say quiet ''Ignorer: ready for bystander.'' (k (ret a) (ret b) (ret c)))))"

text \<open>From the topics to the endpoints' parents, with \<open>ignore_topic\<close> on the way.\<close>

definition ignore_own_topic :: "int \<Rightarrow> ign_topics \<Rightarrow> (ign_ends \<Rightarrow> int ign) \<Rightarrow> int ign" where
  "ignore_own_topic dp t k =
     sys quiet (Query (get_instance_handle (topic_ignored_topic t))) (\<lambda>h.
     check quiet (Query (ignore_topic dp (ret h))) ''ignore_topic() failed'' (
     say quiet ''Ignorer: ignore_topic() applied to TopicIgnoredTopic.'' (
     sys quiet (Entity (create_subscriber dp)) (\<lambda>sub.
     sys quiet (Entity (create_publisher dp)) (\<lambda>pub.
       if ret sub = 0 \<or> ret pub = 0 then fail quiet ''create_subscriber()/create_publisher() failed''
       else sys quiet (Entity (get_default_datareader_qos (ret sub))) (\<lambda>rq.
       sys quiet (Entity (get_default_datawriter_qos (ret pub))) (\<lambda>wq.
       k \<lparr>ign_dp = dp, ign_sub = ret sub, ign_pub = ret pub, dr_qos = reliable_keep_all (num rq), dw_qos = reliable_keep_all (num wq)\<rparr>)))))))"

definition ignorer :: "nat \<Rightarrow> string list \<Rightarrow> int ign" where
  "ignorer fuel argv =
     open_participant quiet argv ''IgnoreEvent'' ''register_type_support failed'' (\<lambda>factory dp.
     create_topics dp (\<lambda>t.
     ignore_own_topic dp t (\<lambda>e.
     first_readers t e (\<lambda>topic_dr participant_dr control_dr.
     search DISCOVER_BYSTANDER_TIMEOUT_MS (look_bystander dp) ''bystander's participant never appeared within 15s'' (\<lambda>_.
     say quiet ''Ignorer: ignore_participant() applied to bystander.'' (
     ignore_writer t e (\<lambda>pub_dr.
     ignore_reader t e (\<lambda>sub_dw.
     bind_prog (write_ignored sub_dw) (\<lambda>x. leave_or x (
     sys quiet (sleep_ms (IGN_SETTLE_WINDOW_S * 1000)) (\<lambda>_.
     ignore_checks fuel topic_dr participant_dr pub_dr (
     control control_dr (
     say quiet ''Ignorer: done.'' (
     sys quiet (Entity (delete_participant factory dp)) (\<lambda>_.
     sys quiet (Entity (zzdds_destroy_factory factory)) (\<lambda>_. Return 0))))))))))))))))"

end
