(* ===== verification/Ignore_Contracts.thy ===== *)
theory Ignore_Contracts
  imports Ignore_Entities
begin

text \<open>
  What a successful run of the ignore test has established, phase by phase.
\<close>

section \<open>Searches\<close>

text \<open>A stretch of looking and sleeping, without a data operation.\<close>

definition polls :: "nat \<Rightarrow> (int, unit) atrace \<Rightarrow> bool" where
  "polls b q \<longleftrightarrow> slept q \<le> b \<and> only printed q = [] \<and> only destroyed q = [] \<and> only data_op q = []"

text \<open>What a look does, with \<open>P\<close> for what it adds when it sees something.\<close>

definition looks :: "'a look ign \<Rightarrow> ('a \<Rightarrow> (int, unit) atrace \<Rightarrow> bool) \<Rightarrow> bool" where
  "looks look P \<longleftrightarrow> (\<forall>G Q s tr.
     (\<forall>q. polls 0 q \<longrightarrow> Q (Val Not_yet) s (q @ tr)) \<longrightarrow>
     (\<forall>q line r. polls 0 q \<longrightarrow> Q (Val Gave_up) s ((eprintf (FAIL line), r) # q @ tr)) \<longrightarrow>
     (\<forall>a q. polls 0 q \<longrightarrow> P a q \<longrightarrow> Q (Val (Seen a)) s (q @ tr)) \<longrightarrow>
     wpt G Q look s tr)"

lemma wpt_search_loop:
  assumes "looks look P" and mono: "\<And>a q q'. P a q \<Longrightarrow> P a (q @ q')"
    and "\<And>q. polls (n * 20) q \<Longrightarrow> Q (Val Not_yet) s (q @ tr)"
    and "\<And>q line r. polls (n * 20) q \<Longrightarrow> Q (Val Gave_up) s ((eprintf (FAIL line), r) # q @ tr)"
    and "\<And>a q. polls (n * 20) q \<Longrightarrow> P a q \<Longrightarrow> Q (Val (Seen a)) s (q @ tr)"
  shows "wpt G Q (search_loop n look) s tr"
  using assms(3-)
proof (induction n arbitrary: tr)
  case 0
  then show ?case using 0(1) [of "[]"] by (simp add: polls_def)
next
  case (Suc n)
  let ?k = "\<lambda>x. case x of Not_yet \<Rightarrow> sys quiet (sleep_ms IGN_POLL_PERIOD_MS) (\<lambda>_. search_loop n look) | _ \<Rightarrow> Return x"
  have more: "polls (Suc n * 20) (q' @ (sleep_ms IGN_POLL_PERIOD_MS, r) # q)" if "polls 0 q" "polls (n * 20) q'" for q q' r
    using that by (simp add: polls_def IGN_POLL_PERIOD_MS_def)
  have weak: "polls (Suc n * 20) q" if "polls 0 q" for q
    using that by (simp add: polls_def)
  have "wpt G (after G Q ?k) look s tr"
  proof (rule assms(1) [unfolded looks_def, rule_format])
    fix q
    assume q: "polls 0 q"
    have "wpt G Q (search_loop n look) s ((sleep_ms IGN_POLL_PERIOD_MS, r) # q @ tr)" for r
      by (rule Suc.IH)
         (use Suc.prems [OF more [OF q]] mono in \<open>simp_all only: append_assoc append_Cons\<close>)
    then show "after G Q ?k (Val Not_yet) s (q @ tr)" by (simp add: wpt_quiet)
  qed (use Suc.prems [OF weak] in simp_all)
  then show ?case by simp
qed

lemma ign_search:
  assumes "looks look P" and "\<And>a q q'. P a q \<Longrightarrow> P a (q @ q')" and "timeout mod 20 = 0" and "slept tr + timeout \<le> B"
    and "\<And>a q. polls timeout q \<Longrightarrow> P a q \<Longrightarrow> quiet_wpt B G R (k a) s (q @ tr)"
  shows "quiet_wpt B G R (search timeout look line k) s tr"
proof -
  have t: "(timeout + IGN_POLL_PERIOD_MS - 1) div IGN_POLL_PERIOD_MS * 20 = timeout"
    using assms(3) by (simp add: IGN_POLL_PERIOD_MS_def) presburger
  show ?thesis
    unfolding search_def wpt_bind
  proof (rule wpt_search_loop [OF assms(1,2), where n = "(timeout + IGN_POLL_PERIOD_MS - 1) div IGN_POLL_PERIOD_MS", unfolded t])
    fix a q
    assume "polls timeout q" "P a q"
    then show "after G (\<lambda>x s. quiet_post B R x) (\<lambda>x. case x of Not_yet \<Rightarrow> fail quiet line | Gave_up \<Rightarrow> Return 1 | Seen a \<Rightarrow> k a)
        (Val (Seen a)) s (q @ tr)" using assms(5) by simp
  qed (use assms(4) in \<open>auto simp: polls_def quiet_post_def intro!: quiet_fail\<close>)
qed


section \<open>Phases\<close>

text \<open>The participant, publication or subscription whose handle \<open>find\<close> listed first was ignored.\<close>

definition ignored_first :: "query_call \<Rightarrow> (int \<Rightarrow> query_call) \<Rightarrow> (int, unit) atrace \<Rightarrow> bool" where
  "ignored_first list ignore q \<longleftrightarrow>
     (\<exists>h. asked (Query list) (\<lambda>r. \<exists>rest. hs r = h # rest) q \<and> accepted (Query (ignore h)) q)"

lemma ignored_first_mono: "ignored_first l i q \<Longrightarrow> ignored_first l i (x # q)" "ignored_first l i q \<Longrightarrow> ignored_first l i (q @ q')" "ignored_first l i q \<Longrightarrow> ignored_first l i (q' @ q)"
  by (cases x; auto simp: ignored_first_def)+

lemma looks_bystander: "looks (look_bystander dp) (\<lambda>_. ignored_first (get_discovered_participants dp) (ignore_participant dp))"
  unfolding looks_def
proof (intro allI impI)
  fix G and Q :: "int look outcome \<Rightarrow> no_statics \<Rightarrow> (int, unit) atrace \<Rightarrow> bool" and s tr
  assume ny: "\<forall>q. polls 0 q \<longrightarrow> Q (Val Not_yet) s (q @ tr)"
    and gu: "\<forall>q line r. polls 0 q \<longrightarrow> Q (Val Gave_up) s ((eprintf (FAIL line), r) # q @ tr)"
    and sn: "\<forall>a q. polls 0 q \<longrightarrow> ignored_first (get_discovered_participants dp) (ignore_participant dp) q
      \<longrightarrow> Q (Val (Seen a)) s (q @ tr)"
  let ?l = "Query (get_discovered_participants dp) :: int app_call"
  show "wpt G Q (look_bystander dp) s tr"
    unfolding look_bystander_def
  proof (rule wpt_quiet)
    fix r
    show "wpt G Q (case hs r of [] \<Rightarrow> sys quiet sequence_free (\<lambda>_. Return Not_yet)
       | h # _ \<Rightarrow> sys quiet (Query (ignore_participant dp h)) (\<lambda>rc. sys quiet sequence_free (\<lambda>_.
           if ret rc \<noteq> DDS_RETCODE_OK then give_up (''ignore_participant() returned '' @ dec_int (ret rc)) else Return (Seen h)))) s ((?l, r) # tr)"
    proof (cases "hs r")
      case Nil
      then show ?thesis using ny [rule_format, of "[(sequence_free, f), (?l, r)]" for f]
        by (auto simp: polls_def intro!: wpt_quiet)
    next
      case (Cons h rest)
      let ?i = "Query (ignore_participant dp h) :: int app_call"
      have "Q (Val (Seen h)) s ((sequence_free, f) # (?i, rc) # (?l, r) # tr)" if "ret rc = DDS_RETCODE_OK" for f rc
        using sn [rule_format, of "[(sequence_free, f), (?i, rc), (?l, r)]" h] that Cons by (auto simp: polls_def ignored_first_def)
      moreover have "Q (Val Gave_up) s ((eprintf (FAIL line), r') # (sequence_free, f) # (?i, rc) # (?l, r) # tr)" for line r' f rc
        using gu [rule_format, of "[(sequence_free, f), (?i, rc), (?l, r)]" line r'] by (simp add: polls_def)
      ultimately show ?thesis using Cons by (auto simp: give_up_def intro!: wpt_quiet)
    qed
  qed
qed

lemma looks_matched: "looks (look_matched status line) (\<lambda>_ q. True)"
  unfolding looks_def
proof (intro allI impI)
  fix G and Q :: "unit look outcome \<Rightarrow> no_statics \<Rightarrow> (int, unit) atrace \<Rightarrow> bool" and s tr
  assume ny: "\<forall>q. polls 0 q \<longrightarrow> Q (Val Not_yet) s (q @ tr)"
    and gu: "\<forall>q line r. polls 0 q \<longrightarrow> Q (Val Gave_up) s ((eprintf (FAIL line), r) # q @ tr)"
    and sn: "\<forall>(a :: unit) q. polls 0 q \<longrightarrow> True \<longrightarrow> Q (Val (Seen a)) s (q @ tr)"
  show "wpt G Q (look_matched status line) s tr"
    unfolding look_matched_def give_up_def
    using ny [rule_format, of "[(Query status, r)]" for r] gu [rule_format, of "[(Query status, r)]" for r]
      sn [rule_format, of "[(Query status, r)]" for r]
    by (auto simp: polls_def intro!: wpt_quiet)
qed


text \<open>An endpoint of the peer was ignored through a probe, and the probe deleted.\<close>

definition probed :: "entity_call \<Rightarrow> (int \<Rightarrow> query_call) \<Rightarrow> (int \<Rightarrow> query_call) \<Rightarrow> (int \<Rightarrow> entity_call) \<Rightarrow> (int, unit) atrace \<Rightarrow> bool" where
  "probed create matched ignore_it delete_it q \<longleftrightarrow> (\<exists>probe.
     returned (Entity create) probe q \<and> ignored_first (matched probe) ignore_it q
     \<and> asked (Entity (delete_it probe)) (\<lambda>_. True) q)"

lemma hd_Cons: "xs \<noteq> [] \<Longrightarrow> \<exists>rest. xs = hd xs # rest"
  by (cases xs) auto

lemma ign_via_probe:
  assumes "slept tr + 45000 \<le> B" and "\<And>h. destroyed (Entity (delete_it h) :: int app_call) = None"
    and "destroyed (Entity create :: int app_call) = None"
    and k: "\<And>q tr' r. grown tr q tr' \<Longrightarrow> adds 45000 [applied l] q \<and> probed create matched ignore_it delete_it q
      \<Longrightarrow> ret r \<noteq> 0 \<Longrightarrow> quiet_wpt B G P (k (ret r)) s ((Entity create, r) # tr')"
  shows "quiet_wpt B G P (via_probe l create status matched ignore_it delete_it k) s tr"
  unfolding via_probe_def
proof (rule quiet_need)
  show "slept tr \<le> B" using assms(1) by simp
  fix r1
  show "quiet_wpt B G P (search PROBE_MATCH_TIMEOUT_MS (look_matched (status (ret r1)) (no_status l)) (never_matched l) (\<lambda>_.
     sys quiet (Query (matched (ret r1))) (\<lambda>r.
       if ret r \<noteq> DDS_RETCODE_OK \<or> hs r = [] then fail quiet (no_handles l)
       else sys quiet sequence_free (\<lambda>_.
     check quiet (Query (ignore_it (hd (hs r)))) (not_ignored l) (
     sys quiet (Entity (delete_it (ret r1))) (\<lambda>_.
     say quiet (applied l) (
     need quiet (Entity create) (not_recreated l) k))))))) s ((Entity create, r1) # tr)"
    apply (rule ign_search [OF looks_matched, where timeout = PROBE_MATCH_TIMEOUT_MS])
       apply (use assms(1) in \<open>simp add: PROBE_MATCH_TIMEOUT_MS_def; fail\<close>)+
    apply (intro wpt_quiet wpt_ifI quiet_fail quiet_check quiet_need)
           apply (use assms(1) in \<open>simp add: polls_def PROBE_MATCH_TIMEOUT_MS_def; fail\<close>)+
    apply (rule k, (rule grown_rules)+)
     apply (auto simp: adds_def polls_def probed_def ignored_first_def assms(2,3) PROBE_MATCH_TIMEOUT_MS_def intro: hd_Cons)
    done
qed simp


section \<open>Data\<close>

text \<open>The valid samples taken from a reader, oldest first, and how many takes found something.\<close>

definition valid_from :: "int \<Rightarrow> (int, unit) atrace \<Rightarrow> int list" where
  "valid_from dr q = map (\<lambda>x. take_value (snd x))
     (filter (\<lambda>x. fst x = Data (take_one dr) \<and> ret (snd x) = DDS_RETCODE_OK \<and> take_valid (snd x)) (rev q))"

lemma valid_from_simps [simp]:
  "valid_from dr [] = []"
  "valid_from dr ((c, r) # q) = valid_from dr q
     @ (if c = Data (take_one dr) \<and> ret r = DDS_RETCODE_OK \<and> take_valid r then [take_value r] else [])"
  "valid_from dr (q @ q') = valid_from dr q' @ valid_from dr q"
  by (simp_all add: valid_from_def)

definition data_from :: "int \<Rightarrow> (int, unit) atrace \<Rightarrow> nat" where
  "data_from dr q = length (filter (\<lambda>x. fst x = Data (take_one dr) \<and> ret (snd x) \<noteq> DDS_RETCODE_NO_DATA) q)"

text \<open>The middleware hands over at most \<open>k\<close> samples through one reader.\<close>

definition finite_data :: "nat \<Rightarrow> (int, unit) atrace \<Rightarrow> int app_call \<Rightarrow> (int, unit) answer \<Rightarrow> bool" where
  "finite_data k tr c r \<longleftrightarrow> (\<forall>dr. c = Data (take_one dr) \<and> ret r \<noteq> DDS_RETCODE_NO_DATA \<longrightarrow> data_from dr tr < k)"

lemma wpt_take_all:
  assumes "k + 1 \<le> fuel + data_from dr tr" and "0 < fuel" and "n \<le> data_from dr tr" and "k < 2 ^ 31"
    and "\<And>q line r. adds 0 [] q \<Longrightarrow> Q (Val Gave_up) s ((eprintf (FAIL line), r) # q @ tr)"
    and "\<And>q. adds 0 [] q \<Longrightarrow> asked (Data (take_one dr)) (\<lambda>r. ret r = DDS_RETCODE_NO_DATA) q
      \<Longrightarrow> only written q = [] \<Longrightarrow> Q (Val (Seen (n + length (valid_from dr q)))) s (q @ tr)"
  shows "wpt (finite_data k) Q (take_all fuel dr label n) s tr"
  using assms
proof (induction fuel arbitrary: n tr)
  case 0
  then show ?case by simp
next
  case (Suc fuel)
  let ?c = "Data (take_one dr) :: int app_call"
  show ?case
    unfolding take_all.simps give_up_def
  proof (intro wpt_quiet wpt_ifI)
    fix r :: "(int, unit) answer" assume "ret r = DDS_RETCODE_NO_DATA"
    then show "wpt (finite_data k) Q (Return (Seen n)) s ((?c, r) # tr)"
      using Suc.prems(6) [of "[(?c, r)]"] by (simp add: adds_def DDS_RETCODE_NO_DATA_def)
  next
    fix r r' :: "(int, unit) answer" show "wpt (finite_data k) Q (Return Gave_up) s
      ((eprintf (FAIL (''take('' @ label @ '') CDR error (rc='' @ dec_int (ret r) @ '')'')), r') # (?c, r) # tr)"
      using Suc.prems(5) [of "[(?c, r)]"] by (simp add: adds_def)
  next
    fix r :: "(int, unit) answer"
    assume r: "finite_data k tr ?c r" "ret r \<noteq> DDS_RETCODE_NO_DATA" "\<not> ret r \<noteq> DDS_RETCODE_OK"
    then have d: "data_from dr ((?c, r) # tr) = Suc (data_from dr tr)" "data_from dr tr < k"
      by (simp_all add: data_from_def finite_data_def)
    have more: "adds 0 [] (q @ [(?c, r)])" if "adds 0 [] q" for q
      using that by (simp add: adds_def)
    note again = Suc.prems(1,3,4) d r Suc.prems(5) [OF more] Suc.prems(6) [OF more]
    show "wpt (finite_data k) Q (take_all fuel dr label n) s ((?c, r) # tr)" if "\<not> take_valid r"
      by (rule Suc.IH) (use again that in auto)
    show "wpt (finite_data k) Q (take_all fuel dr label (n + 1)) s ((?c, r) # tr)" if "\<not> \<not> take_valid r"
      by (rule Suc.IH) (use again that in auto)
    show "wpt (finite_data k) Q (Leaf (Crash ''overflow of taken_count'')) s ((?c, r) # tr)" if "n = 2147483647"
      using that Suc.prems(3,4) d(2) by simp
  qed
qed

lemma ign_nothing_received:
  assumes "slept tr \<le> B" and "k + 1 \<le> fuel" and "k < 2 ^ 31"
    and "\<And>q tr'. grown tr q tr' \<Longrightarrow> adds 0 [] q \<and> only written q = [] \<and> valid_from dr q = []
      \<and> asked (Data (take_one dr)) (\<lambda>r. ret r = DDS_RETCODE_NO_DATA) q \<Longrightarrow> quiet_wpt B (finite_data k) P p s tr'"
  shows "quiet_wpt B (finite_data k) P (nothing_received fuel dr label p) s tr"
  unfolding nothing_received_def wpt_bind
proof (rule wpt_take_all)
  fix q :: "(int, unit) atrace"
  assume q: "adds 0 [] q" "asked (Data (take_one dr)) (\<lambda>r. ret r = DDS_RETCODE_NO_DATA) q" "only written q = []"
  show "after (finite_data k) (\<lambda>x s. quiet_post B P x) (\<lambda>x. case x of Seen n \<Rightarrow>
      if n \<noteq> 0 then fail quiet (label @ '' reader received '' @ dec n @ '' samples, expected 0'') else p | _ \<Rightarrow> Return 1)
      (Val (Seen (0 + length (valid_from dr q)))) s (q @ tr)"
    using assms(1,4) q by (auto simp: grown_def adds_def intro!: quiet_fail)
qed (use assms(1,2,3) in \<open>auto simp: adds_def quiet_post_def\<close>)

lemma five: "map int [0..<5] = [0, 1, 2, 3, 4]"
  by (simp add: upt_conv_Cons)

lemma wpt_control_loop:
  assumes "received \<le> 5" and "last_seq = int received - 1"
    and "\<And>q line r. adds (n * 20) [] q \<Longrightarrow> Q (Val (Some 1)) s ((eprintf (FAIL line), r) # q @ tr)"
    and "\<And>q. adds (n * 20) [] q \<Longrightarrow> map int [0..<received] @ valid_from dr q = [0, 1, 2, 3, 4] \<Longrightarrow> Q (Val None) s (q @ tr)"
  shows "wpt G Q (control_loop n dr received last_seq) s tr"
  using assms
proof (induction n arbitrary: received last_seq tr)
  case 0
  show ?case
  proof (cases "received = 5")
    case True
    then show ?thesis using 0(4) [of "[]"] by (simp add: adds_def IGN_SAMPLE_COUNT_def five)
  next
    case False
    then show ?thesis using 0(1) 0(3) [of "[]"] by (simp add: fail_out_def adds_def IGN_SAMPLE_COUNT_def wpt_quiet)
  qed
next
  case (Suc n)
  let ?c = "Data (take_one dr) :: int app_call"
  have more: "adds (Suc n * 20) [] (q @ [(?c, r)])" "adds (Suc n * 20) [] (q @ [(sleep_ms IGN_POLL_PERIOD_MS, r'), (?c, r)])"
    if "adds (n * 20) [] q" for q r r'
    using that by (simp_all add: adds_def IGN_POLL_PERIOD_MS_def)
  have one: "adds (Suc n * 20) [] [(?c, r)]" for r
    by (simp add: adds_def)
  show ?case
  proof (cases "received = 5")
    case True
    then show ?thesis using Suc.prems(4) [of "[]"] by (simp add: adds_def IGN_SAMPLE_COUNT_def five)
  next
    case False
    then have lt: "\<not> received \<ge> IGN_SAMPLE_COUNT" using Suc.prems(1) by (simp add: IGN_SAMPLE_COUNT_def)
    show ?thesis
      unfolding control_loop.simps if_not_P [OF lt] fail_out_def
    proof (intro wpt_quiet wpt_ifI)
      fix r :: "(int, unit) answer"
      assume r: "ret r = DDS_RETCODE_OK \<and> take_valid r" "\<not> take_value r \<noteq> last_seq + 1"
      show "wpt G Q (control_loop n dr (received + 1) (take_value r)) s ((?c, r) # tr)"
        by (rule Suc.IH) (use Suc.prems(1,2) lt r Suc.prems(3) [OF more(1)] Suc.prems(4) [OF more(1)] in
            \<open>auto simp: IGN_SAMPLE_COUNT_def\<close>)
    next
      fix r r' :: "(int, unit) answer"
      assume r: "\<not> (ret r = DDS_RETCODE_OK \<and> take_valid r)"
      show "wpt G Q (control_loop n dr received last_seq) s ((sleep_ms IGN_POLL_PERIOD_MS, r') # (?c, r) # tr)"
        by (rule Suc.IH) (use Suc.prems(1,2) r Suc.prems(3) [OF more(2)] Suc.prems(4) [OF more(2)] in auto)
    qed (use Suc.prems(3) [OF one] in simp_all)
  qed
qed


lemma ign_write_ignored:
  assumes "slept tr \<le> B"
    and "\<And>q tr'. grown tr q tr' \<Longrightarrow> adds 0 [] q \<and> only written q = map (\<lambda>i. (dw, int i)) [0..<5] \<Longrightarrow> quiet_wpt B G P p s tr'"
  shows "quiet_wpt B G P (bind_prog (write_ignored dw) (\<lambda>x. leave_or x p)) s tr"
  unfolding wpt_bind write_ignored_def
proof (rule wpt_for_prog [where I = "\<lambda>i s' tr'. \<exists>q. tr' = q @ tr \<and> adds 0 [] q \<and> only written q = map (\<lambda>i. (dw, int i)) [0..<i]"])
  show "\<exists>q. tr = q @ tr \<and> adds 0 [] q \<and> only written q = map (\<lambda>i. (dw, int i)) [0..<0]"
    by (simp add: adds_def)
next
  fix i s' tr'
  assume "\<exists>q. tr' = q @ tr \<and> adds 0 [] q \<and> only written q = map (\<lambda>i. (dw, int i)) [0..<i]"
  then obtain q where q: "tr' = q @ tr" "adds 0 [] q" "only written q = map (\<lambda>i. (dw, int i)) [0..<i]" by blast
  show "wpt G (\<lambda>x s tr'. case x of Val None \<Rightarrow> \<exists>q. tr' = q @ tr \<and> adds 0 [] q \<and> only written q = map (\<lambda>i. (dw, int i)) [0..<Suc i]
      | _ \<Rightarrow> after G (\<lambda>x s. quiet_post B P x) (\<lambda>x. leave_or x p) x s tr')
     (sys quiet (Data (write_data dw (int i) 0)) (\<lambda>r.
       if ret r \<noteq> DDS_RETCODE_OK then fail_out quiet (''write(SubscriptionIgnoredTopic) failed at seq='' @ dec i) else Return None)) s' tr'"
    unfolding fail_out_def
    by (intro wpt_quiet wpt_ifI)
       (use q assms(1) in \<open>auto simp: adds_def quiet_post_def intro!: exI [of _ "_ # q"]\<close>)
next
  fix s' tr'
  assume "\<exists>q. tr' = q @ tr \<and> adds 0 [] q \<and> only written q = map (\<lambda>i. (dw, int i)) [0..<0 + IGN_SAMPLE_COUNT]"
  then show "after G (\<lambda>x s. quiet_post B P x) (\<lambda>x. leave_or x p) (Val None) s' tr'"
    using assms(2) by (cases s; cases s') (auto simp: grown_def IGN_SAMPLE_COUNT_def)
qed

lemma no_data_op:
  assumes "only data_op q = []"
  shows "valid_from dr q = []" "only written q = []"
proof -
  have "only data_op q = [] \<Longrightarrow> valid_from dr q = [] \<and> only written q = []"
  proof (induction q)
    case (Cons x q)
    then show ?case by (cases x; cases "fst x") auto
  qed simp
  then show "valid_from dr q = []" "only written q = []" using assms by auto
qed

lemma ign_control:
  assumes "slept tr + 40000 \<le> B"
    and k: "\<And>q tr'. grown tr q tr' \<Longrightarrow> adds 40000 [''Ignorer: ControlTopic received all 5 samples.''] q \<and> valid_from dr q = [0, 1, 2, 3, 4]
      \<Longrightarrow> quiet_wpt B G P p s tr'"
  shows "quiet_wpt B G P (control dr p) s tr"
  unfolding control_def
proof (rule ign_search [OF looks_matched])
  fix a q
  assume "polls MATCH_TIMEOUT_MS q"
  then have q: "adds 20000 [] q" "valid_from dr q = []"
    by (simp_all add: adds_def polls_def MATCH_TIMEOUT_MS_def no_data_op)
  show "quiet_wpt B G P (bind_prog (control_loop ((IGN_RECEIVE_TIMEOUT_MS + IGN_POLL_PERIOD_MS - 1) div IGN_POLL_PERIOD_MS) dr 0 (- 1))
      (\<lambda>x. leave_or x (say quiet ''Ignorer: ControlTopic received all 5 samples.'' p))) s (q @ tr)"
    unfolding wpt_bind
  proof (rule wpt_control_loop)
    fix q'
    assume "adds ((IGN_RECEIVE_TIMEOUT_MS + IGN_POLL_PERIOD_MS - 1) div IGN_POLL_PERIOD_MS * 20) [] q'"
      and v: "map int [0..<0] @ valid_from dr q' = [0, 1, 2, 3, 4]"
    then have "adds 20000 [] q'" by (simp add: IGN_RECEIVE_TIMEOUT_MS_def IGN_POLL_PERIOD_MS_def)
    with q v have "quiet_wpt B G P p s ((printf ''Ignorer: ControlTopic received all 5 samples.'', r) # q' @ q @ tr)" for r
      by (intro k [of "(printf ''Ignorer: ControlTopic received all 5 samples.'', r) # q' @ q"]) (simp_all add: adds_def grown_def)
    then show "after G (\<lambda>x s. quiet_post B P x) (\<lambda>x. leave_or x (say quiet ''Ignorer: ControlTopic received all 5 samples.'' p))
        (Val None) s (q' @ q @ tr)"
      by (simp add: wpt_quiet)
  qed (use q assms(1) in \<open>auto simp: adds_def quiet_post_def IGN_RECEIVE_TIMEOUT_MS_def IGN_POLL_PERIOD_MS_def\<close>)
qed (use assms(1) in \<open>simp_all add: MATCH_TIMEOUT_MS_def\<close>)


definition made :: "(string \<times> int) list \<Rightarrow> int \<Rightarrow> (int, unit) atrace \<Rightarrow> bool" where
  "made topics dp q \<longleftrightarrow> (\<forall>(name, h) \<in> set topics. h \<noteq> 0 \<and> returned (Entity (create_topic dp name ''IgnoreEvent'')) h q)"

definition topics_made :: "int \<Rightarrow> ign_topics \<Rightarrow> (int, unit) atrace \<Rightarrow> bool" where
  "topics_made dp t = made [(''ControlTopic'', control_topic t), (''TopicIgnoredTopic'', topic_ignored_topic t),
     (''PublicationIgnoredTopic'', pub_ignored_topic t), (''SubscriptionIgnoredTopic'', sub_ignored_topic t),
     (''ParticipantIgnoredTopic'', participant_ignored_topic t)] dp"

lemma ign_create_topics:
  assumes "in_order ps tr" and "sum_list (map fst ps) \<le> B"
    and "\<And>t tr'. in_order (ps @ [(0, [], topics_made dp t)]) tr' \<Longrightarrow> quiet_wpt B G P (k t) s tr'"
  shows "quiet_wpt B G P (create_topics dp k) s tr"
  unfolding create_topics_def
  apply (intro wpt_quiet wpt_ifI quiet_fail)
      apply (use in_order_slept [OF assms(1)] assms(2) in \<open>simp; fail\<close>)+
  apply (rule assms(3), rule next_phase [OF assms(1)], (rule grown_rules)+)
  apply (auto simp: adds_def topics_made_def made_def)
  done

definition topic_ignored :: "int \<Rightarrow> ign_topics \<Rightarrow> ign_ends \<Rightarrow> (int, unit) atrace \<Rightarrow> bool" where
  "topic_ignored dp t e q \<longleftrightarrow>
     (\<exists>h. returned (Query (get_instance_handle (topic_ignored_topic t))) h q \<and> accepted (Query (ignore_topic dp h)) q)
     \<and> ign_dp e = dp \<and> ign_sub e \<noteq> 0 \<and> ign_pub e \<noteq> 0
     \<and> returned (Entity (create_subscriber dp)) (ign_sub e) q \<and> returned (Entity (create_publisher dp)) (ign_pub e) q
     \<and> reliable (dr_qos e) \<and> keep_all (dr_qos e) \<and> reliable (dw_qos e) \<and> keep_all (dw_qos e)"

lemma ign_own_topic:
  assumes "in_order ps tr" and "sum_list (map fst ps) \<le> B"
    and "\<And>e tr'. in_order (ps @ [(0, [''Ignorer: ignore_topic() applied to TopicIgnoredTopic.''], topic_ignored dp t e)]) tr'
      \<Longrightarrow> quiet_wpt B G P (k e) s tr'"
  shows "quiet_wpt B G P (ignore_own_topic dp t k) s tr"
  unfolding ignore_own_topic_def
  apply (intro wpt_quiet wpt_ifI quiet_fail quiet_check)
      apply (use in_order_slept [OF assms(1)] assms(2) in \<open>simp; fail\<close>)+
  apply (rule assms(3), rule next_phase [OF assms(1)], (rule grown_rules)+)
  apply (auto simp: adds_def topic_ignored_def reliable_keep_all_def)
  done

definition readers_made :: "ign_topics \<Rightarrow> ign_ends \<Rightarrow> int \<Rightarrow> int \<Rightarrow> int \<Rightarrow> (int, unit) atrace \<Rightarrow> bool" where
  "readers_made t e a b c q \<longleftrightarrow> a \<noteq> 0 \<and> b \<noteq> 0 \<and> c \<noteq> 0
     \<and> returned (Entity (create_datareader (ign_sub e) (topic_ignored_topic t) (dr_qos e) False)) a q
     \<and> returned (Entity (create_datareader (ign_sub e) (participant_ignored_topic t) (dr_qos e) False)) b q
     \<and> returned (Entity (create_datareader (ign_sub e) (control_topic t) (dr_qos e) False)) c q"

lemma ign_first_readers:
  assumes "in_order ps tr" and "sum_list (map fst ps) \<le> B"
    and "\<And>a b c tr'. in_order (ps @ [(0, [''Ignorer: ready for bystander.''], readers_made t e a b c)]) tr'
      \<Longrightarrow> quiet_wpt B G P (k a b c) s tr'"
  shows "quiet_wpt B G P (first_readers t e k) s tr"
  unfolding first_readers_def
  apply (intro wpt_quiet wpt_ifI quiet_fail)
      apply (use in_order_slept [OF assms(1)] assms(2) in \<open>simp; fail\<close>)+
  apply (rule assms(3), rule next_phase [OF assms(1)], (rule grown_rules)+)
  apply (auto simp: adds_def readers_made_def)
  done

lemma ign_bystander:
  assumes "in_order ps tr" and "sum_list (map fst ps) + 15000 \<le> B"
    and "\<And>tr'. in_order (ps @ [(15000, [''Ignorer: ignore_participant() applied to bystander.''],
        ignored_first (get_discovered_participants dp) (ignore_participant dp))]) tr' \<Longrightarrow> quiet_wpt B G P p s tr'"
  shows "quiet_wpt B G P (search DISCOVER_BYSTANDER_TIMEOUT_MS (look_bystander dp) line (\<lambda>_.
     say quiet ''Ignorer: ignore_participant() applied to bystander.'' p)) s tr"
  apply (rule ign_search [OF looks_bystander])
     apply (erule ignored_first_mono)
    apply (simp add: DISCOVER_BYSTANDER_TIMEOUT_MS_def)
  using in_order_slept [OF assms(1)] assms(2) apply (simp add: DISCOVER_BYSTANDER_TIMEOUT_MS_def)
  apply (rule wpt_quiet, rule assms(3), rule next_phase [OF assms(1)], (rule grown_rules)+)
  apply (auto simp: adds_def polls_def DISCOVER_BYSTANDER_TIMEOUT_MS_def intro: ignored_first_mono)
  done

definition ends_made :: "entity_call \<Rightarrow> int \<Rightarrow> (int, unit) atrace \<Rightarrow> bool" where
  "ends_made create h q \<longleftrightarrow> h \<noteq> 0 \<and> returned (Entity create) h q"

lemma ign_writer:
  assumes "in_order ps tr" and "sum_list (map fst ps) + 45000 \<le> B"
    and "\<And>h tr'. in_order (ps @ [(45000, [''Ignorer: ignore_publication() applied via probe.''],
          probed (create_datareader (ign_sub e) (pub_ignored_topic t) (dr_qos e) False) get_matched_publications
            (ignore_publication (ign_dp e)) (delete_datareader (ign_sub e))),
        (0, [], ends_made (create_datareader (ign_sub e) (pub_ignored_topic t) (dr_qos e) False) h)]) tr'
      \<Longrightarrow> quiet_wpt B G P (k h) s tr'"
  shows "quiet_wpt B G P (ignore_writer t e k) s tr"
  unfolding ignore_writer_def
  by (rule ign_via_probe)
     (use in_order_slept [OF assms(1)] assms(2) in \<open>auto simp: adds_def ends_made_def intro!: assms(3) in_order_snoc2 [OF assms(1)]\<close>)

lemma ign_reader:
  assumes "in_order ps tr" and "sum_list (map fst ps) + 45000 \<le> B"
    and "\<And>h tr'. in_order (ps @ [(45000, [''Ignorer: ignore_subscription() applied via probe.''],
          probed (create_datawriter (ign_pub e) (sub_ignored_topic t) (dw_qos e)) get_matched_subscriptions
            (ignore_subscription (ign_dp e)) (delete_datawriter (ign_pub e))),
        (0, [], ends_made (create_datawriter (ign_pub e) (sub_ignored_topic t) (dw_qos e)) h)]) tr'
      \<Longrightarrow> quiet_wpt B G P (k h) s tr'"
  shows "quiet_wpt B G P (ignore_reader t e k) s tr"
  unfolding ignore_reader_def
  by (rule ign_via_probe)
     (use in_order_slept [OF assms(1)] assms(2) in \<open>auto simp: adds_def ends_made_def intro!: assms(3) in_order_snoc2 [OF assms(1)]\<close>)

text \<open>Five samples written, and after the last of them three seconds for them to arrive nowhere.\<close>

definition wrote_five :: "int \<Rightarrow> (int, unit) atrace \<Rightarrow> bool" where
  "wrote_five dw q \<longleftrightarrow> (\<exists>q1 q0. q = q1 @ q0 \<and> only written q0 = [(dw, 0), (dw, 1), (dw, 2), (dw, 3), (dw, 4)]
     \<and> only written q1 = [] \<and> 3000 \<le> slept q1)"

lemma wrote_five_settled:
  "only written q0 = [(dw, 0), (dw, 1), (dw, 2), (dw, 3), (dw, 4)] \<Longrightarrow> 3000 \<le> n \<Longrightarrow> wrote_five dw ((sleep_ms n, r) # q0)"
  unfolding wrote_five_def by (intro exI [of _ "[(sleep_ms n, r)]"] exI [of _ q0]) simp

lemma ign_write_and_settle:
  assumes "in_order ps tr" and "sum_list (map fst ps) + 3000 \<le> B"
    and "\<And>tr'. in_order (ps @ [(3000, [], wrote_five dw)]) tr' \<Longrightarrow> quiet_wpt B G P p s tr'"
  shows "quiet_wpt B G P (bind_prog (write_ignored dw) (\<lambda>x. leave_or x (
     sys quiet (sleep_ms (IGN_SETTLE_WINDOW_S * 1000)) (\<lambda>_. p)))) s tr"
  apply (rule ign_write_ignored)
  using in_order_slept [OF assms(1)] assms(2) apply simp
  apply (rule wpt_quiet, rule assms(3), rule next_phase [OF assms(1)], (rule grown_rules | assumption)+)
  apply (auto simp: adds_def IGN_SETTLE_WINDOW_S_def upt_conv_Cons intro!: wrote_five_settled)
  done

definition unmatched_at :: "int \<Rightarrow> (int, unit) atrace \<Rightarrow> bool" where
  "unmatched_at dr = asked (Query (get_subscription_matched_status dr)) (\<lambda>r. ret r = DDS_RETCODE_OK \<and> num r = 0)"

definition took_nothing :: "int \<Rightarrow> (int, unit) atrace \<Rightarrow> bool" where
  "took_nothing dr q \<longleftrightarrow> valid_from dr q = [] \<and> asked (Data (take_one dr)) (\<lambda>r. ret r = DDS_RETCODE_NO_DATA) q"

lemma ign_unmatched:
  assumes "in_order ps tr" and "sum_list (map fst ps) \<le> B"
    and "\<And>tr'. in_order (ps @ [(0, [], unmatched_at dr)]) tr' \<Longrightarrow> quiet_wpt B G P p s tr'"
  shows "quiet_wpt B G P (unmatched dr line p) s tr"
  unfolding unmatched_def
  apply (intro wpt_quiet wpt_ifI quiet_fail)
   apply (use in_order_slept [OF assms(1)] assms(2) in \<open>simp; fail\<close>)
  apply (rule assms(3), rule next_phase [OF assms(1)], (rule grown_rules)+)
  apply (auto simp: adds_def unmatched_at_def)
  done

lemma ign_ignore_checks:
  assumes "in_order ps tr" and "sum_list (map fst ps) \<le> B" and "k + 1 \<le> fuel" "k < 2 ^ 31"
    and "\<And>tr'. in_order (ps @ [(0, [], unmatched_at a), (0, [], unmatched_at b), (0, [], unmatched_at c),
        (0, [], took_nothing a), (0, [''Ignorer: all ignore checks passed.''], took_nothing c)]) tr'
      \<Longrightarrow> quiet_wpt B (finite_data k) P p s tr'"
  shows "quiet_wpt B (finite_data k) P (ignore_checks fuel a b c p) s tr"
  unfolding ignore_checks_def
  apply (rule ign_unmatched [OF assms(1)], simp add: assms(2))
  apply (erule ign_unmatched, simp add: assms(2))
  apply (erule ign_unmatched, simp add: assms(2))
  apply (rule ign_nothing_received [OF _ assms(3,4)], drule in_order_slept, use assms(2) in \<open>simp; fail\<close>)
  apply (drule next_phase [where lines = "[]" and b = 0 and P = "took_nothing a"], assumption, simp add: took_nothing_def)
  apply (rule ign_nothing_received [OF _ assms(3,4)], drule in_order_slept, use assms(2) in \<open>simp; fail\<close>)
  apply (rule wpt_quiet, rule assms(5))
  apply (drule next_phase [where b = 0 and P = "took_nothing c" and lines = "[''Ignorer: all ignore checks passed.'']"], erule grown_rules(1))
   apply (auto simp: adds_def took_nothing_def)
  done

definition received_all :: "int \<Rightarrow> (int, unit) atrace \<Rightarrow> bool" where
  "received_all dr q \<longleftrightarrow> valid_from dr q = [0, 1, 2, 3, 4]"

lemma ign_control_phase:
  assumes "in_order ps tr" and "sum_list (map fst ps) + 40000 \<le> B"
    and "\<And>tr'. in_order (ps @ [(40000, [''Ignorer: ControlTopic received all 5 samples.''], received_all dr)]) tr' \<Longrightarrow> quiet_wpt B G P p s tr'"
  shows "quiet_wpt B G P (control dr p) s tr"
  by (rule ign_control)
     (use in_order_slept [OF assms(1)] assms(2) in \<open>auto simp: received_all_def intro!: assms(3) next_phase [OF assms(1)]\<close>)


section \<open>The contract\<close>

definition ignorer_phases ::
  "string list \<Rightarrow> int \<Rightarrow> int \<Rightarrow> ign_topics \<Rightarrow> ign_ends \<Rightarrow> int \<Rightarrow> int \<Rightarrow> int \<Rightarrow> int \<Rightarrow> int \<Rightarrow> int run_phase list" where
  "ignorer_phases argv factory dp t e topic_dr participant_dr control_dr pub_dr sub_dw =
    [(0, [], opened argv ''IgnoreEvent'' factory dp),
     (0, [], topics_made dp t),
     (0, [''Ignorer: ignore_topic() applied to TopicIgnoredTopic.''], topic_ignored dp t e),
     (0, [''Ignorer: ready for bystander.''], readers_made t e topic_dr participant_dr control_dr),
     (15000, [''Ignorer: ignore_participant() applied to bystander.''],
        ignored_first (get_discovered_participants dp) (ignore_participant dp)),
     (45000, [''Ignorer: ignore_publication() applied via probe.''],
        probed (create_datareader (ign_sub e) (pub_ignored_topic t) (dr_qos e) False) get_matched_publications
          (ignore_publication (ign_dp e)) (delete_datareader (ign_sub e))),
     (0, [], ends_made (create_datareader (ign_sub e) (pub_ignored_topic t) (dr_qos e) False) pub_dr),
     (45000, [''Ignorer: ignore_subscription() applied via probe.''],
        probed (create_datawriter (ign_pub e) (sub_ignored_topic t) (dw_qos e)) get_matched_subscriptions
          (ignore_subscription (ign_dp e)) (delete_datawriter (ign_pub e))),
     (0, [], ends_made (create_datawriter (ign_pub e) (sub_ignored_topic t) (dw_qos e)) sub_dw),
     (3000, [], wrote_five sub_dw),
     (0, [], unmatched_at topic_dr), (0, [], unmatched_at participant_dr), (0, [], unmatched_at pub_dr),
     (0, [], took_nothing topic_dr),
     (0, [''Ignorer: all ignore checks passed.''], took_nothing pub_dr),
     (40000, [''Ignorer: ControlTopic received all 5 samples.''], received_all control_dr),
     (0, [''Ignorer: done.''], asked (Entity (delete_participant factory dp)) (\<lambda>_. True))]"

definition ignore_verified :: "string list \<Rightarrow> (int, unit) atrace \<Rightarrow> bool" where
  "ignore_verified argv tr \<longleftrightarrow> (\<exists>factory dp t e a b c p w r rest.
     tr = (Entity (zzdds_destroy_factory factory), r) # rest
     \<and> in_order (ignorer_phases argv factory dp t e a b c p w) rest)"

lemma ign_done:
  assumes "in_order ps tr" and "sum_list (map fst ps) \<le> B"
    and "ps @ [(0, [''Ignorer: done.''], asked (Entity (delete_participant factory dp)) (\<lambda>_. True))] = ignorer_phases argv factory dp t e a b c p w"
  shows "quiet_wpt B G (ignore_verified argv) (say quiet ''Ignorer: done.'' (sys quiet (Entity (delete_participant factory dp)) (\<lambda>_.
     sys quiet (Entity (zzdds_destroy_factory factory)) (\<lambda>_. Return 0)))) s tr"
proof (intro wpt_quiet)
  fix r1 r2 r3
  let ?q = "[(Entity (delete_participant factory dp), r2 :: (int, unit) answer), (printf ''Ignorer: done.'', r1)]"
  have "in_order (ignorer_phases argv factory dp t e a b c p w) (?q @ tr)"
    unfolding assms(3) [symmetric] by (rule in_order_snoc [OF assms(1)]) (simp add: adds_def)
  then show "quiet_wpt B G (ignore_verified argv) (Return 0) s ((Entity (zzdds_destroy_factory factory), r3)
      # (Entity (delete_participant factory dp), r2) # (printf ''Ignorer: done.'', r1) # tr)"
    using in_order_slept [OF assms(1)] assms(2) by (simp add: quiet_post_def ignore_verified_def) blast
qed

lemma ignorer_wpt:
  assumes "k + 1 \<le> fuel" "k < 2 ^ 31"
  shows "quiet_wpt 148000 (finite_data k) (ignore_verified argv) (ignorer fuel argv) s []"
  unfolding ignorer_def
  apply (rule quiet_open_participant)
  apply (erule ign_create_topics, simp)
  apply (erule ign_own_topic, simp)
  apply (erule ign_first_readers, simp)
  apply (erule ign_bystander, simp)
  apply (erule ign_writer, simp)
  apply (erule ign_reader, simp)
  apply (erule ign_write_and_settle, simp)
  apply (erule ign_ignore_checks, simp, rule assms(1), rule assms(2))
  apply (erule ign_control_phase, simp)
  apply (erule ign_done, simp, simp add: ignorer_phases_def)
  done

text \<open>C23. The ignore test against an arbitrary middleware that hands over finitely many samples: it sleeps 148
  seconds at most, and it ends with 1 right after a \<open>FAIL:\<close> line, or with 0. With 0 it went through
  these phases in this order, printing their lines and destroying its factory last: the topic was ignored
  under its own instance handle before its reader existed; the first participant discovered was ignored; the
  first publication and the first subscription a probe endpoint matched were ignored, and only after the
  probe was deleted the endpoints under test were created; samples 0 to 4 were written to the ignored reader; after at
  least three more seconds none of the readers had a match, and those of the ignored topic and publication, emptied until
  \<open>NO_DATA\<close>, gave no valid sample; and the reader that was not ignored received exactly samples 0 to 4 in
  this order. The endless loop that empties a reader needs no more takes than there are samples, and its \<open>int\<close> counter
  does not overflow as long as there are fewer than \<open>2 ^ 31\<close> of them.\<close>

theorem ignorer_contract:
  assumes "\<And>tr c. finite_data k tr c (env tr c)" and "k + 1 \<le> fuel" and "k < 2 ^ 31"
  shows "case run env (ignorer fuel argv) s [] of (x, s', tr) \<Rightarrow>
    slept tr \<le> 148000 \<and> (x = Val 1 \<and> failed tr \<or> x = Val 0 \<and> ignore_verified argv tr)"
  using wpt_run_result [where e = env, OF ignorer_wpt [OF assms(2,3)] assms(1), of argv s]
  by (simp add: quiet_post_def split_beta)

text \<open>A middleware that honours what is ignored and delivers on the control topic.\<close>

definition topic_number :: "string \<Rightarrow> int" where
  "topic_number name = (if name = ''ControlTopic'' then 1 else if name = ''TopicIgnoredTopic'' then 2
     else if name = ''PublicationIgnoredTopic'' then 3 else if name = ''SubscriptionIgnoredTopic'' then 4 else 5)"

definition ignoring :: "(int, unit) atrace \<Rightarrow> bool" where
  "ignoring tr = list_ex (\<lambda>(c, r). c = Query (ignore_publication 1 92)) tr"

fun ign_env :: "(int, unit) atrace \<Rightarrow> int app_call \<Rightarrow> (int, unit) answer" where
  "ign_env tr (Entity (zzdds_factory_is_nil f)) = answers 0 []"
| "ign_env tr (Entity (type_support_register dp name)) = answers 0 []"
| "ign_env tr (Entity (create_topic dp name type)) = answers (topic_number name) []"
| "ign_env tr (Entity (create_datareader sub t q l)) = answers (10 + t) []"
| "ign_env tr (Entity (create_datawriter pub t q)) = answers (10 + t) []"
| "ign_env tr (Entity c) = answers 1 []"
| "ign_env tr (Query (get_discovered_participants dp)) = (answers 0 [])\<lparr>hs := [91]\<rparr>"
| "ign_env tr (Query (get_subscription_matched_status dr)) =
     (answers 0 [])\<lparr>num := if dr = 11 \<or> dr = 13 \<and> \<not> ignoring tr then 1 else 0\<rparr>"
| "ign_env tr (Query (get_publication_matched_status dw)) = (answers 0 [])\<lparr>num := 1\<rparr>"
| "ign_env tr (Query (get_matched_publications dr)) = (answers 0 [])\<lparr>hs := [92]\<rparr>"
| "ign_env tr (Query (get_matched_subscriptions dw)) = (answers 0 [])\<lparr>hs := [93]\<rparr>"
| "ign_env tr (Data (take_one dr)) = (let n = data_from dr tr in
     if dr = 11 \<and> n < 5 then (answers 0 [])\<lparr>got := [(int n, True)]\<rparr> else answers 11 [])"
| "ign_env tr c = answers 0 []"

lemma ign_env_finite: "finite_data 5 tr c (ign_env tr c)"
  by (auto simp: finite_data_def Let_def answers_def DDS_RETCODE_NO_DATA_def split: if_splits)

text \<open>What the answers depend on, and how far one phase takes the run.\<close>

definition seen :: "(int, unit) atrace \<Rightarrow> bool \<times> nat" where
  "seen tr = (ignoring tr, data_from 11 tr)"

definition leads :: "int ign \<Rightarrow> bool \<times> nat \<Rightarrow> int ign \<Rightarrow> bool \<times> nat \<Rightarrow> bool" where
  "leads p v p' v' \<longleftrightarrow> (\<forall>tr. seen tr = v \<longrightarrow> (\<exists>tr'. run ign_env p No_statics tr = run ign_env p' No_statics tr' \<and> seen tr' = v'))"

lemma leads_trans: "leads p v p' v' \<Longrightarrow> leads p' v' p'' v'' \<Longrightarrow> leads p v p'' v''"
  unfolding leads_def by metis

text \<open>Only the iteration that is reached is unfolded.\<close>

lemma run_search:
  assumes "run e look s tr = (Val (Seen a), s', tr')" and "0 < timeout"
  shows "run e (search timeout look line k) s tr = run e (k a) s' tr'"
proof -
  obtain n where "(timeout + IGN_POLL_PERIOD_MS - 1) div IGN_POLL_PERIOD_MS = Suc n"
    using assms(2) by (cases "(timeout + IGN_POLL_PERIOD_MS - 1) div IGN_POLL_PERIOD_MS") (auto simp: IGN_POLL_PERIOD_MS_def)
  then show ?thesis using assms(1) by (simp add: search_def run_bind_prog)
qed

lemma run_take_all:
  assumes "ret (e tr (Data (take_one dr))) = DDS_RETCODE_NO_DATA"
  shows "run e (take_all (numeral n) dr label i) s tr = (Val (Seen i), s, (Data (take_one dr), e tr (Data (take_one dr))) # tr)"
  using assms by (simp add: numeral_eq_Suc)

lemma run_control_loop:
  "\<lbrakk>i < 5; ret (e tr (Data (take_one dr))) = 0; take_valid (e tr (Data (take_one dr)));
     take_value (e tr (Data (take_one dr))) = l + 1\<rbrakk>
    \<Longrightarrow> run e (control_loop (numeral n) dr i l) s tr
      = run e (control_loop (pred_numeral n) dr (i + 1) (l + 1)) s ((Data (take_one dr), e tr (Data (take_one dr))) # tr)"
  "5 \<le> i \<Longrightarrow> run e (control_loop (numeral n) dr i l) s tr = (Val None, s, tr)"
  by (simp_all add: numeral_eq_Suc IGN_SAMPLE_COUNT_def)

lemmas ign_evaluate = evaluate ign_constants topic_number_def take_value_def take_valid_def DDS_RETCODE_NO_DATA_def
  seen_def ignoring_def data_from_def run_search run_take_all run_control_loop

lemma leads_step:
  assumes "\<And>tr. seen tr = v \<Longrightarrow> \<exists>tr'. run ign_env p No_statics tr = run ign_env p' No_statics tr' \<and> seen tr' = v'"
  shows "leads p v p' v'"
  using assms by (simp add: leads_def)

lemma leads_open: "leads (open_participant quiet [''ignorer''] ''IgnoreEvent'' line k) (False, 0) (k 1 1) (False, 0)"
  by (rule leads_step) (simp add: ign_evaluate, rule exI, rule conjI, rule refl, simp)

abbreviation demo_topics :: ign_topics where
  "demo_topics \<equiv> \<lparr>control_topic = 1, topic_ignored_topic = 2, pub_ignored_topic = 3, sub_ignored_topic = 4, participant_ignored_topic = 5\<rparr>"

lemma leads_topics: "leads (create_topics 1 k) v (k demo_topics) v"
  by (rule leads_step) (simp add: ign_evaluate create_topics_def, rule exI, rule conjI, rule refl, simp)

abbreviation demo_ends :: ign_ends where
  "demo_ends \<equiv> \<lparr>ign_dp = 1, ign_sub = 1, ign_pub = 1, dr_qos = reliable_keep_all 0, dw_qos = reliable_keep_all 0\<rparr>"

lemma leads_own_topic: "leads (ignore_own_topic 1 demo_topics k) v (k demo_ends) v"
  by (rule leads_step) (simp add: ign_evaluate ignore_own_topic_def, rule exI, rule conjI, rule refl, simp)

lemma leads_first_readers: "leads (first_readers demo_topics demo_ends k) v (k 12 15 11) v"
  by (rule leads_step) (simp add: ign_evaluate first_readers_def, rule exI, rule conjI, rule refl, simp)

lemma leads_bystander:
  "leads (search DISCOVER_BYSTANDER_TIMEOUT_MS (look_bystander 1) line k) v (k 91) v"
  by (rule leads_step) (simp add: ign_evaluate look_bystander_def, rule exI, rule conjI, rule refl, simp)

lemma leads_say: "leads (say quiet line p) v p v"
  by (rule leads_step) (simp add: ign_evaluate, rule exI, rule conjI, rule refl, simp)

lemma leads_ignore_writer: "leads (ignore_writer demo_topics demo_ends k) (False, n) (k 13) (True, n)"
  by (rule leads_step) (simp add: ign_evaluate ignore_writer_def via_probe_def look_matched_def, rule exI, rule conjI, rule refl, simp)

lemma leads_ignore_reader: "leads (ignore_reader demo_topics demo_ends k) v (k 14) v"
  by (rule leads_step) (simp add: ign_evaluate ignore_reader_def via_probe_def look_matched_def, rule exI, rule conjI, rule refl, simp)

lemma leads_write:
  "leads (bind_prog (write_ignored 14) (\<lambda>x. leave_or x (sys quiet (sleep_ms (IGN_SETTLE_WINDOW_S * 1000)) (\<lambda>_. p)))) v p v"
  by (rule leads_step) (simp add: ign_evaluate write_ignored_def, rule exI, rule conjI, rule refl, simp)

lemma leads_checks: "leads (ignore_checks 6 12 15 13 p) (True, 0) p (True, 0)"
  by (rule leads_step) (simp add: ign_evaluate ignore_checks_def unmatched_def nothing_received_def, rule exI, rule conjI, rule refl, simp)

lemma leads_control: "leads (control 11 p) (b, 0) p (b, 5)"
  by (rule leads_step) (simp add: ign_evaluate control_def look_matched_def, rule exI, rule conjI, rule refl, simp)

lemma ignorer_leads:
  "leads (ignorer 6 [''ignorer'']) (False, 0)
     (say quiet ''Ignorer: done.'' (sys quiet (Entity (delete_participant 1 1)) (\<lambda>_.
      sys quiet (Entity (zzdds_destroy_factory 1)) (\<lambda>_. Return 0)))) (True, 5)"
  unfolding ignorer_def
  by (rule leads_trans [OF leads_open] leads_trans [OF leads_topics] leads_trans [OF leads_own_topic]
      leads_trans [OF leads_first_readers] leads_trans [OF leads_bystander] leads_trans [OF leads_say]
      leads_trans [OF leads_ignore_writer] leads_trans [OF leads_ignore_reader] leads_trans [OF leads_write]
      leads_trans [OF leads_checks] leads_control)+

lemma ignorer_run: "fst (run ign_env (ignorer 6 [''ignorer'']) No_statics []) = Val 0"
proof -
  have "seen [] = (False, 0)" by (simp add: seen_def ignoring_def data_from_def)
  with ignorer_leads show ?thesis unfolding leads_def by (fastforce simp: evaluate)
qed

theorem ignorer_contract_witness:
  "case run ign_env (ignorer 6 [''ignorer'']) No_statics [] of (x, s', tr) \<Rightarrow>
    slept tr \<le> 148000 \<and> x = Val 0 \<and> ignore_verified [''ignorer''] tr"
  using ignorer_contract [OF ign_env_finite, of 6 "[''ignorer'']" No_statics] ignorer_run
  by (auto simp: split_beta)

end
