(* ===== verification/Coherent_Sets.thy ===== *)
theory Coherent_Sets
  imports Complex_Main Quiet_Kit Example_Publisher
begin

text \<open>
  The integration test \<open>integration-tests/c/coherent-sets\<close>: the publisher writes twenty coherent sets, each a
  position and a velocity on two writers of one group publisher; the subscriber checks that no access
  ever shows one without the other and that the sets arrive in order.
\<close>

definition GROUP_COUNT :: nat where "GROUP_COUNT = 20"
definition WRITE_GAP_MS :: nat where "WRITE_GAP_MS = 8"
definition COH_WAIT_STEP_SEC :: nat where "COH_WAIT_STEP_SEC = 1"
definition COH_OVERALL_DEADLINE_MS :: nat where "COH_OVERALL_DEADLINE_MS = 30000"

text \<open>
  The two topic types as one; the doubles written are small multiples of a half, which a \<open>double\<close> holds
  exactly.
\<close>

datatype Pose = Position (group_id: int) (pos_x: rat) (pos_y: rat) | Velocity (group_id: int) (vel_x: rat) (vel_y: rat)

section \<open>The publisher\<close>

text \<open>A \<open>WriterSyncState\<close> for each writer, with the callbacks of \<open>create_writer_ex\<close>.\<close>

record PoseState =
  position_state :: PubState
  velocity_state :: PubState

definition pose_state :: PoseState where
  "pose_state = \<lparr>position_state = pub_state, velocity_state = pub_state\<rparr>"

datatype pose_event = On_position pub_event | On_velocity pub_event

fun sync_state :: "pub_event \<Rightarrow> PubState \<Rightarrow> PubState" where
  "sync_state (Reader_ready is_ready) state = on_reliable_reader_ready is_ready state"
| "sync_state (Publication_matched current_count) state = on_publication_matched current_count state"

fun pose_listener :: "(pose_event, PoseState) handler" where
  "pose_listener (On_position e) s = Val (s\<lparr>position_state := sync_state e (position_state s)\<rparr>)"
| "pose_listener (On_velocity e) s = Val (s\<lparr>velocity_state := sync_state e (velocity_state s)\<rparr>)"

type_synonym 'a pose_pub = "(PoseState, Pose, pose_event, 'a) app"

definition await_both_ready :: "bool pose_pub" where
  "await_both_ready = poll pose_listener POLL_PERIOD_MS READER_READY_TIMEOUT_MS
     (load_all pose_listener [\<lambda>s. reader_ready (position_state s), \<lambda>s. reader_ready (velocity_state s)])"

definition await_both_drained :: "bool pose_pub" where
  "await_both_drained = poll pose_listener POLL_PERIOD_MS DRAIN_TIMEOUT_MS
     (load_all pose_listener
       [\<lambda>s. ever_matched (position_state s), \<lambda>s. matched_current_count (position_state s) = 0,
        \<lambda>s. ever_matched (velocity_state s), \<lambda>s. matched_current_count (velocity_state s) = 0])"

definition position_of :: "nat \<Rightarrow> Pose" where
  "position_of g = Position (int g) (of_nat g) (of_nat g * 2)"

definition velocity_of :: "nat \<Rightarrow> Pose" where
  "velocity_of g = Velocity (int g) (of_nat g / 2) (of_nat g * 3 / 2)"

text \<open>One coherent set; leaving \<open>main\<close> in between leaves the set open.\<close>

definition write_group :: "int \<Rightarrow> int \<Rightarrow> int \<Rightarrow> nat \<Rightarrow> int option pose_pub" where
  "write_group pub position_dw velocity_dw g = (let h = pose_listener in
     sys h (Group (begin_coherent_changes pub)) (\<lambda>r.
       if ret r \<noteq> DDS_RETCODE_OK then fail_out h (''begin_coherent_changes() failed at group='' @ dec g)
       else sys h (Data (write_data position_dw (position_of g) 0)) (\<lambda>r.
       if ret r \<noteq> 0 then fail_out h (''Position write() failed at group='' @ dec g)
       else sys h (sleep_ms WRITE_GAP_MS) (\<lambda>_.
       sys h (Data (write_data velocity_dw (velocity_of g) 0)) (\<lambda>r.
       if ret r \<noteq> 0 then fail_out h (''Velocity write() failed at group='' @ dec g)
       else sys h (Group (end_coherent_changes pub)) (\<lambda>r.
       if ret r \<noteq> DDS_RETCODE_OK then fail_out h (''end_coherent_changes() failed at group='' @ dec g)
       else say h (''Publisher: wrote group '' @ dec g) (Return None)))))))"

definition write_groups :: "int \<Rightarrow> int \<Rightarrow> int \<Rightarrow> int option pose_pub" where
  "write_groups pub position_dw velocity_dw = for_prog 0 GROUP_COUNT (write_group pub position_dw velocity_dw)"

text \<open>\<open>writer_matched\<close> and the diagnostic line it goes into.\<close>

definition coherent_writer_matched :: "('v, 'e) answer \<Rightarrow> int" where
  "coherent_writer_matched r = (if ret r = DDS_RETCODE_OK then num r else - 1)"

definition report_matched :: "string \<Rightarrow> (PoseState \<Rightarrow> PubState) \<Rightarrow> int \<Rightarrow> 'a pose_pub \<Rightarrow> 'a pose_pub" where
  "report_matched label state dw p = (let h = pose_listener in
     load h (\<lambda>s. matched_current_count (state s)) (\<lambda>count.
     load h (\<lambda>s. ever_matched (state s)) (\<lambda>ever.
     sys h (Query (get_publication_matched_status dw)) (\<lambda>r.
     sys h (eprintf (''  matched: '' @ label @ '' listener='' @ dec_int count @ '' ever='' @ dec_int (of_bool ever)
       @ '' status='' @ dec_int (coherent_writer_matched r))) (\<lambda>_. p)))))"

definition create_writer_ex :: "int \<Rightarrow> int \<Rightarrow> ep_qos \<Rightarrow> string \<Rightarrow> string \<Rightarrow> (int \<Rightarrow> int pose_pub) \<Rightarrow> int pose_pub" where
  "create_writer_ex pub topic qos failed_line created_line k =
     need pose_listener (Entity (create_datawriter_ex pub topic qos)) failed_line (\<lambda>dw. say pose_listener created_line (k dw))"

definition finish_publisher :: "int \<Rightarrow> int \<Rightarrow> int \<Rightarrow> int \<Rightarrow> int pose_pub" where
  "finish_publisher factory pub position_dw velocity_dw = (let h = pose_listener in
     say h ''Publisher: done.'' (
     bind_prog await_both_drained (\<lambda>drained.
       if \<not> drained
       then report_matched ''Position'' position_state position_dw (
            report_matched ''Velocity'' velocity_state velocity_dw (
            fail h ''subscriber did not disconnect within 15s''))
       else check h (Entity (delete_datawriter pub position_dw)) ''delete_datawriter() did not return RETCODE_OK'' (
            check h (Entity (delete_datawriter pub velocity_dw)) ''delete_datawriter() did not return RETCODE_OK'' (
            sys h (Entity (zzdds_destroy_factory factory)) (\<lambda>_. Return 0))))))"

definition coherent_publisher :: "string list \<Rightarrow> int pose_pub" where
  "coherent_publisher argv = (let h = pose_listener in
     open_participant h argv ''Position'' ''register PositionTypeSupport failed'' (\<lambda>factory dp.
     check h (Entity (type_support_register dp ''Velocity'')) ''register VelocityTypeSupport failed'' (
     need h (Entity (create_topic dp ''Position'' ''Position'')) ''create_topic(Position) failed'' (\<lambda>position_topic.
     say h ''Create topic: Position'' (
     need h (Entity (create_topic dp ''Velocity'' ''Velocity'')) ''create_topic(Velocity) failed'' (\<lambda>velocity_topic.
     say h ''Create topic: Velocity'' (
     sys h (Group (get_default_publisher_qos dp)) (\<lambda>pq.
     need h (Group (create_group_publisher dp (num pq))) ''create_publisher() failed'' (\<lambda>pub.
     sys h (Entity (get_default_datawriter_qos pub)) (\<lambda>wq.
     Put pose_state (
     create_writer_ex pub position_topic (reliable_keep_all (num wq)) ''create_datawriter(Position) failed''
       ''Create writer for topic: Position'' (\<lambda>position_dw.
     create_writer_ex pub velocity_topic (reliable_keep_all (num wq)) ''create_datawriter(Velocity) failed''
       ''Create writer for topic: Velocity'' (\<lambda>velocity_dw.
     bind_prog await_both_ready (\<lambda>ready.
       if \<not> ready then fail h ''no reliable reader became ready within 10s''
       else bind_prog (write_groups pub position_dw velocity_dw) (\<lambda>x. leave_or x (
       finish_publisher factory pub position_dw velocity_dw))))))))))))))))"

section \<open>The subscriber\<close>

type_synonym 'a pose_sub = "(no_statics, Pose, unit, 'a) app"

record pose_readers =
  coh_sub :: int
  position_dr :: int
  velocity_dr :: int
  coh_ws :: int
  position_rc :: int
  velocity_rc :: int

text \<open>
  The samples of a \<open>take_n\<close> with valid data are appended to an array of \<open>GROUP_COUNT\<close> numbers, whose filled part is
  \<open>order\<close>. Looking at an element that \<open>take_n\<close> did not fill and storing past the end of the array are
  undefined.
\<close>

definition append_order :: "int list \<Rightarrow> (Pose, unit) answer \<Rightarrow> int list outcome" where
  "append_order order r =
     (if ret r > int (length (got r)) then Crash ''an element that take_n did not fill''
      else let ids = map (\<lambda>x. group_id (fst x)) (filter snd (take (nat (ret r)) (got r))) in
        if length order + length ids > GROUP_COUNT then Crash ''past the end of the order array'' else Val (order @ ids))"

definition take_side :: "int \<Rightarrow> int list \<Rightarrow> (int list \<Rightarrow> int pose_sub) \<Rightarrow> int pose_sub" where
  "take_side dr order k =
     (if length order < GROUP_COUNT
      then sys quiet (Data (take_n dr (GROUP_COUNT - length order))) (\<lambda>r.
        case append_order order r of Val order' \<Rightarrow> k order' | Exit n \<Rightarrow> Leaf (Exit n) | Crash m \<Rightarrow> Leaf (Crash m)
          | OutOfFuel \<Rightarrow> Leaf OutOfFuel)
      else k order)"

text \<open>The checks after an access: equally many, and the same numbers.\<close>

definition check_pairs :: "int list \<Rightarrow> int list \<Rightarrow> int pose_sub \<Rightarrow> int pose_sub" where
  "check_pairs ps vs p =
     (if length ps \<noteq> length vs
      then fail quiet (''atomicity violated -- position and velocity readers diverged after an access bracket (position count=''
        @ dec (length ps) @ '' velocity count='' @ dec (length vs) @ '') -- a group became visible on one reader without its pair'')
      else case List.find (\<lambda>i. ps ! i \<noteq> vs ! i) [0..<length ps] of
        Some i \<Rightarrow> fail quiet (''atomicity violated at index '' @ dec i @ '' -- position group_id='' @ dec_int (ps ! i)
          @ '' but velocity group_id='' @ dec_int (vs ! i))
      | None \<Rightarrow> if length ps > 0
          then say quiet (''Subscriber: group '' @ dec_int (ps ! (length ps - 1)) @ '' paired (position+velocity).'') p
          else p)"

definition access_pass :: "pose_readers \<Rightarrow> int list \<Rightarrow> int list \<Rightarrow> int pose_sub \<Rightarrow> (int list \<Rightarrow> int list \<Rightarrow> int pose_sub) \<Rightarrow> int pose_sub" where
  "access_pass c ps vs timed_out go =
     sys quiet (Wait (waitset_wait (coh_ws c) COH_WAIT_STEP_SEC)) (\<lambda>r.
       if ret r = DDS_RETCODE_TIMEOUT then timed_out
       else if ret r \<noteq> DDS_RETCODE_OK then fail quiet (''WaitSet.wait() returned '' @ dec_int (ret r))
       else sys quiet sequence_free (\<lambda>_.
       check quiet (Group (begin_access (coh_sub c))) ''begin_access() failed'' (
       take_side (position_dr c) ps (\<lambda>ps'.
       take_side (velocity_dr c) vs (\<lambda>vs'.
       check quiet (Group (end_access (coh_sub c))) ''end_access() failed'' (
       check_pairs ps' vs' (go ps' vs')))))))"

text \<open>The \<open>while\<close> loop, with a bound on the number of its iterations.\<close>

fun pair_loop :: "nat \<Rightarrow> pose_readers \<Rightarrow> int list \<Rightarrow> int list \<Rightarrow> nat \<Rightarrow> (int list \<Rightarrow> int list \<Rightarrow> int pose_sub) \<Rightarrow> int pose_sub" where
  "pair_loop fuel c ps vs overall_waited_ms k =
     (if \<not> (length ps < GROUP_COUNT \<or> length vs < GROUP_COUNT) then k ps vs
      else case fuel of 0 \<Rightarrow> Leaf OutOfFuel | Suc fuel \<Rightarrow>
        if overall_waited_ms \<ge> COH_OVERALL_DEADLINE_MS
        then fail quiet (''only received position='' @ dec (length ps) @ '' velocity='' @ dec (length vs) @ ''/20 within 30s'')
        else access_pass c ps vs (pair_loop fuel c ps vs (overall_waited_ms + COH_WAIT_STEP_SEC * 1000) k)
          (\<lambda>ps' vs'. pair_loop fuel c ps' vs' overall_waited_ms k))"

declare pair_loop.simps [simp del]

definition check_order :: "int list \<Rightarrow> int list \<Rightarrow> int pose_sub \<Rightarrow> int pose_sub" where
  "check_order ps vs p = (case List.find (\<lambda>i. ps ! i \<noteq> int i \<or> vs ! i \<noteq> int i) [0..<GROUP_COUNT] of
     Some i \<Rightarrow> fail quiet (''ordered_access violated at index '' @ dec i @ '' -- expected group_id='' @ dec i @ '', got position=''
       @ dec_int (ps ! i) @ '' velocity='' @ dec_int (vs ! i))
   | None \<Rightarrow> p)"

definition create_pose_conditions :: "int \<Rightarrow> int \<Rightarrow> int \<Rightarrow> (pose_readers \<Rightarrow> int pose_sub) \<Rightarrow> int pose_sub" where
  "create_pose_conditions sub pdr vdr k =
     sys quiet (Wait zzdds_create_waitset) (\<lambda>ws.
     sys quiet (Wait (zzdds_waitset_is_nil (ret ws))) (\<lambda>nil.
       if ret nil \<noteq> 0 then fail quiet ''create_waitset() failed''
       else sys quiet (Wait (create_readcondition pdr)) (\<lambda>prc.
       sys quiet (Wait (create_readcondition vdr)) (\<lambda>vrc.
       if ret prc = 0 \<or> ret vrc = 0 then fail quiet ''create_readcondition() failed''
       else check quiet (Wait (attach_condition (ret ws) (ret prc))) ''attach_condition() failed'' (
       check quiet (Wait (attach_condition (ret ws) (ret vrc))) ''attach_condition() failed'' (
       k \<lparr>coh_sub = sub, position_dr = pdr, velocity_dr = vdr, coh_ws = ret ws, position_rc = ret prc, velocity_rc = ret vrc\<rparr>))))))"

definition close_subscriber :: "int \<Rightarrow> pose_readers \<Rightarrow> int pose_sub" where
  "close_subscriber factory c =
     sys quiet (Wait (detach_condition (coh_ws c) (position_rc c))) (\<lambda>_.
     sys quiet (Wait (detach_condition (coh_ws c) (velocity_rc c))) (\<lambda>_.
     sys quiet (Wait (delete_readcondition (position_dr c) (position_rc c))) (\<lambda>_.
     sys quiet (Wait (delete_readcondition (velocity_dr c) (velocity_rc c))) (\<lambda>_.
     sys quiet (Entity (delete_datareader (coh_sub c) (position_dr c))) (\<lambda>_.
     sys quiet (Entity (delete_datareader (coh_sub c) (velocity_dr c))) (\<lambda>_.
     sys quiet (Wait (zzdds_destroy_waitset (coh_ws c))) (\<lambda>_.
     sys quiet (Entity (zzdds_destroy_factory factory)) (\<lambda>_. Return 0))))))))"

definition create_pose_readers :: "int \<Rightarrow> (int \<Rightarrow> int \<Rightarrow> int \<Rightarrow> int pose_sub) \<Rightarrow> int pose_sub" where
  "create_pose_readers dp k =
     check quiet (Entity (type_support_register dp ''Velocity'')) ''register VelocityTypeSupport failed'' (
     need quiet (Entity (create_topic dp ''Position'' ''Position'')) ''create_topic(Position) failed'' (\<lambda>position_topic.
     say quiet ''Create topic: Position'' (
     need quiet (Entity (create_topic dp ''Velocity'' ''Velocity'')) ''create_topic(Velocity) failed'' (\<lambda>velocity_topic.
     say quiet ''Create topic: Velocity'' (
     sys quiet (Group (get_default_subscriber_qos dp)) (\<lambda>sq.
     need quiet (Group (create_group_subscriber dp (num sq))) ''create_subscriber() failed'' (\<lambda>sub.
     sys quiet (Entity (get_default_datareader_qos sub)) (\<lambda>rq.
     need quiet (Entity (create_datareader sub position_topic (reliable_keep_all (num rq)) False)) ''create_datareader(Position) failed'' (\<lambda>pdr.
     say quiet ''Create reader for topic: Position'' (
     need quiet (Entity (create_datareader sub velocity_topic (reliable_keep_all (num rq)) False)) ''create_datareader(Velocity) failed'' (\<lambda>vdr.
     say quiet ''Create reader for topic: Velocity'' (k sub pdr vdr))))))))))))"

definition coherent_subscriber :: "nat \<Rightarrow> string list \<Rightarrow> int pose_sub" where
  "coherent_subscriber fuel argv =
     open_participant quiet argv ''Position'' ''register PositionTypeSupport failed'' (\<lambda>factory dp.
     create_pose_readers dp (\<lambda>sub pdr vdr.
     create_pose_conditions sub pdr vdr (\<lambda>c.
     pair_loop fuel c [] [] 0 (\<lambda>ps vs.
     check_order ps vs (
     say quiet ''Subscriber: received all 20 groups, atomic and ordered.'' (
     close_subscriber factory c))))))"

end
