(* ===== verification/Coherent_Publishing.thy ===== *)
theory Coherent_Publishing
  imports Coherent_Sets
begin

text \<open>
  What the publisher of the coherent-set test guarantees: every position and its velocity are written in one
  coherent set of their own, in order, after both readers were reported ready.
\<close>

section \<open>What its shared variables say\<close>

fun on_position :: "pose_event \<Rightarrow> pub_event option" where
  "on_position (On_position e) = Some e"
| "on_position (On_velocity e) = None"

fun on_velocity :: "pose_event \<Rightarrow> pub_event option" where
  "on_velocity (On_velocity e) = Some e"
| "on_velocity (On_position e) = None"

definition position_events :: "pose_event list \<Rightarrow> pub_event list" where
  "position_events = List.map_filter on_position"

definition velocity_events :: "pose_event list \<Rightarrow> pub_event list" where
  "velocity_events = List.map_filter on_velocity"

lemma pose_events_simps [simp]:
  "position_events [] = []" "position_events (es @ es') = position_events es @ position_events es'"
  "position_events [On_position e] = [e]" "position_events [On_velocity e] = []"
  "velocity_events [] = []" "velocity_events (es @ es') = velocity_events es @ velocity_events es'"
  "velocity_events [On_velocity e] = [e]" "velocity_events [On_position e] = []"
  by (simp_all add: position_events_def velocity_events_def List.map_filter_def)

definition pose_tracks :: "pose_event list \<Rightarrow> PoseState \<Rightarrow> bool" where
  "pose_tracks es s \<longleftrightarrow> pub_tracks (position_events es) (position_state s) \<and> pub_tracks (velocity_events es) (velocity_state s)"

lemma sync_state_listener: "pub_listener e state = Val (sync_state e state)"
  by (cases e) simp_all

interpretation pose: tracked_listener pose_listener pose_state pose_tracks
proof unfold_locales
  show "pose_tracks [] pose_state"
    using pub.tracks_start by (simp add: pose_tracks_def pose_state_def)
next
  fix es s e s'
  assume "pose_tracks es s" and "pose_listener e s = Val s'"
  then show "pose_tracks (es @ [e]) s'"
    using pub.tracks_step [OF _ sync_state_listener] by (cases e) (auto simp: pose_tracks_def)
qed

definition both_ready :: "(Pose, pose_event) atrace \<Rightarrow> bool" where
  "both_ready tr \<longleftrightarrow> Reader_ready True \<in> set (position_events (events tr)) \<and> Reader_ready True \<in> set (velocity_events (events tr))"

definition both_gone :: "(Pose, pose_event) atrace \<Rightarrow> bool" where
  "both_gone tr \<longleftrightarrow> saw_disconnect (position_events (events tr)) \<and> saw_disconnect (velocity_events (events tr))"


lemma in_turn_prefix: "in_turn h i fs es0 es \<Longrightarrow> \<exists>es'. es = es0 @ es'"
proof (induction fs arbitrary: es0)
  case (Cons f fs)
  then show ?case by (metis append_assoc in_turn.simps(2))
qed simp

lemma turn_ready:
  assumes "in_turn pose_listener pose_state [\<lambda>s. reader_ready (position_state s), \<lambda>s. reader_ready (velocity_state s)] [] es"
  shows "Reader_ready True \<in> set (position_events es) \<and> Reader_ready True \<in> set (velocity_events es)"
proof -
  obtain es1 where 1: "Reader_ready True \<in> set (position_events es1)"
    and t: "in_turn pose_listener pose_state [\<lambda>s. reader_ready (velocity_state s)] es1 es"
    using pose.in_turn_tracked [OF assms, of "\<lambda>es. Reader_ready True \<in> set (position_events es)"]
    by (auto simp: pose_tracks_def pub_tracks_def)
  obtain es2 where 2: "Reader_ready True \<in> set (velocity_events (es1 @ es2))" and "\<exists>es'. es = es1 @ es2 @ es'"
    using pose.in_turn_tracked [OF t, of "\<lambda>es. Reader_ready True \<in> set (velocity_events es)"]
    by (auto simp: pose_tracks_def pub_tracks_def)
  with 1 show ?thesis by auto
qed

lemma ever_stable:
  assumes "deliver pose_listener es s = Val s'"
  shows "ever_matched (position_state s) \<Longrightarrow> ever_matched (position_state s')"
    and "ever_matched (velocity_state s) \<Longrightarrow> ever_matched (velocity_state s')"
proof -
  have sync: "ever_matched state \<Longrightarrow> ever_matched (sync_state e state)" for e state
    by (cases e) (auto simp: on_reliable_reader_ready_def on_publication_matched_def Let_def)
  have "(ever_matched (position_state s) \<longrightarrow> ever_matched (position_state s'))
      \<and> (ever_matched (velocity_state s) \<longrightarrow> ever_matched (velocity_state s'))"
    using assms
  proof (induction es arbitrary: s)
    case (Cons e es)
    then show ?case using sync by (cases e) fastforce+
  qed simp
  then show "ever_matched (position_state s) \<Longrightarrow> ever_matched (position_state s')"
    and "ever_matched (velocity_state s) \<Longrightarrow> ever_matched (velocity_state s')" by auto
qed

lemma turn_gone:
  assumes "in_turn pose_listener pose_state
       [\<lambda>s. ever_matched (position_state s), \<lambda>s. matched_current_count (position_state s) = 0,
        \<lambda>s. ever_matched (velocity_state s), \<lambda>s. matched_current_count (velocity_state s) = 0] [] es"
  shows "saw_disconnect (position_events es) \<and> saw_disconnect (velocity_events es)"
proof -
  let ?v = "[\<lambda>s. ever_matched (velocity_state s), \<lambda>s. matched_current_count (velocity_state s) = 0]"
  have "\<exists>es1. saw_disconnect (position_events ([] @ es1)) \<and> in_turn pose_listener pose_state ?v ([] @ es1) es"
    by (rule pose.in_turn_both_tracked [OF assms], erule ever_stable(1), assumption)
       (simp add: pose_tracks_def pub_tracks_def)
  then obtain es1 where 1: "saw_disconnect (position_events es1)" and t: "in_turn pose_listener pose_state ?v es1 es"
    unfolding append_Nil by blast
  have "\<exists>es2. saw_disconnect (velocity_events (es1 @ es2)) \<and> in_turn pose_listener pose_state [] (es1 @ es2) es"
    by (rule pose.in_turn_both_tracked [OF t], erule ever_stable(2), assumption)
       (simp add: pose_tracks_def pub_tracks_def)
  then show ?thesis
    using 1 saw_disconnect_append [of "velocity_events (es1 @ es2)" for es2] by (auto intro: saw_disconnect_append)
qed

section \<open>The phases\<close>

abbreviation pose_stands :: "nat \<Rightarrow> PoseState \<Rightarrow> (Pose, pose_event) atrace \<Rightarrow> bool" where
  "pose_stands \<equiv> stands pose_listener pose_state"

lemma wpt_both_ready:
  assumes "pose_stands k s tr" and "lets_break pose_listener pose_state Q"
    and "\<And>b q s'. idle q \<Longrightarrow> pose_stands (k + 10000) s' (q @ tr) \<Longrightarrow> (b \<Longrightarrow> both_ready (q @ tr)) \<Longrightarrow> wpt G Q (f b) s' (q @ tr)"
  shows "wpt G Q (bind_prog await_both_ready f) s tr"
  unfolding await_both_ready_def
proof (rule wpt_await_sees [OF sees_all assms(1,2)])
  fix b q s'
  assume "idle q" and "pose_stands (k + (READER_READY_TIMEOUT_MS + POLL_PERIOD_MS - 1) div POLL_PERIOD_MS * POLL_PERIOD_MS) s' (q @ tr)"
    and "b \<Longrightarrow> in_turn pose_listener pose_state [\<lambda>s. reader_ready (position_state s), \<lambda>s. reader_ready (velocity_state s)] [] (events (q @ tr))"
  then show "wpt G Q (f b) s' (q @ tr)"
    using turn_ready by (intro assms(3)) (simp_all add: both_ready_def READER_READY_TIMEOUT_MS_def POLL_PERIOD_MS_def del: events_simps)
qed

lemma wpt_both_drained:
  assumes "pose_stands k s tr" and "lets_break pose_listener pose_state Q"
    and "\<And>b q s'. idle q \<Longrightarrow> pose_stands (k + 15000) s' (q @ tr) \<Longrightarrow> (b \<Longrightarrow> both_gone (q @ tr)) \<Longrightarrow> wpt G Q (f b) s' (q @ tr)"
  shows "wpt G Q (bind_prog await_both_drained f) s tr"
  unfolding await_both_drained_def
proof (rule wpt_await_sees [OF sees_all assms(1,2)])
  fix b q s'
  assume "idle q" and "pose_stands (k + (DRAIN_TIMEOUT_MS + POLL_PERIOD_MS - 1) div POLL_PERIOD_MS * POLL_PERIOD_MS) s' (q @ tr)"
    and "b \<Longrightarrow> in_turn pose_listener pose_state
       [\<lambda>s. ever_matched (position_state s), \<lambda>s. matched_current_count (position_state s) = 0,
        \<lambda>s. ever_matched (velocity_state s), \<lambda>s. matched_current_count (velocity_state s) = 0] [] (events (q @ tr))"
  then show "wpt G Q (f b) s' (q @ tr)"
    using turn_gone by (intro assms(3)) (simp_all add: both_gone_def DRAIN_TIMEOUT_MS_def POLL_PERIOD_MS_def del: events_simps)
qed

text \<open>The writes and the brackets around them.\<close>

datatype coherent_op = Begin int | Write int Pose | End int

fun group_op :: "Pose app_call \<Rightarrow> coherent_op option" where
  "group_op (Group (begin_coherent_changes pub)) = Some (Begin pub)"
| "group_op (Group (end_coherent_changes pub)) = Some (End pub)"
| "group_op (Data (write_data dw v h)) = Some (Write dw v)"
| "group_op _ = None"

definition coherent_set :: "int \<Rightarrow> int \<Rightarrow> int \<Rightarrow> nat \<Rightarrow> coherent_op list" where
  "coherent_set pub pdw vdw g = [Begin pub, Write pdw (position_of g), Write vdw (velocity_of g), End pub]"

text \<open>Deletions of writers.\<close>

fun deleted_writer :: "Pose app_call \<Rightarrow> (int \<times> int) option" where
  "deleted_writer (Entity (delete_datawriter pub dw)) = Some (pub, dw)"
| "deleted_writer _ = None"

definition wrote_groups :: "int \<Rightarrow> int \<Rightarrow> int \<Rightarrow> nat \<Rightarrow> (Pose, pose_event) atrace \<Rightarrow> bool" where
  "wrote_groups pub pdw vdw n q \<longleftrightarrow>
     only group_op q = concat (map (coherent_set pub pdw vdw) [0..<n])
     \<and> only printed q = map (\<lambda>g. ''Publisher: wrote group '' @ dec g) [0..<n] \<and> only destroyed q = []
     \<and> only deleted_writer q = [] \<and> creations q = []"

lemma wpt_write_groups:
  assumes "pose_stands k s tr" and "k + 160 \<le> B"
    and "\<And>s' q. pose_stands (k + 160) s' (q @ tr) \<Longrightarrow> wrote_groups pub pdw vdw GROUP_COUNT q
      \<Longrightarrow> wpt G (verdict pose_listener pose_state B P) p s' (q @ tr)"
  shows "wpt G (verdict pose_listener pose_state B P) (bind_prog (write_groups pub pdw vdw) (\<lambda>x. leave_or x p)) s tr"
  unfolding write_groups_def
proof (rule wpt_timed_loop [where k = "\<lambda>n. k + 8 * n" and J = "wrote_groups pub pdw vdw"])
  fix n s' q
  assume n: "n < 0 + GROUP_COUNT" and s': "pose_stands (k + 8 * n) s' (q @ tr)" and q: "wrote_groups pub pdw vdw n q"
  have B: "k + 8 * n \<le> B" "k + 8 * n + WRITE_GAP_MS \<le> B"
    using n assms(2) by (simp_all add: GROUP_COUNT_def WRITE_GAP_MS_def)
  show "wpt G (iteration pose_listener pose_state B P (k + 8 * Suc n) tr (wrote_groups pub pdw vdw (Suc n)))
      (write_group pub pdw vdw n) s' (q @ tr)"
    unfolding write_group_def Let_def
    apply (rule wpt_step [OF s'], simp, simp, rule wpt_ifI, erule wpt_fail_out, rule B)
    apply (erule wpt_step, simp, simp, rule wpt_ifI, erule wpt_fail_out, rule B)
    apply (erule wpt_sleep, simp)
    apply (erule wpt_step, simp, simp, rule wpt_ifI, erule wpt_fail_out, rule B)
    apply (erule wpt_step, simp, simp, rule wpt_ifI, erule wpt_fail_out, rule B)
    apply (erule wpt_step, simp, simp)
    apply (rule wpt_continue)
     apply (simp add: WRITE_GAP_MS_def ac_simps)
    using q apply (simp flip: append_Cons, simp add: wrote_groups_def coherent_set_def)
    done
qed (use assms in \<open>simp_all add: wrote_groups_def GROUP_COUNT_def\<close>)


section \<open>The contract\<close>

text \<open>What was created: a publisher for coherent groups and, under it, one reliable writer per topic.\<close>

definition pose_writers_made :: "int \<Rightarrow> int \<Rightarrow> int \<Rightarrow> (Pose, pose_event) atrace \<Rightarrow> bool" where
  "pose_writers_made pub pdw vdw tr \<longleftrightarrow> (\<exists>f domain dp t1 t2 pq q1 q2. creations tr =
     [(Entity zzdds_create_factory, f), (Entity (create_participant f domain), dp),
      (Entity (create_topic dp ''Position'' ''Position''), t1), (Entity (create_topic dp ''Velocity'' ''Velocity''), t2),
      (Group (create_group_publisher dp pq), pub),
      (Entity (create_datawriter_ex pub t1 q1), pdw), (Entity (create_datawriter_ex pub t2 q2), vdw)]
     \<and> list_all (\<lambda>q. reliable q \<and> keep_all q) [q1, q2])"

definition groups_published :: "(Pose, pose_event) atrace \<Rightarrow> bool" where
  "groups_published tr \<longleftrightarrow> (\<exists>pub pdw vdw.
     only group_op tr = concat (map (coherent_set pub pdw vdw) [0..<20])
     \<and> pose_writers_made pub pdw vdw tr \<and> only deleted_writer tr = [(pub, pdw), (pub, vdw)])
     \<and> before is_write both_ready tr \<and> before (\<lambda>c. deleted_writer c \<noteq> None) both_gone tr
     \<and> only printed tr = [''Create topic: Position'', ''Create topic: Velocity'', ''Create writer for topic: Position'',
          ''Create writer for topic: Velocity''] @ map (\<lambda>g. ''Publisher: wrote group '' @ dec g) [0..<20] @ [''Publisher: done.'']
     \<and> closes tr"

lemma idle_group_op [simp]: "idle_call c \<Longrightarrow> group_op c = None"
  by (cases c rule: group_op.cases) simp_all

lemma idle_deleted_writer [simp]: "idle_call c \<Longrightarrow> deleted_writer c = None"
  by (cases c rule: deleted_writer.cases) simp_all

lemma opened_no_deletion [simp]: "opened argv type_name factory dp tr \<Longrightarrow> only deleted_writer tr = []"
  by (auto simp: opened_def)

lemma before_none:
  assumes "before (\<lambda>c. f c \<noteq> None) P tr" and "only f q = []"
  shows "before (\<lambda>c. f c \<noteq> None) P (q @ tr)"
  using assms(1) by (rule before_other) (use only_member [of _ q f] assms(2) in fastforce)

lemma both_ready_append: "both_ready tr \<Longrightarrow> both_ready (q @ tr)"
  by (simp add: both_ready_def)

lemma both_gone_append: "both_gone tr \<Longrightarrow> both_gone (q @ tr)"
  by (auto simp: both_gone_def intro: saw_disconnect_append)

lemma opened_no_group [simp]: "opened argv type_name factory dp tr \<Longrightarrow> only group_op tr = []"
  by (auto simp: opened_def)

lemma groups_published_trace:
  assumes t: "only group_op tr = []" "only destroyed tr = []" "before is_write both_ready tr"
      "only printed tr = [''Create topic: Position'', ''Create topic: Velocity'', ''Create writer for topic: Position'', ''Create writer for topic: Velocity'']"
      "\<exists>r. (Entity zzdds_create_factory, r) \<in> set tr \<and> ret r = f" "pose_writers_made pub pdw vdw tr" "only deleted_writer tr = []"
    and q: "idle q1" "both_ready (q1 @ tr)" "wrote_groups pub pdw vdw GROUP_COUNT q2" "idle q3"
      "both_gone (q3 @ (printf ''Publisher: done.'', r0) # q2 @ q1 @ tr)"
  shows "groups_published ((Entity (zzdds_destroy_factory f), r3) # (Entity (delete_datawriter pub vdw), r2)
     # (Entity (delete_datawriter pub pdw), r1) # q3 @ (printf ''Publisher: done.'', r0) # q2 @ q1 @ tr)"
proof -
  let ?tr = "(Entity (zzdds_destroy_factory f), r3) # (Entity (delete_datawriter pub vdw), r2)
     # (Entity (delete_datawriter pub pdw), r1) # q3 @ (printf ''Publisher: done.'', r0) # q2 @ q1 @ tr"
  let ?q = "[(Entity (zzdds_destroy_factory f), r3), (Entity (delete_datawriter pub vdw), r2), (Entity (delete_datawriter pub pdw), r1)]"
  have "before is_write both_ready (q1 @ tr)"
    using t(3) idle_not_write [OF q(1)] by (rule before_other)
  then have "before is_write both_ready ((?q @ q3 @ (printf ''Publisher: done.'', r0) # q2) @ q1 @ tr)"
    by (rule before_append) (rule both_ready_append [OF q(2)])
  then have b: "before is_write both_ready ?tr" by simp
  have "before (\<lambda>c. deleted_writer c \<noteq> None) both_gone ((q3 @ (printf ''Publisher: done.'', r0) # q2 @ q1 @ tr) @ [])"
    by (rule before_none) (use t q in \<open>simp_all add: wrote_groups_def\<close>)
  then have g: "before (\<lambda>c. deleted_writer c \<noteq> None) both_gone ?tr"
    using q(5) both_gone_append [OF q(5), of "[(Entity (delete_datawriter pub pdw), r1)]"] by simp
  have c: "closes ?tr" using t q by (auto simp: wrote_groups_def intro!: closesI)
  have o: "only group_op ?tr = concat (map (coherent_set pub pdw vdw) [0..<20])"
    using t q by (simp add: wrote_groups_def GROUP_COUNT_def)
  have p: "only printed ?tr = [''Create topic: Position'', ''Create topic: Velocity'', ''Create writer for topic: Position'',
      ''Create writer for topic: Velocity''] @ map (\<lambda>g. ''Publisher: wrote group '' @ dec g) [0..<20] @ [''Publisher: done.'']"
    using t q by (simp add: wrote_groups_def GROUP_COUNT_def)
  have "pose_writers_made pub pdw vdw ?tr" "only deleted_writer ?tr = [(pub, pdw), (pub, vdw)]"
    using t q by (simp_all add: pose_writers_made_def wrote_groups_def)
  with b g c o p show ?thesis unfolding groups_published_def by blast
qed

lemma pose_total: "\<exists>s'. deliver pose_listener es s = Val s'"
proof (induction es arbitrary: s)
  case (Cons e es)
  then show ?case by (cases e) auto
qed simp

lemma pose_not_broken [simp]: "\<not> broken pose_listener i x tr"
  using pose_total [of "events tr" i] by (cases x) auto

lemma wpt_report_matched:
  assumes "pose_stands k s tr" and "lets_break pose_listener pose_state Q"
    and "\<And>s' tr'. pose_stands k s' tr' \<Longrightarrow> wpt G Q p s' tr'"
  shows "wpt G Q (report_matched label state dw p) s tr"
  unfolding report_matched_def Let_def
  by (rule wpt_load_stands [OF assms(1,2)], erule wpt_load_stands [OF _ assms(2)], (erule wpt_step [OF _ _ assms(2)], simp)+, erule assms(3))

lemma coherent_publisher_wpt:
  "wpt (listening installs_writer_listener) (verdict pose_listener pose_state 25160 (\<lambda>_. groups_published)) (coherent_publisher argv) s []"
  unfolding coherent_publisher_def Let_def create_writer_ex_def
  apply (rule wpt_open_participant [OF heeds_writer setup_not_writer], assumption)
  apply (rule early_writer, assumption, simp)+
  apply (rule wpt_PutI, rule wpt_need, erule early_stands, simp)
  apply (erule wpt_step, simp, simp)
  apply (erule wpt_need, simp, erule wpt_step, simp, simp)
  apply (erule wpt_both_ready, simp, rule wpt_ifI, erule wpt_fail, simp)
  apply (erule wpt_write_groups, simp)
  unfolding finish_publisher_def Let_def
  apply (erule wpt_step, simp, simp)
  apply (erule wpt_both_drained, simp, rule wpt_ifI)
   apply (erule wpt_report_matched, simp, erule wpt_report_matched, simp, erule wpt_fail, simp)
  apply (erule wpt_check, simp, erule wpt_check, simp)
  apply (erule wpt_step, simp, simp)
  apply (simp add: verdict_def stands_def)
  apply (rule groups_published_trace)
  apply (simp_all add: opened_no_write opened_factory pose_writers_made_def reliable_keep_all_def)
  done

text \<open>C21. The publisher of the coherent-set test against an arbitrary middleware that calls no listener before it is
  installed: it sleeps 25.16 seconds at most, and it ends with 1 right after a \<open>FAIL:\<close> line, or with 0. With 0
  it had created one group publisher with one reliable writer on each of the two topics; its writes and brackets were exactly
  twenty coherent sets, each opened, holding position \<open>g\<close> on the first writer and velocity \<open>g\<close> on the second, in this order
  and no other sample, and closed; none of them was written before both writers had a ready reader; the two writers were deleted,
  each once and nothing else, and neither before both readers had been seen to come and go; the documented lines were
  printed and the factory was destroyed last.\<close>

theorem coherent_publisher_contract:
  assumes "\<And>tr c. listening installs_writer_listener tr c (env tr c)"
  shows "case run env (coherent_publisher argv) s [] of (x, s', tr) \<Rightarrow>
    slept tr \<le> 25160 \<and> (x = Val 1 \<and> failed tr \<or> x = Val 0 \<and> groups_published tr)"
  using wpt_run_result [where e = env, OF coherent_publisher_wpt assms, of argv s]
  by (simp add: verdict_def split_beta) blast

definition reader_comes_and_goes :: "pub_event list" where
  "reader_comes_and_goes = [Publication_matched 1, Reader_ready True, Publication_matched 0]"

text \<open>Every call succeeds; both readers come, get ready and go again while the second writer is created.\<close>

fun pose_env :: "(Pose app_call, (Pose, pose_event) answer) env" where
  "pose_env tr (Entity (create_datawriter_ex p t q)) =
     answers 7 (map On_position reader_comes_and_goes @ map On_velocity reader_comes_and_goes)"
| "pose_env tr (Entity (create_topic dp name type)) = answers 1 []"
| "pose_env tr (Entity (create_participant f d)) = answers 1 []"
| "pose_env tr (Group (create_group_publisher dp q)) = answers 1 []"
| "pose_env tr c = answers 0 []"

lemma pose_env_listens: "listening installs_writer_listener tr c (pose_env tr c)"
  by (cases "(tr, c)" rule: pose_env.cases) (auto simp: listening_def answers_def)

lemma coherent_publisher_run: "fst (run pose_env (coherent_publisher [''p'']) pose_state []) = Val 0"
  by (simp add: evaluate coherent_publisher_def create_writer_ex_def await_both_ready_def await_both_drained_def write_groups_def
     write_group_def finish_publisher_def GROUP_COUNT_def WRITE_GAP_MS_def
     POLL_PERIOD_MS_def READER_READY_TIMEOUT_MS_def DRAIN_TIMEOUT_MS_def pose_state_def pub_state_def reader_comes_and_goes_def
     on_publication_matched_def on_reliable_reader_ready_def)

theorem coherent_publisher_contract_witness:
  "case run pose_env (coherent_publisher [''p'']) pose_state [] of (x, s', tr) \<Rightarrow>
    slept tr \<le> 25160 \<and> x = Val 0 \<and> groups_published tr"
  using coherent_publisher_contract [OF pose_env_listens, of "[''p'']" pose_state] coherent_publisher_run
  by (auto simp: split_beta)

end
