(* ===== verification/Coherent_Receiving.thy ===== *)
theory Coherent_Receiving
  imports Coherent_Sets
begin

text \<open>
  What the subscriber of the coherent-set test has established when it succeeds, when it is sure to come to an
  end, and a middleware against which its deadline never strikes.
\<close>

section \<open>Measures\<close>

text \<open>The numbers of the valid samples taken from a reader, oldest first.\<close>

definition ids_in :: "(Pose, unit) answer \<Rightarrow> int list" where
  "ids_in r = map (\<lambda>x. group_id (fst x)) (filter snd (take (nat (ret r)) (got r)))"

definition ids_from :: "int \<Rightarrow> (Pose, unit) atrace \<Rightarrow> int list" where
  "ids_from dr tr = concat (map (\<lambda>x. if takes_from dr (fst x) then ids_in (snd x) else []) (rev tr))"

lemma ids_from_simps [simp]:
  "ids_from dr [] = []"
  "ids_from dr ((c, r) # tr) = ids_from dr tr @ (if takes_from dr c then ids_in r else [])"
  by (simp_all add: ids_from_def)

text \<open>Inside an access: the last bracket was \<open>begin_access\<close>.\<close>

fun in_access :: "int \<Rightarrow> (Pose, unit) atrace \<Rightarrow> bool" where
  "in_access sub [] = False"
| "in_access sub ((Group (begin_access s), r) # tr) = (s = sub)"
| "in_access sub ((Group (end_access s), r) # tr) = False"
| "in_access sub (x # tr) = in_access sub tr"

fun is_take :: "Pose app_call \<Rightarrow> bool" where
  "is_take (Data (take_n dr n)) = True"
| "is_take _ = False"

fun ends_access :: "Pose app_call \<Rightarrow> bool" where
  "ends_access (Group (end_access s)) = True"
| "ends_access _ = False"

text \<open>Every take happened inside an access, and at the end of each both readers had shown the same groups.\<close>

definition atomic_accesses :: "int \<Rightarrow> int \<Rightarrow> int \<Rightarrow> (Pose, unit) atrace \<Rightarrow> bool" where
  "atomic_accesses sub pdr vdr tr \<longleftrightarrow>
     before is_take (in_access sub) tr \<and> before ends_access (\<lambda>tr. ids_from pdr tr = ids_from vdr tr) tr"

definition paired_line :: "string \<Rightarrow> bool" where
  "paired_line line \<longleftrightarrow> (\<exists>g. line = ''Subscriber: group '' @ dec_int g @ '' paired (position+velocity).'')"

definition reader_lines :: "string list" where
  "reader_lines = [''Create topic: Position'', ''Create topic: Velocity'', ''Create reader for topic: Position'', ''Create reader for topic: Velocity'']"

definition groups_received :: "(Pose, unit) atrace \<Rightarrow> bool" where
  "groups_received tr \<longleftrightarrow> (\<exists>factory (c :: pose_readers) lines r.
     ids_from (position_dr c) tr = map int [0..<20] \<and> ids_from (velocity_dr c) tr = map int [0..<20]
     \<and> atomic_accesses (coh_sub c) (position_dr c) (velocity_dr c) tr
     \<and> only printed tr = reader_lines @ lines @ [''Subscriber: received all 20 groups, atomic and ordered.'']
     \<and> list_all paired_line lines
     \<and> map fst (take 8 tr) = rev [Wait (detach_condition (coh_ws c) (position_rc c)), Wait (detach_condition (coh_ws c) (velocity_rc c)),
         Wait (delete_readcondition (position_dr c) (position_rc c)), Wait (delete_readcondition (velocity_dr c) (velocity_rc c)),
         Entity (delete_datareader (coh_sub c) (position_dr c)), Entity (delete_datareader (coh_sub c) (velocity_dr c)),
         Wait (zzdds_destroy_waitset (coh_ws c)), Entity (zzdds_destroy_factory factory)]
     \<and> (Entity zzdds_create_factory, r) \<in> set tr \<and> ret r = factory \<and> only destroyed tr = [factory])"

definition coh_post :: "int outcome \<Rightarrow> no_statics \<Rightarrow> (Pose, unit) atrace \<Rightarrow> bool" where
  "coh_post x s tr \<longleftrightarrow> timeouts tr \<le> 30 \<and> (x = Val 1 \<and> failed tr \<or> x = Val 0 \<and> groups_received tr)"

section \<open>The middleware\<close>

text \<open>
  A batch take returns how many elements of the array it filled, no more than it was asked for; a new reader is a new
  handle; and there are at most \<open>k\<close> wake-ups.
\<close>

fun creates_reader :: "Pose app_call \<Rightarrow> bool" where
  "creates_reader (Entity (create_datareader s t q l)) = True"
| "creates_reader _ = False"

definition pose_api :: "(Pose, unit) atrace \<Rightarrow> Pose app_call \<Rightarrow> (Pose, unit) answer \<Rightarrow> bool" where
  "pose_api tr c r \<longleftrightarrow>
     (\<forall>dr n. c = Data (take_n dr n) \<longrightarrow> ret r \<le> int n \<and> ret r \<le> int (length (got r)))
     \<and> (creates_reader c \<longrightarrow> (\<forall>x\<in>set tr. creates_reader (fst x) \<longrightarrow> ret (snd x) \<noteq> ret r))"

definition pose_middleware :: "nat \<Rightarrow> (Pose, unit) atrace \<Rightarrow> Pose app_call \<Rightarrow> (Pose, unit) answer \<Rightarrow> bool" where
  "pose_middleware k tr c r \<longleftrightarrow> pose_api tr c r \<and> (is_wait c \<and> ret r = DDS_RETCODE_OK \<longrightarrow> wakeups tr < k)"

section \<open>Rules\<close>

lemma coh_fail: "timeouts tr \<le> 30 \<Longrightarrow> wpt G coh_post (fail quiet line) s tr"
  unfolding fail_def by (rule wpt_quiet) (simp add: coh_post_def)

lemma coh_need:
  assumes "timeouts tr \<le> 30" and "\<not> is_wait c"
    and "\<And>r. G tr c r \<Longrightarrow> ret r \<noteq> 0 \<Longrightarrow> wpt G coh_post (k (ret r)) s ((c, r) # tr)"
  shows "wpt G coh_post (need quiet c line k) s tr"
  unfolding need_def using assms by (intro wpt_quiet wpt_ifI coh_fail) simp_all

lemma coh_check:
  assumes "timeouts tr \<le> 30" and "\<not> is_wait c"
    and "\<And>r. G tr c r \<Longrightarrow> ret r = DDS_RETCODE_OK \<Longrightarrow> wpt G coh_post p s ((c, r) # tr)"
  shows "wpt G coh_post (check quiet c line p) s tr"
  unfolding check_def using assms by (intro wpt_quiet wpt_ifI coh_fail) simp_all

text \<open>The invariant of the loop.\<close>

definition reading :: "int \<Rightarrow> pose_readers \<Rightarrow> (Pose, unit) atrace \<Rightarrow> bool" where
  "reading factory c tr \<longleftrightarrow>
     position_dr c \<noteq> velocity_dr c \<and> timeouts tr \<le> 30
     \<and> length (ids_from (position_dr c) tr) \<le> 20 \<and> length (ids_from (velocity_dr c) tr) \<le> 20
     \<and> atomic_accesses (coh_sub c) (position_dr c) (velocity_dr c) tr
     \<and> (\<exists>lines. only printed tr = reader_lines @ lines \<and> list_all paired_line lines)
     \<and> only destroyed tr = [] \<and> (\<exists>r. (Entity zzdds_create_factory, r) \<in> set tr \<and> ret r = factory)"

lemma coh_take_side:
  assumes "order = ids_from dr tr" and "length order \<le> 20"
    and k: "\<And>tr'. tr' = tr \<or> (\<exists>n r. tr' = (Data (take_n dr n), r) # tr) \<Longrightarrow> length (ids_from dr tr') \<le> 20
      \<Longrightarrow> wpt (pose_middleware m) coh_post (k (ids_from dr tr')) s tr'"
  shows "wpt (pose_middleware m) coh_post (take_side dr order k) s tr"
  unfolding take_side_def
proof (intro wpt_ifI wpt_quiet)
  fix r
  assume r: "pose_middleware m tr (Data (take_n dr (GROUP_COUNT - length order))) r" and l: "length order < GROUP_COUNT"
  let ?tr = "(Data (take_n dr (GROUP_COUNT - length order)), r) # tr"
  have "length (ids_in r) \<le> nat (ret r)"
    using length_filter_le [of snd "take (nat (ret r)) (got r)"] by (simp add: ids_in_def)
  with r l have le: "length order + length (ids_in r) \<le> GROUP_COUNT"
    unfolding pose_middleware_def pose_api_def by auto
  then have "append_order order r = Val (ids_from dr ?tr)"
    using r assms(1) unfolding append_order_def pose_middleware_def pose_api_def by (simp add: ids_in_def Let_def)
  moreover have "length (ids_from dr ?tr) \<le> 20"
    using le assms(1) by (simp add: GROUP_COUNT_def)
  ultimately show "wpt (pose_middleware m) coh_post (case append_order order r of Val order' \<Rightarrow> k order' | Exit n \<Rightarrow> Leaf (Exit n)
      | Crash m \<Rightarrow> Leaf (Crash m) | OutOfFuel \<Rightarrow> Leaf OutOfFuel) s ?tr"
    using k [of ?tr] by auto
qed (use assms in auto)


lemma find_index_None: "List.find P [0..<n] = None \<longleftrightarrow> (\<forall>i<n. \<not> P i)"
  by (auto simp: find_None_iff)

lemma coh_check_pairs:
  assumes "timeouts tr \<le> 30"
    and k: "\<And>tr'. ps = vs \<Longrightarrow> tr' = tr \<or> (\<exists>line r. paired_line line \<and> tr' = (printf line, r) # tr) \<Longrightarrow> wpt G coh_post p s tr'"
  shows "wpt G coh_post (check_pairs ps vs p) s tr"
proof -
  have eq: "ps = vs" if "\<not> length ps \<noteq> length vs" "List.find (\<lambda>i. ps ! i \<noteq> vs ! i) [0..<length ps] = None"
    using that by (auto simp: find_index_None intro: nth_equalityI)
  have say: "paired_line (''Subscriber: group '' @ dec_int g @ '' paired (position+velocity).'')" for g
    by (auto simp: paired_line_def)
  show ?thesis
    unfolding check_pairs_def
    by (rule wpt_ifI, rule coh_fail [OF assms(1)], rule wpt_case_optionI, rule wpt_ifI, rule wpt_quiet)
       (use eq say k coh_fail [OF assms(1)] in \<open>blast+\<close>)
qed

lemma atomic_simps [simp]:
  "atomic_accesses sub p v ((c, r) # tr) \<longleftrightarrow> atomic_accesses sub p v tr \<and> (is_take c \<longrightarrow> in_access sub tr)
     \<and> (ends_access c \<longrightarrow> ids_from p tr = ids_from v tr)"
  by (auto simp: atomic_accesses_def)

lemma coh_pass:
  assumes tr: "reading factory c tr" "timeouts tr < 30" and ids: "ps = ids_from (position_dr c) tr" "vs = ids_from (velocity_dr c) tr"
    and timeout: "\<And>r. ret r = DDS_RETCODE_TIMEOUT \<Longrightarrow> wpt (pose_middleware m) coh_post timed_out s ((Wait (waitset_wait (coh_ws c) COH_WAIT_STEP_SEC), r) # tr)"
    and go: "\<And>tr' ids. reading factory c tr' \<Longrightarrow> ids_from (position_dr c) tr' = ids \<Longrightarrow> ids_from (velocity_dr c) tr' = ids
      \<Longrightarrow> timeouts tr' = timeouts tr \<Longrightarrow> wakeups tr' = Suc (wakeups tr) \<Longrightarrow> wakeups tr < m
      \<Longrightarrow> wpt (pose_middleware m) coh_post (go ids ids) s tr'"
  shows "wpt (pose_middleware m) coh_post (access_pass c ps vs timed_out go) s tr"
  unfolding access_pass_def
proof (intro wpt_quiet wpt_ifI)
  fix r r1
  let ?wait = "Wait (waitset_wait (coh_ws c) COH_WAIT_STEP_SEC)"
  let ?tr0 = "(sequence_free, r1) # (?wait, r) # tr"
  assume r: "pose_middleware m tr ?wait r" "ret r \<noteq> DDS_RETCODE_TIMEOUT" "\<not> ret r \<noteq> DDS_RETCODE_OK"
  show "wpt (pose_middleware m) coh_post (check quiet (Group (begin_access (coh_sub c))) ''begin_access() failed'' (
       take_side (position_dr c) ps (\<lambda>ps'.
       take_side (velocity_dr c) vs (\<lambda>vs'.
       check quiet (Group (end_access (coh_sub c))) ''end_access() failed'' (
       check_pairs ps' vs' (go ps' vs')))))) s ?tr0"
  proof (rule coh_check)
    fix r2
    let ?tr1 = "(Group (begin_access (coh_sub c)), r2) # ?tr0"
    have tr1: "reading factory c ?tr1" "in_access (coh_sub c) ?tr1" "timeouts ?tr1 = timeouts tr" "wakeups ?tr1 = Suc (wakeups tr)"
      "ps = ids_from (position_dr c) ?tr1" "vs = ids_from (velocity_dr c) ?tr1" "wakeups tr < m"
      using tr r ids by (auto simp: reading_def pose_middleware_def DDS_RETCODE_TIMEOUT_def)
    show "wpt (pose_middleware m) coh_post (take_side (position_dr c) ps (\<lambda>ps'. take_side (velocity_dr c) vs (\<lambda>vs'.
        check quiet (Group (end_access (coh_sub c))) ''end_access() failed'' (check_pairs ps' vs' (go ps' vs'))))) s ?tr1"
    proof (rule coh_take_side [OF tr1(5)])
      show "length ps \<le> 20" using tr1 by (simp add: reading_def)
      fix tr2
      assume "tr2 = ?tr1 \<or> (\<exists>n r. tr2 = (Data (take_n (position_dr c) n), r) # ?tr1)" "length (ids_from (position_dr c) tr2) \<le> 20"
      then have tr2: "reading factory c tr2" "in_access (coh_sub c) tr2" "timeouts tr2 = timeouts tr" "wakeups tr2 = Suc (wakeups tr)"
        "vs = ids_from (velocity_dr c) tr2"
        using tr1 by (auto simp: reading_def)
      show "wpt (pose_middleware m) coh_post (take_side (velocity_dr c) vs (\<lambda>vs'. check quiet (Group (end_access (coh_sub c)))
          ''end_access() failed'' (check_pairs (ids_from (position_dr c) tr2) vs' (go (ids_from (position_dr c) tr2) vs')))) s tr2"
      proof (rule coh_take_side [OF tr2(5)])
        show "length vs \<le> 20" using tr2 by (simp add: reading_def)
        fix tr3
        assume "tr3 = tr2 \<or> (\<exists>n r. tr3 = (Data (take_n (velocity_dr c) n), r) # tr2)" "length (ids_from (velocity_dr c) tr3) \<le> 20"
        then have tr3: "reading factory c tr3" "timeouts tr3 = timeouts tr" "wakeups tr3 = Suc (wakeups tr)"
          "ids_from (position_dr c) tr3 = ids_from (position_dr c) tr2"
          using tr2 by (auto simp: reading_def)
        show "wpt (pose_middleware m) coh_post (check quiet (Group (end_access (coh_sub c))) ''end_access() failed''
            (check_pairs (ids_from (position_dr c) tr2) (ids_from (velocity_dr c) tr3)
              (go (ids_from (position_dr c) tr2) (ids_from (velocity_dr c) tr3)))) s tr3"
        proof (intro coh_check coh_check_pairs)
          fix r4 tr4
          assume "ids_from (position_dr c) tr2 = ids_from (velocity_dr c) tr3"
            and "tr4 = (Group (end_access (coh_sub c)), r4) # tr3
              \<or> (\<exists>line r. paired_line line \<and> tr4 = (printf line, r) # (Group (end_access (coh_sub c)), r4) # tr3)"
          then show "wpt (pose_middleware m) coh_post (go (ids_from (position_dr c) tr2) (ids_from (velocity_dr c) tr3)) s tr4"
            using tr3 tr1(7) by (auto simp: reading_def intro!: go)
        qed (use tr3 tr(2) in simp_all)
      qed
    qed
  qed (use tr r in \<open>simp_all add: DDS_RETCODE_TIMEOUT_def\<close>)
qed (use timeout tr in \<open>auto simp: DDS_RETCODE_TIMEOUT_def DDS_RETCODE_OK_def intro!: coh_fail\<close>)


lemma coh_pair_loop:
  assumes "reading factory c tr" and "ids_from (position_dr c) tr = ids" and "ids_from (velocity_dr c) tr = ids"
    and "waited = 1000 * timeouts tr" and "30 - timeouts tr + (m - wakeups tr) < fuel"
    and k: "\<And>tr' ids. reading factory c tr' \<Longrightarrow> ids_from (position_dr c) tr' = ids \<Longrightarrow> ids_from (velocity_dr c) tr' = ids
      \<Longrightarrow> length ids = 20 \<Longrightarrow> wpt (pose_middleware m) coh_post (k ids ids) s tr'"
  shows "wpt (pose_middleware m) coh_post (pair_loop fuel c ids ids waited k) s tr"
  using assms(1-5)
proof (induction fuel arbitrary: tr ids waited)
  case (Suc fuel)
  show ?case
  proof (cases "length ids < 20")
    case True
    show ?thesis
    proof (cases "timeouts tr = 30")
      case False
      then have lt: "timeouts tr < 30" using Suc.prems(1) by (simp add: reading_def)
      have "wpt (pose_middleware m) coh_post (access_pass c ids ids (pair_loop fuel c ids ids (waited + COH_WAIT_STEP_SEC * 1000) k)
          (\<lambda>ps' vs'. pair_loop fuel c ps' vs' waited k)) s tr"
      proof (rule coh_pass [OF Suc.prems(1) lt])
        fix r :: "(Pose, unit) answer"
        assume "ret r = DDS_RETCODE_TIMEOUT"
        then show "wpt (pose_middleware m) coh_post (pair_loop fuel c ids ids (waited + COH_WAIT_STEP_SEC * 1000) k) s
            ((Wait (waitset_wait (coh_ws c) COH_WAIT_STEP_SEC), r) # tr)"
          using Suc.prems lt by (intro Suc.IH) (auto simp: reading_def COH_WAIT_STEP_SEC_def DDS_RETCODE_TIMEOUT_def DDS_RETCODE_OK_def)
      next
        fix tr' ids'
        assume "reading factory c tr'" "ids_from (position_dr c) tr' = ids'" "ids_from (velocity_dr c) tr' = ids'"
          "timeouts tr' = timeouts tr" "wakeups tr' = Suc (wakeups tr)" "wakeups tr < m"
        then show "wpt (pose_middleware m) coh_post (pair_loop fuel c ids' ids' waited k) s tr'"
          using Suc.prems by (intro Suc.IH) auto
      qed (use Suc.prems in simp_all)
      then show ?thesis
        using True False Suc.prems(1,4) lt by (simp add: pair_loop.simps [of "Suc fuel"] GROUP_COUNT_def COH_OVERALL_DEADLINE_MS_def)
    qed (use True Suc.prems in \<open>simp add: pair_loop.simps [of "Suc fuel"] GROUP_COUNT_def COH_OVERALL_DEADLINE_MS_def coh_fail reading_def\<close>)
  next
    case False
    then have "length ids = 20" using Suc.prems(1,2) by (simp add: reading_def)
    then show ?thesis using k Suc.prems by (simp add: pair_loop.simps [of "Suc fuel"] GROUP_COUNT_def)
  qed
qed simp

lemma coh_finish:
  assumes "reading factory c tr" and "ids_from (position_dr c) tr = ids" and "ids_from (velocity_dr c) tr = ids" and "length ids = 20"
  shows "wpt G coh_post (check_order ids ids (say quiet ''Subscriber: received all 20 groups, atomic and ordered.'' (
     close_subscriber factory c))) s tr"
proof -
  have ids: "ids = map int [0..<20]" if "List.find (\<lambda>i. ids ! i \<noteq> int i \<or> ids ! i \<noteq> int i) [0..<GROUP_COUNT] = None"
    using that assms(4) by (auto simp: find_index_None GROUP_COUNT_def intro!: nth_equalityI)
  show ?thesis
    unfolding check_order_def close_subscriber_def
    by (intro wpt_case_optionI wpt_quiet coh_fail)
       (use assms(1-3) ids in \<open>auto simp: reading_def coh_post_def groups_received_def\<close>)
qed


lemma coherent_subscriber_wpt:
  assumes "m + 30 < fuel"
  shows "wpt (pose_middleware m) coh_post (coherent_subscriber fuel argv) s []"
  unfolding coherent_subscriber_def open_participant_def Let_def create_pose_readers_def create_pose_conditions_def
  apply (intro wpt_quiet wpt_ifI coh_fail coh_need coh_check)
                      apply (simp; fail)+
  subgoal premises prems for f n dp r1 r2 p r3 v r4 sq sub rq pdr r5 vdr r6 ws nil prc vrc r7 r8
  proof -
    have "ret pdr \<noteq> ret vdr"
      using prems unfolding pose_middleware_def pose_api_def by auto
    then show ?thesis
      by (intro coh_pair_loop [where factory = "ret f"] coh_finish)
         (use assms in \<open>auto simp: reading_def atomic_accesses_def reader_lines_def\<close>)
  qed
  done


text \<open>C22. The subscriber of the coherent-set test, against any middleware whose batch takes fill what they return, whose
  readers have handles of their own and which wakes the wait set up at most \<open>m\<close> times: it never reads an
  element that was not filled and never writes past its arrays; it comes to an end after at most thirty waits that timed
  out; it ends with 1 right after a \<open>FAIL:\<close> line, or with 0. With 0 both readers gave exactly the groups 0 to 19 in
  this order, every take happened inside an access, at the end of each access both readers had shown the same
  groups, and the conditions, readers, wait set and factory were taken down in this order.\<close>

theorem coherent_subscriber_contract:
  assumes "\<And>tr c. pose_middleware m tr c (env tr c)" and "m + 30 < fuel"
  shows "case run env (coherent_subscriber fuel argv) s [] of (x, s', tr) \<Rightarrow>
    timeouts tr \<le> 30 \<and> (x = Val 1 \<and> failed tr \<or> x = Val 0 \<and> groups_received tr)"
  using wpt_run_result [where e = env, OF coherent_subscriber_wpt [OF assms(2)] assms(1), of argv s]
  by (simp add: coh_post_def split_beta)

section \<open>Evaluation\<close>

definition fresh_handle :: "(Pose, unit) atrace \<Rightarrow> int" where
  "fresh_handle tr = foldr (\<lambda>x m. max m (ret (snd x))) tr 10 + 1"

lemma fresh_handle_new: "x \<in> set tr \<Longrightarrow> ret (snd x) < fresh_handle tr"
  unfolding fresh_handle_def by (induction tr) auto

text \<open>Ten groups become visible at a time; the first wait times out.\<close>

fun pose_feed :: "(Pose, unit) atrace \<Rightarrow> Pose app_call \<Rightarrow> (Pose, unit) answer" where
  "pose_feed tr (Entity (create_datareader s t q l)) = answers (fresh_handle tr) []"
| "pose_feed tr (Data (take_n dr n)) = (let m = min n 10; j = length (ids_from dr tr) in
     (answers (int m) [])\<lparr>got := map (\<lambda>g. (if dr = 11 then position_of g else velocity_of g, True)) [j..<j + m]\<rparr>)"
| "pose_feed tr (Wait (waitset_wait ws t)) = (if wakeups tr < 2 \<and> 0 < timeouts tr then answers 0 [] else answers 10 [])"
| "pose_feed tr (Wait (create_readcondition dr)) = answers 5 []"
| "pose_feed tr (Entity (create_topic dp name type)) = answers 1 []"
| "pose_feed tr (Entity (create_participant f d)) = answers 1 []"
| "pose_feed tr (Group (create_group_subscriber dp q)) = answers 1 []"
| "pose_feed tr c = answers 0 []"

lemma pose_feed_api: "pose_middleware 2 tr c (pose_feed tr c)"
  by (cases "(tr, c)" rule: pose_feed.cases)
     (auto simp: pose_middleware_def pose_api_def answers_def Let_def DDS_RETCODE_OK_def dest!: fresh_handle_new)

lemma run_pair_loop:
  "run e (pair_loop (numeral n) c ps vs waited k) s tr =
     (if \<not> (length ps < 20 \<or> length vs < 20) then run e (k ps vs) s tr
      else if waited \<ge> 30000
      then run e (fail quiet (''only received position='' @ dec (length ps) @ '' velocity='' @ dec (length vs) @ ''/20 within 30s'')) s tr
      else run e (access_pass c ps vs (pair_loop (pred_numeral n) c ps vs (waited + COH_WAIT_STEP_SEC * 1000) k)
          (\<lambda>ps' vs'. pair_loop (pred_numeral n) c ps' vs' waited k)) s tr)"
  by (subst pair_loop.simps) (simp add: Let_def GROUP_COUNT_def COH_OVERALL_DEADLINE_MS_def)

lemma coherent_subscriber_run: "fst (run pose_feed (coherent_subscriber 33 [''s'']) No_statics []) = Val 0"
  by (simp add: evaluate coherent_subscriber_def create_pose_readers_def create_pose_conditions_def close_subscriber_def
     run_pair_loop access_pass_def take_side_def append_order_def check_pairs_def check_order_def
     GROUP_COUNT_def COH_WAIT_STEP_SEC_def DDS_RETCODE_TIMEOUT_def fresh_handle_def ids_in_def position_of_def velocity_of_def
     upt_conv_Cons)

theorem coherent_subscriber_contract_witness:
  "case run pose_feed (coherent_subscriber 33 [''s'']) No_statics [] of (x, s', tr) \<Rightarrow>
    timeouts tr \<le> 30 \<and> x = Val 0 \<and> groups_received tr"
  using coherent_subscriber_contract [OF pose_feed_api, of 33 "[''s'']" No_statics] coherent_subscriber_run
  by (auto simp: split_beta)

section \<open>A deadline that never strikes\<close>

text \<open>A wait set that is always triggered although there is nothing to take.\<close>

fun spinning :: "(Pose, unit) atrace \<Rightarrow> Pose app_call \<Rightarrow> (Pose, unit) answer" where
  "spinning tr (Entity (create_datareader s t q l)) = answers (fresh_handle tr) []"
| "spinning tr (Wait (create_readcondition dr)) = answers 5 []"
| "spinning tr (Entity (create_topic dp name type)) = answers 1 []"
| "spinning tr (Entity (create_participant f d)) = answers 1 []"
| "spinning tr (Group (create_group_subscriber dp q)) = answers 1 []"
| "spinning tr c = answers 0 []"

lemma spinning_api: "pose_api tr c (spinning tr c)"
  by (cases "(tr, c)" rule: spinning.cases) (auto simp: pose_api_def answers_def dest!: fresh_handle_new)

lemma spinning_pass: "\<exists>tr'. run spinning (access_pass c [] [] p go) s tr = run spinning (go [] []) s tr'"
  by (simp add: access_pass_def take_side_def append_order_def check_pairs_def evaluate DDS_RETCODE_TIMEOUT_def GROUP_COUNT_def)
     (rule exI, rule refl)

lemma spinning_loop: "fst (run spinning (pair_loop fuel c [] [] 0 k) s tr) = OutOfFuel"
proof (induction fuel arbitrary: tr)
  case 0
  show ?case by (subst pair_loop.simps) (simp add: GROUP_COUNT_def)
next
  case (Suc fuel)
  then show ?case
    using spinning_pass [of c "pair_loop fuel c [] [] (COH_WAIT_STEP_SEC * 1000) k" "\<lambda>ps vs. pair_loop fuel c ps vs 0 k" s tr]
    by (subst pair_loop.simps) (auto simp: GROUP_COUNT_def COH_OVERALL_DEADLINE_MS_def)
qed

text \<open>C25. The overall deadline of the coherent-set subscriber counts only waits that time out. Against a middleware that keeps
  the rules of its interface but whose wait set stays triggered without data the loop runs for ever: however many iterations are
  allowed, it does not come to an end.\<close>

theorem coherent_subscriber_spins:
  "(\<forall>tr c. pose_api tr c (spinning tr c)) \<and>
   (\<forall>fuel s. fst (run spinning (coherent_subscriber fuel [''s'']) s []) = OutOfFuel)"
proof (intro conjI allI)
  show "pose_api tr c (spinning tr c)" for tr c by (rule spinning_api)
  show "fst (run spinning (coherent_subscriber fuel [''s'']) s []) = OutOfFuel" for fuel s
    by (simp add: evaluate coherent_subscriber_def create_pose_readers_def create_pose_conditions_def fresh_handle_def spinning_loop)
qed

end
