(* ===== verification/Coherent_Delivery.thy ===== *)
theory Coherent_Delivery
  imports Coherent_Publishing Coherent_Receiving
begin

text \<open>
  From the publisher to the subscriber of the coherent-set test, through a middleware that keeps the promise of group
  coherent access.
\<close>

section \<open>Group coherent access\<close>

text \<open>How many of the groups the last \<open>begin_access\<close> made visible.\<close>

fun visible :: "(Pose, unit) atrace \<Rightarrow> nat" where
  "visible [] = 0"
| "visible ((Group (begin_access sub), r) # tr) = nat (num r)"
| "visible (x # tr) = visible tr"

text \<open>
  Every call succeeds; the readers of the two topics are \<open>11\<close> and \<open>12\<close>; a wait ends with \<open>OK\<close>, at most \<open>m\<close> times, or with
  \<open>TIMEOUT\<close>; and inside an access a batch take hands over, up to the number asked for, the samples of the visible groups
  that were not taken yet.
\<close>

definition delivers :: "Pose list \<Rightarrow> (Pose, unit) atrace \<Rightarrow> int \<Rightarrow> nat \<Rightarrow> (Pose, unit) answer \<Rightarrow> bool" where
  "delivers samples tr dr n r \<longleftrightarrow>
     (let new = take n (drop (length (ids_from dr tr)) (take (visible tr) samples))
      in ret r = int (length new) \<and> got r = map (\<lambda>v. (v, True)) new)"

fun succeeds :: "Pose app_call \<Rightarrow> (Pose, unit) answer \<Rightarrow> bool" where
  "succeeds (Entity (zzdds_factory_is_nil f)) r \<longleftrightarrow> ret r = 0"
| "succeeds (Entity (type_support_register dp t)) r \<longleftrightarrow> ret r = 0"
| "succeeds (Entity (create_participant f d)) r \<longleftrightarrow> ret r \<noteq> 0"
| "succeeds (Entity (create_topic dp name type)) r \<longleftrightarrow> ret r = (if name = ''Position'' then 1 else 2)"
| "succeeds (Entity (create_datareader s t q l)) r \<longleftrightarrow> ret r = 10 + t"
| "succeeds (Group (create_group_subscriber dp q)) r \<longleftrightarrow> ret r \<noteq> 0"
| "succeeds (Group (begin_access s)) r \<longleftrightarrow> ret r = 0"
| "succeeds (Group (end_access s)) r \<longleftrightarrow> ret r = 0"
| "succeeds (Wait (zzdds_waitset_is_nil ws)) r \<longleftrightarrow> ret r = 0"
| "succeeds (Wait (create_readcondition dr)) r \<longleftrightarrow> ret r \<noteq> 0"
| "succeeds (Wait (attach_condition ws cond)) r \<longleftrightarrow> ret r = 0"
| "succeeds (Wait (waitset_wait ws t)) r \<longleftrightarrow> ret r \<in> {DDS_RETCODE_OK, DDS_RETCODE_TIMEOUT}"
| "succeeds _ r \<longleftrightarrow> True"

definition coherent_access :: "nat \<Rightarrow> Pose list \<Rightarrow> Pose list \<Rightarrow> (Pose, unit) atrace \<Rightarrow> Pose app_call \<Rightarrow> (Pose, unit) answer \<Rightarrow> bool" where
  "coherent_access m positions velocities tr c r \<longleftrightarrow> succeeds c r
     \<and> (is_wait c \<and> ret r = DDS_RETCODE_OK \<longrightarrow> wakeups tr < m)
     \<and> (\<forall>dr n. c = Data (take_n dr n) \<longrightarrow> delivers (if dr = 11 then positions else velocities) tr dr n r)"


definition sent_positions :: "Pose list" where "sent_positions = map position_of [0..<20]"
definition sent_velocities :: "Pose list" where "sent_velocities = map velocity_of [0..<20]"

abbreviation fed_by :: "nat \<Rightarrow> (Pose, unit) atrace \<Rightarrow> Pose app_call \<Rightarrow> (Pose, unit) answer \<Rightarrow> bool" where
  "fed_by m \<equiv> coherent_access m sent_positions sent_velocities"

definition fed_post :: "int outcome \<Rightarrow> no_statics \<Rightarrow> (Pose, unit) atrace \<Rightarrow> bool" where
  "fed_post x s tr \<longleftrightarrow> x = Val 0 \<or> x = Val 1 \<and> failed tr \<and> timeouts tr = 30"

text \<open>Both readers have shown the first \<open>n\<close> groups.\<close>

definition fed :: "pose_readers \<Rightarrow> nat \<Rightarrow> (Pose, unit) atrace \<Rightarrow> bool" where
  "fed c n tr \<longleftrightarrow> position_dr c = 11 \<and> velocity_dr c = 12 \<and> ids_from 11 tr = map int [0..<n] \<and> ids_from 12 tr = map int [0..<n]
     \<and> n \<le> 20 \<and> timeouts tr \<le> 30"

lemma ids_delivered:
  assumes "delivers (map f [0..<20]) tr dr (20 - n) r" and "ids_from dr tr = map int [0..<n]" and "\<And>g. group_id (f g) = int g"
  shows "ret r \<le> int (length (got r)) \<and> ids_in r = map int [n..<min 20 (visible tr)]"
proof -
  let ?new = "take (20 - n) (drop n (take (visible tr) (map f [0..<20])))"
  have new: "?new = map f [n..<min 20 (visible tr)]"
    by (simp add: take_map drop_map min.commute flip: take_upt) (simp add: min_def)
  have r: "ret r = int (length ?new)" "got r = map (\<lambda>v. (v, True)) ?new"
    using assms(1,2) by (simp_all add: delivers_def Let_def)
  then show ?thesis
    using assms(3) unfolding new by (simp add: ids_in_def filter_map comp_def)
qed

lemma fed_take_side:
  assumes "ids_from dr tr = map int [0..<n]" and "n \<le> 20" and "dr = 11 \<or> dr = 12"
    and k: "\<And>tr'. tr' = tr \<or> (\<exists>n r. tr' = (Data (take_n dr n), r) # tr) \<Longrightarrow> ids_from dr tr' = map int [0..<max n (min 20 (visible tr))]
      \<Longrightarrow> wpt (fed_by m) Q (k (map int [0..<max n (min 20 (visible tr))])) s tr'"
  shows "wpt (fed_by m) Q (take_side dr (map int [0..<n]) k) s tr"
  unfolding take_side_def
proof (intro wpt_ifI wpt_quiet)
  fix r
  assume r: "fed_by m tr (Data (take_n dr (GROUP_COUNT - length (map int [0..<n])))) r" and n: "length (map int [0..<n]) < GROUP_COUNT"
  let ?v = "min 20 (visible tr)"
  have "ret r \<le> int (length (got r)) \<and> ids_in r = map int [n..<?v]"
    using r assms(1,3)
    by (intro ids_delivered [where f = "if dr = 11 then position_of else velocity_of"])
       (auto simp: coherent_access_def GROUP_COUNT_def sent_positions_def sent_velocities_def position_of_def velocity_of_def split: if_splits)
  moreover have "map int [0..<n] @ map int [n..<?v] = map int [0..<max n ?v]"
    using upt_add_eq_append [of 0 n "?v - n"] by (cases "n \<le> ?v") (simp_all add: max_def flip: map_append del: min_less_iff_disj min_le_iff_disj min.bounded_iff)
  ultimately show "wpt (fed_by m) Q (case append_order (map int [0..<n]) r of Val order' \<Rightarrow> k order' | Exit n \<Rightarrow> Leaf (Exit n)
      | Crash m \<Rightarrow> Leaf (Crash m) | OutOfFuel \<Rightarrow> Leaf OutOfFuel) s ((Data (take_n dr (GROUP_COUNT - length (map int [0..<n]))), r) # tr)"
    using k [of "(Data (take_n dr (GROUP_COUNT - length (map int [0..<n]))), r) # tr"] assms(1,2)
    by (auto simp: append_order_def ids_in_def GROUP_COUNT_def)
next
  assume "\<not> length (map int [0..<n]) < GROUP_COUNT"
  then have "n = 20" using assms(2) by (simp add: GROUP_COUNT_def)
  then have "max n (min 20 (visible tr)) = n" by simp
  then show "wpt (fed_by m) Q (k (map int [0..<n])) s tr" using k [of tr] assms(1) by simp
qed


lemma check_pairs_same:
  assumes "\<And>tr'. tr' = tr \<or> (\<exists>line r. tr' = (printf line, r) # tr) \<Longrightarrow> wpt G Q p s tr'"
  shows "wpt G Q (check_pairs ids ids p) s tr"
proof -
  have "List.find (\<lambda>i. ids ! i \<noteq> ids ! i) [0..<length ids] = None" by (simp add: find_index_None)
  then show ?thesis unfolding check_pairs_def using assms by (auto intro!: wpt_quiet)
qed

lemma fed_pass:
  assumes tr: "fed c n tr" "timeouts tr < 30"
    and timeout: "\<And>r. ret r = DDS_RETCODE_TIMEOUT \<Longrightarrow> wpt (fed_by m) fed_post timed_out s ((Wait (waitset_wait (coh_ws c) COH_WAIT_STEP_SEC), r) # tr)"
    and go: "\<And>tr' n'. fed c n' tr' \<Longrightarrow> timeouts tr' = timeouts tr \<Longrightarrow> wakeups tr' = Suc (wakeups tr) \<Longrightarrow> wakeups tr < m
      \<Longrightarrow> wpt (fed_by m) fed_post (go (map int [0..<n']) (map int [0..<n'])) s tr'"
  shows "wpt (fed_by m) fed_post (access_pass c (map int [0..<n]) (map int [0..<n]) timed_out go) s tr"
  unfolding access_pass_def check_def
proof (intro wpt_quiet wpt_ifI)
  fix r r1 r2
  let ?wait = "Wait (waitset_wait (coh_ws c) COH_WAIT_STEP_SEC)"
  let ?tr1 = "(Group (begin_access (coh_sub c)), r2) # (sequence_free, r1) # (?wait, r) # tr"
  let ?n = "max n (min 20 (visible ?tr1))"
  assume r: "fed_by m tr ?wait r" "ret r \<noteq> DDS_RETCODE_TIMEOUT" "\<not> ret r \<noteq> DDS_RETCODE_OK"
  have tr1: "ids_from 11 ?tr1 = map int [0..<n]" "ids_from 12 ?tr1 = map int [0..<n]" "n \<le> 20" "timeouts ?tr1 = timeouts tr"
    "wakeups ?tr1 = Suc (wakeups tr)" "wakeups tr < m" "position_dr c = 11" "velocity_dr c = 12"
    using tr r by (auto simp: fed_def coherent_access_def DDS_RETCODE_TIMEOUT_def)
  show "wpt (fed_by m) fed_post (take_side (position_dr c) (map int [0..<n]) (\<lambda>ps'. take_side (velocity_dr c) (map int [0..<n]) (\<lambda>vs'.
       sys quiet (Group (end_access (coh_sub c))) (\<lambda>r. if ret r \<noteq> DDS_RETCODE_OK then fail quiet ''end_access() failed'' else
       check_pairs ps' vs' (go ps' vs'))))) s ?tr1"
    unfolding tr1(7,8)
  proof (rule fed_take_side [OF tr1(1,3)])
    fix tr2
    assume tr2: "tr2 = ?tr1 \<or> (\<exists>n r. tr2 = (Data (take_n 11 n), r) # ?tr1)" "ids_from 11 tr2 = map int [0..<?n]"
    then have v: "visible tr2 = visible ?tr1" "ids_from 12 tr2 = map int [0..<n]" "timeouts tr2 = timeouts tr" "wakeups tr2 = Suc (wakeups tr)"
      using tr1 by auto
    show "wpt (fed_by m) fed_post (take_side 12 (map int [0..<n]) (\<lambda>vs'.
       sys quiet (Group (end_access (coh_sub c))) (\<lambda>r. if ret r \<noteq> DDS_RETCODE_OK then fail quiet ''end_access() failed'' else
       check_pairs (map int [0..<?n]) vs' (go (map int [0..<?n]) vs')))) s tr2"
    proof (rule fed_take_side [OF v(2) tr1(3)])
      fix tr3
      assume tr3: "tr3 = tr2 \<or> (\<exists>n r. tr3 = (Data (take_n 12 n), r) # tr2)" "ids_from 12 tr3 = map int [0..<max n (min 20 (visible tr2))]"
      then have "ids_from 11 tr3 = map int [0..<?n]" "ids_from 12 tr3 = map int [0..<?n]" "timeouts tr3 = timeouts tr" "wakeups tr3 = Suc (wakeups tr)"
        using tr2(2) v by auto
      then have "fed c ?n tr3" using tr tr1 by (simp add: fed_def del: visible.simps)
      then have "fed c ?n tr4 \<and> timeouts tr4 = timeouts tr \<and> wakeups tr4 = Suc (wakeups tr)"
        if "tr4 = (Group (end_access (coh_sub c)), r4) # tr3 \<or> (\<exists>line r. tr4 = (printf line, r) # (Group (end_access (coh_sub c)), r4) # tr3)" for r4 tr4
        using that \<open>timeouts tr3 = timeouts tr\<close> \<open>wakeups tr3 = Suc (wakeups tr)\<close> by (auto simp: fed_def simp del: visible.simps)
      then show "wpt (fed_by m) fed_post (sys quiet (Group (end_access (coh_sub c))) (\<lambda>r. if ret r \<noteq> DDS_RETCODE_OK then fail quiet ''end_access() failed''
          else check_pairs (map int [0..<?n]) (map int [0..<max n (min 20 (visible tr2))]) (go (map int [0..<?n]) (map int [0..<max n (min 20 (visible tr2))])))) s tr3"
        unfolding v(1) using tr1(6) go
        by (intro wpt_quiet wpt_ifI check_pairs_same) (auto simp: coherent_access_def simp del: visible.simps)
    qed simp
  qed simp
qed (use timeout in \<open>auto simp: coherent_access_def\<close>)


lemma fed_pair_loop:
  assumes "fed c n tr" and "waited = 1000 * timeouts tr" and "30 - timeouts tr + (m - wakeups tr) < fuel"
    and k: "\<And>tr'. fed c 20 tr' \<Longrightarrow> wpt (fed_by m) fed_post (k (map int [0..<20]) (map int [0..<20])) s tr'"
  shows "wpt (fed_by m) fed_post (pair_loop fuel c (map int [0..<n]) (map int [0..<n]) waited k) s tr"
  using assms(1-3)
proof (induction fuel arbitrary: tr n waited)
  case (Suc fuel)
  show ?case
  proof (cases "n < 20")
    case True
    show ?thesis
    proof (cases "timeouts tr = 30")
      case False
      then have lt: "timeouts tr < 30" using Suc.prems(1) by (simp add: fed_def)
      have "wpt (fed_by m) fed_post (access_pass c (map int [0..<n]) (map int [0..<n])
          (pair_loop fuel c (map int [0..<n]) (map int [0..<n]) (waited + COH_WAIT_STEP_SEC * 1000) k)
          (\<lambda>ps' vs'. pair_loop fuel c ps' vs' waited k)) s tr"
        by (rule fed_pass [OF Suc.prems(1) lt]; rule Suc.IH)
           (use Suc.prems lt in \<open>auto simp: fed_def COH_WAIT_STEP_SEC_def DDS_RETCODE_TIMEOUT_def DDS_RETCODE_OK_def\<close>)
      then show ?thesis
        using True False Suc.prems(1,2) lt by (simp add: pair_loop.simps [of "Suc fuel"] GROUP_COUNT_def COH_OVERALL_DEADLINE_MS_def)
    next
      case timeout: True
      have "wpt (fed_by m) fed_post (fail quiet line) s tr" for line
        unfolding fail_def by (rule wpt_quiet) (use timeout in \<open>simp add: fed_post_def\<close>)
      then show ?thesis
        using True timeout Suc.prems(2) by (simp add: pair_loop.simps [of "Suc fuel"] GROUP_COUNT_def COH_OVERALL_DEADLINE_MS_def)
    qed
  next
    case False
    then have "n = 20" using Suc.prems(1) by (simp add: fed_def)
    then show ?thesis using k Suc.prems by (simp add: pair_loop.simps [of "Suc fuel"] GROUP_COUNT_def)
  qed
qed simp

lemma coherent_subscriber_fed:
  assumes "m + 30 < fuel"
  shows "wpt (fed_by m) fed_post (coherent_subscriber fuel argv) s []"
proof -
  have order: "check_order (map int [0..<20]) (map int [0..<20]) p = p" for p
    using find_index_None [of "\<lambda>i. map int [0..<20] ! i \<noteq> int i \<or> map int [0..<20] ! i \<noteq> int i" 20]
    by (simp add: check_order_def GROUP_COUNT_def)
  have "wpt (fed_by m) fed_post (say quiet ''Subscriber: received all 20 groups, atomic and ordered.'' (close_subscriber f c)) s tr" for f c tr
    unfolding close_subscriber_def by (intro wpt_quiet) (simp add: fed_post_def)
  then have loop: "wpt (fed_by m) fed_post (pair_loop fuel c [] [] 0 (\<lambda>ps vs. check_order ps vs
      (say quiet ''Subscriber: received all 20 groups, atomic and ordered.'' (close_subscriber f c)))) s tr"
    if "fed c 0 tr" "timeouts tr = 0" for f c tr
    using fed_pair_loop [OF that(1), of 0 m fuel] that(2) assms order by simp
  show ?thesis
    unfolding coherent_subscriber_def open_participant_def need_def check_def Let_def create_pose_readers_def create_pose_conditions_def
    by (intro wpt_quiet wpt_ifI loop) (auto simp: coherent_access_def fed_def)
qed


section \<open>From the publisher to the subscriber\<close>

fun written_position :: "coherent_op \<Rightarrow> Pose option" where
  "written_position (Write dw v) = (if is_Position v then Some v else None)"
| "written_position _ = None"

fun written_velocity :: "coherent_op \<Rightarrow> Pose option" where
  "written_velocity (Write dw v) = (if \<not> is_Position v then Some v else None)"
| "written_velocity _ = None"

definition positions_written :: "(Pose, pose_event) atrace \<Rightarrow> Pose list" where
  "positions_written tr = List.map_filter written_position (only group_op tr)"

definition velocities_written :: "(Pose, pose_event) atrace \<Rightarrow> Pose list" where
  "velocities_written tr = List.map_filter written_velocity (only group_op tr)"

lemma map_filter_concat: "List.map_filter f (concat xss) = concat (map (List.map_filter f) xss)"
  by (induction xss) (simp_all add: List.map_filter_def)

lemma published_samples:
  assumes "groups_published tr"
  shows "positions_written tr = sent_positions" "velocities_written tr = sent_velocities"
proof -
  obtain pub pdw vdw where ops: "only group_op tr = concat (map (coherent_set pub pdw vdw) [0..<20])"
    using assms by (auto simp: groups_published_def)
  have "List.map_filter written_position (coherent_set pub pdw vdw g) = [position_of g]"
    "List.map_filter written_velocity (coherent_set pub pdw vdw g) = [velocity_of g]" for g
    by (simp_all add: coherent_set_def List.map_filter_def position_of_def velocity_of_def)
  then show "positions_written tr = sent_positions" "velocities_written tr = sent_velocities"
    by (simp_all add: positions_written_def velocities_written_def sent_positions_def sent_velocities_def ops map_filter_concat comp_def)
qed

text \<open>C5. From the publisher to the subscriber of the coherent-set test, for a subscriber on which no call
  fails. The assumptions: the run of the publisher ended with 0, its listeners having been called only on the writer they
  were installed on; on the subscriber's side every creation and every other call succeeds, the two topics and the two
  readers have fixed, different handles, and a wait answers only \<open>OK\<close>, a bounded number of times, or \<open>TIMEOUT\<close>; and
  the middleware hands the subscriber exactly what the publisher wrote, making whole groups visible at the beginning of
  an access (any number of them at a time, in any number of accesses). Then the subscriber reports neither a violated
  atomicity nor a violated order: it ends with 0, or with 1 because thirty waits timed out. (Runs in which a call of the
  subscriber fails end with 1; they are part of the subscriber's own contract.)\<close>

theorem coherent_end_to_end:
  assumes "\<And>tr c. listening installs_writer_listener tr c (envp tr c)"
    and "run envp (coherent_publisher argv) sp [] = (Val 0, sp', trp)"
    and "\<And>tr c. coherent_access m (positions_written trp) (velocities_written trp) tr c (envs tr c)" and "m + 30 < fuel"
  shows "case run envs (coherent_subscriber fuel argv') s [] of (x, s', tr) \<Rightarrow> x = Val 0 \<or> x = Val 1 \<and> failed tr \<and> timeouts tr = 30"
proof -
  have "groups_published trp"
    using wpt_run [OF coherent_publisher_wpt assms(1,2)] by (simp add: verdict_def)
  then show ?thesis
    using wpt_run_result [where e = envs, OF coherent_subscriber_fed [OF assms(4)], of argv' s] assms(3)
    by (simp add: published_samples fed_post_def split_beta)
qed

text \<open>Ten groups become visible at each access; after two wake-ups every wait times out.\<close>

fun coherent_feed :: "Pose list \<Rightarrow> Pose list \<Rightarrow> (Pose, unit) atrace \<Rightarrow> Pose app_call \<Rightarrow> (Pose, unit) answer" where
  "coherent_feed ps vs tr (Entity (create_datareader s t q l)) = answers (10 + t) []"
| "coherent_feed ps vs tr (Entity (create_topic dp name type)) = answers (if name = ''Position'' then 1 else 2) []"
| "coherent_feed ps vs tr (Data (take_n dr n)) =
     (let new = take n (drop (length (ids_from dr tr)) (take (visible tr) (if dr = 11 then ps else vs)))
      in (answers (int (length new)) [])\<lparr>got := map (\<lambda>v. (v, True)) new\<rparr>)"
| "coherent_feed ps vs tr (Wait (waitset_wait ws t)) = (if wakeups tr < 2 then answers 0 [] else answers 10 [])"
| "coherent_feed ps vs tr (Wait (create_readcondition dr)) = answers 5 []"
| "coherent_feed ps vs tr (Entity (create_participant f d)) = answers 1 []"
| "coherent_feed ps vs tr (Group (create_group_subscriber dp q)) = answers 1 []"
| "coherent_feed ps vs tr (Group (begin_access s)) = (answers 0 [])\<lparr>num := 10 * int (wakeups tr)\<rparr>"
| "coherent_feed ps vs tr c = answers 0 []"

lemma coherent_feed_access: "coherent_access 2 ps vs tr c (coherent_feed ps vs tr c)"
proof -
  have "succeeds c (coherent_feed ps vs tr c)"
    by (cases "(c, coherent_feed ps vs tr c)" rule: succeeds.cases) (auto simp: answers_def DDS_RETCODE_TIMEOUT_def Let_def)
  moreover have "is_wait c \<and> ret (coherent_feed ps vs tr c) = DDS_RETCODE_OK \<longrightarrow> wakeups tr < 2"
    by (cases c rule: is_wait.cases) (auto simp: answers_def)
  ultimately show ?thesis
    by (auto simp: coherent_access_def delivers_def answers_def Let_def)
qed

theorem coherent_end_to_end_witness:
  "\<exists>sp trp. run pose_env (coherent_publisher [''p'']) pose_state [] = (Val 0, sp, trp)
     \<and> (case run (coherent_feed (positions_written trp) (velocities_written trp)) (coherent_subscriber 33 [''s'']) No_statics [] of
         (x, s', tr) \<Rightarrow> x = Val 0 \<or> x = Val 1 \<and> failed tr \<and> timeouts tr = 30)"
proof -
  obtain sp trp where "run pose_env (coherent_publisher [''p'']) pose_state [] = (Val 0, sp, trp)"
    using coherent_publisher_run by (metis fst_conv surj_pair)
  then show ?thesis
    using coherent_end_to_end [OF pose_env_listens _ coherent_feed_access, of "[''p'']" pose_state sp trp 33 "[''s'']" No_statics] by auto
qed

end
