(* ===== verification/Session_Teardown.thy ===== *)
theory Session_Teardown
  imports Example_Kit
begin

text \<open>
  The program under test of the integration test \<open>integration-tests/c/delete-contained-entities\<close>: it builds a tree of two writers,
  two readers, a content-filtered topic and a read condition on a wait set, exchanges samples with its peer, and deletes
  the whole tree with one call. A matched-status callback that arrives once the deletion has begun ends the process.
\<close>

definition SESSION_SAMPLE_COUNT :: nat where "SESSION_SAMPLE_COUNT = 5"
definition RECEIVE_TARGET :: nat where "RECEIVE_TARGET = 2"
definition SESSION_READY_TIMEOUT_MS :: nat where "SESSION_READY_TIMEOUT_MS = 10000"
definition SESSION_RECEIVE_TIMEOUT_MS :: nat where "SESSION_RECEIVE_TIMEOUT_MS = 20000"
definition SESSION_WAIT_STEP_SEC :: nat where "SESSION_WAIT_STEP_SEC = 1"
definition SESSION_POLL_PERIOD_MS :: nat where "SESSION_POLL_PERIOD_MS = 20"

lemmas session_constants = SESSION_SAMPLE_COUNT_def RECEIVE_TARGET_def SESSION_READY_TIMEOUT_MS_def
  SESSION_RECEIVE_TIMEOUT_MS_def SESSION_WAIT_STEP_SEC_def SESSION_POLL_PERIOD_MS_def

section \<open>State and callbacks\<close>

datatype teardown = PHASE_RUNNING | PHASE_DELETING | PHASE_DELETED

record SessionState =
  td_phase :: teardown
  out1_ready :: bool
  out2_ready :: bool
  in_matched :: bool
  cft_matched :: bool

definition session_state :: SessionState where
  "session_state = \<lparr>td_phase = PHASE_RUNNING, out1_ready = False, out2_ready = False, in_matched = False, cft_matched = False\<rparr>"

text \<open>Callbacks of the two writers (\<open>True\<close> for \<open>SessionOut1\<close>) and of the two readers (\<open>True\<close> for \<open>SessionIn\<close>).\<close>

datatype session_event = Writer_matched bool | Writer_reader_ready bool bool | Reader_matched bool int

definition fail_if_torn_down :: "SessionState \<Rightarrow> SessionState outcome \<Rightarrow> SessionState outcome" where
  "fail_if_torn_down s k = (if td_phase s = PHASE_RUNNING then k else Exit 1)"

fun session_listener :: "(session_event, SessionState) handler" where
  "session_listener (Writer_matched out1) s = fail_if_torn_down s (Val s)"
| "session_listener (Writer_reader_ready out1 is_ready) s =
     Val (if \<not> is_ready then s else if out1 then s\<lparr>out1_ready := True\<rparr> else s\<lparr>out2_ready := True\<rparr>)"
| "session_listener (Reader_matched plain current_count) s = fail_if_torn_down s
     (Val (if current_count > 0 then (if plain then s\<lparr>in_matched := True\<rparr> else s\<lparr>cft_matched := True\<rparr>) else s))"

type_synonym 'a session = "(SessionState, int, session_event, 'a) app"

section \<open>\<open>main\<close>\<close>

record session_tree =
  se_factory :: int
  se_dp :: int
  out1_dw :: int
  out2_dw :: int
  in_dr :: int
  cft_dr :: int
  se_ws :: int

definition create_session_topics :: "int \<Rightarrow> (int \<Rightarrow> int \<Rightarrow> int \<Rightarrow> int session) \<Rightarrow> int session" where
  "create_session_topics dp k = (let h = session_listener in
     need h (Entity (create_topic dp ''SessionOut1'' ''SessionEvent'')) ''create_topic(SessionOut1) failed'' (\<lambda>out1.
     say h ''Create topic: SessionOut1'' (
     need h (Entity (create_topic dp ''SessionOut2'' ''SessionEvent'')) ''create_topic(SessionOut2) failed'' (\<lambda>out2.
     say h ''Create topic: SessionOut2'' (
     need h (Entity (create_topic dp ''SessionIn'' ''SessionEvent'')) ''create_topic(SessionIn) failed'' (\<lambda>inn.
     say h ''Create topic: SessionIn'' (k out1 out2 inn)))))))"

definition create_session_writers :: "int \<Rightarrow> int \<Rightarrow> int \<Rightarrow> (int \<Rightarrow> int \<Rightarrow> int session) \<Rightarrow> int session" where
  "create_session_writers dp out1 out2 k = (let h = session_listener in
     need h (Entity (create_publisher dp)) ''create_publisher() failed'' (\<lambda>pub.
     sys h (Entity (get_default_datawriter_qos pub)) (\<lambda>wq.
     Put session_state (
     sys h (Entity (create_datawriter_ex pub out1 (reliable_keep_all (num wq)))) (\<lambda>dw1.
     sys h (Entity (create_datawriter_ex pub out2 (reliable_keep_all (num wq)))) (\<lambda>dw2.
       if ret dw1 = 0 \<or> ret dw2 = 0 then fail h ''create_datawriter_ex() failed''
       else say h ''Create writer for topic: SessionOut1'' (say h ''Create writer for topic: SessionOut2'' (
         k (ret dw1) (ret dw2)))))))))"

definition create_session_readers :: "int \<Rightarrow> int \<Rightarrow> (int \<Rightarrow> int \<Rightarrow> int session) \<Rightarrow> int session" where
  "create_session_readers dp in_topic k = (let h = session_listener in
     need h (Entity (create_subscriber dp)) ''create_subscriber() failed'' (\<lambda>sub.
     sys h (Entity (get_default_datareader_qos sub)) (\<lambda>rq.
     need h (Entity (create_datareader sub in_topic (reliable_keep_all (num rq)) True)) ''create_datareader(SessionIn) failed'' (\<lambda>dr.
     say h ''Create reader for topic: SessionIn'' (
     need h (Query (create_contentfilteredtopic dp ''SessionIn_cft'' in_topic ''seq >= 0'' [])) ''create_contentfilteredtopic() failed'' (\<lambda>cft.
     need h (Entity (create_datareader sub cft (reliable_keep_all (num rq)) True)) ''create_datareader(SessionIn_cft) failed'' (\<lambda>dr2.
     say h ''Create reader for topic: SessionIn_cft'' (k dr dr2))))))))"

definition create_session_condition :: "int \<Rightarrow> (int \<Rightarrow> int session) \<Rightarrow> int session" where
  "create_session_condition dr k = (let h = session_listener in
     sys h (Wait zzdds_create_waitset) (\<lambda>ws.
     sys h (Wait (zzdds_waitset_is_nil (ret ws))) (\<lambda>nil.
       if ret nil \<noteq> 0 then fail h ''create_waitset() failed''
       else need h (Wait (create_readcondition dr)) ''create_readcondition() failed'' (\<lambda>rc.
            check h (Wait (attach_condition (ret ws) rc)) ''attach_condition() failed'' (k (ret ws))))))"

definition await_session_readers :: "bool session" where
  "await_session_readers = poll session_listener SESSION_POLL_PERIOD_MS SESSION_READY_TIMEOUT_MS
     (load_all session_listener [out1_ready, out2_ready])"

definition await_session_matched :: "bool session" where
  "await_session_matched = poll session_listener SESSION_POLL_PERIOD_MS SESSION_READY_TIMEOUT_MS
     (load_all session_listener [in_matched, cft_matched])"

definition not_matched_in_time :: "int session" where
  "not_matched_in_time = (let h = session_listener; truth = (\<lambda>b. if b then ''true'' else ''false'') in
     load h in_matched (\<lambda>a. load h cft_matched (\<lambda>b.
     fail h (''readers not matched with the peer's writer within 10s (SessionIn='' @ truth a @ '' SessionIn_cft='' @ truth b @ '')''))))"

definition write_session :: "int \<Rightarrow> int \<Rightarrow> int option session" where
  "write_session dw1 dw2 = for_prog 0 SESSION_SAMPLE_COUNT (\<lambda>seq. let h = session_listener in
     sys h (Data (write_data dw1 (int seq) 0)) (\<lambda>r.
       if ret r \<noteq> 0 then fail_out h (''write() failed at seq='' @ dec seq)
       else sys h (Data (write_data dw2 (int seq) 0)) (\<lambda>r.
       if ret r \<noteq> 0 then fail_out h (''write() failed at seq='' @ dec seq) else Return None)))"

text \<open>
  The loop around the wait set, with a bound on its iterations. The arrays have \<open>SAMPLE_COUNT\<close> elements;
  reading one behind their end, or one that \<open>take_n\<close> did not fill, is undefined.
\<close>

definition valid_taken :: "(int, session_event) answer \<Rightarrow> nat outcome" where
  "valid_taken r = (if ret r > int SESSION_SAMPLE_COUNT then Crash ''an element behind the end of the array''
     else if ret r > int (length (got r)) then Crash ''an element that take_n did not fill''
     else Val (length (filter snd (take (nat (ret r)) (got r)))))"

fun receive_session :: "nat \<Rightarrow> int \<Rightarrow> int \<Rightarrow> nat \<Rightarrow> nat \<Rightarrow> (nat \<Rightarrow> int session) \<Rightarrow> int session" where
  "receive_session fuel ws dr received waited_ms k = (let h = session_listener in
     if \<not> received < RECEIVE_TARGET then k received
     else case fuel of 0 \<Rightarrow> Leaf OutOfFuel | Suc fuel \<Rightarrow>
       if waited_ms \<ge> SESSION_RECEIVE_TIMEOUT_MS
       then fail h (''session did not receive from peer within 20s (got '' @ dec received @ '')'')
       else sys h (Wait (waitset_wait ws SESSION_WAIT_STEP_SEC)) (\<lambda>wr.
         if ret wr = DDS_RETCODE_TIMEOUT then receive_session fuel ws dr received (waited_ms + SESSION_WAIT_STEP_SEC * 1000) k
         else if ret wr \<noteq> DDS_RETCODE_OK then fail h (''WaitSet.wait() returned '' @ dec_int (ret wr))
         else sys h sequence_free (\<lambda>_.
         sys h (Data (take_n dr SESSION_SAMPLE_COUNT)) (\<lambda>r. case valid_taken r of
           Val n \<Rightarrow> receive_session fuel ws dr (received + n) waited_ms k
         | Exit n \<Rightarrow> Leaf (Exit n) | Crash m \<Rightarrow> Leaf (Crash m) | OutOfFuel \<Rightarrow> Leaf OutOfFuel))))"

declare receive_session.simps [simp del]

definition delete_tree :: "session_tree \<Rightarrow> int session" where
  "delete_tree t = (let h = session_listener in
     store h (\<lambda>s. s\<lparr>td_phase := PHASE_DELETING\<rparr>) (
     sys h (Entity (delete_contained_entities (se_dp t))) (\<lambda>rc1.
       if ret rc1 \<noteq> DDS_RETCODE_OK
       then fail h (''delete_contained_entities() returned '' @ dec_int (ret rc1) @ '', expected RETCODE_OK'')
       else store h (\<lambda>s. s\<lparr>td_phase := PHASE_DELETED\<rparr>) (
       sys h (Entity (delete_participant (se_factory t) (se_dp t))) (\<lambda>rc2.
       if ret rc2 \<noteq> DDS_RETCODE_OK
       then fail h (''delete_participant() returned '' @ dec_int (ret rc2)
         @ '' after delete_contained_entities -- cascade left something dangling'')
       else sys h (Wait (zzdds_destroy_waitset (se_ws t))) (\<lambda>_.
       say h ''Session: torn down via delete_contained_entities.'' (
       sys h (Entity (zzdds_destroy_factory (se_factory t))) (\<lambda>_. Return 0))))))))"

definition exchange :: "nat \<Rightarrow> session_tree \<Rightarrow> int session" where
  "exchange fuel t = (let h = session_listener in
     bind_prog await_session_readers (\<lambda>ready.
       if \<not> ready then fail h ''no reliable reader became ready within 10s''
       else bind_prog await_session_matched (\<lambda>matched.
       if \<not> matched then not_matched_in_time
       else bind_prog (write_session (out1_dw t) (out2_dw t)) (\<lambda>x. leave_or x (
       say h ''Session: wrote 5 samples on SessionOut1/SessionOut2'' (
       receive_session fuel (se_ws t) (in_dr t) 0 0 (\<lambda>received.
       say h (''Session: received '' @ dec received @ '' samples from peer.'') (
       delete_tree t))))))))"

definition session_main :: "nat \<Rightarrow> string list \<Rightarrow> int session" where
  "session_main fuel argv =
     open_participant session_listener argv ''SessionEvent'' ''register SessionEventTypeSupport failed'' (\<lambda>factory dp.
     create_session_topics dp (\<lambda>out1 out2 in_topic.
     create_session_writers dp out1 out2 (\<lambda>dw1 dw2.
     create_session_readers dp in_topic (\<lambda>dr1 dr2.
     create_session_condition dr1 (\<lambda>ws.
     exchange fuel \<lparr>se_factory = factory, se_dp = dp, out1_dw = dw1, out2_dw = dw2, in_dr = dr1, cft_dr = dr2, se_ws = ws\<rparr>)))))"

end
