(* ===== verification/Session_Contracts.thy ===== *)
theory Session_Contracts
  imports Session_Teardown Example_Publisher
begin

text \<open>
  What the program under test of \<open>delete-contained-entities\<close> guarantees: it tears its tree down only after the exchange
  with its peer is complete, and a successful end means that no matched callback ran from the moment the
  deletion had begun.
\<close>

section \<open>Callbacks\<close>

text \<open>A callback that must not run during the deletion or after it.\<close>

fun matched_callback :: "session_event \<Rightarrow> bool" where
  "matched_callback (Writer_matched out1) = True"
| "matched_callback (Writer_reader_ready out1 b) = False"
| "matched_callback (Reader_matched plain n) = True"

definition session_tracks :: "session_event list \<Rightarrow> SessionState \<Rightarrow> bool" where
  "session_tracks es s \<longleftrightarrow> td_phase s = PHASE_RUNNING
     \<and> (out1_ready s \<longrightarrow> Writer_reader_ready True True \<in> set es)
     \<and> (out2_ready s \<longrightarrow> Writer_reader_ready False True \<in> set es)
     \<and> (in_matched s \<longrightarrow> (\<exists>n>0. Reader_matched True n \<in> set es))
     \<and> (cft_matched s \<longrightarrow> (\<exists>n>0. Reader_matched False n \<in> set es))"

interpretation session: tracked_listener session_listener session_state session_tracks
proof unfold_locales
  show "session_tracks [] session_state" by (simp add: session_tracks_def session_state_def)
next
  fix es s e s'
  assume "session_tracks es s" and "session_listener e s = Val s'"
  then show "session_tracks (es @ [e]) s'"
    by (cases e) (auto simp: session_tracks_def fail_if_torn_down_def split: if_splits)
qed

lemma session_total:
  "td_phase s = PHASE_RUNNING \<Longrightarrow> \<exists>s'. deliver session_listener es s = Val s'"
proof (induction es arbitrary: s)
  case (Cons e es)
  then show ?case by (cases e) (auto simp: fail_if_torn_down_def)
qed simp

lemma session_not_broken [simp]: "\<not> broken session_listener session_state x tr"
  using session_total [of session_state "events tr"] by (cases x) (auto simp: session_state_def)

lemma session_never_breaks [simp]: "lets_break session_listener session_state Q"
  by (simp add: lets_break_def)

text \<open>Once the deletion has begun, a matched callback is the end.\<close>

lemma deliver_torn_down:
  assumes "td_phase s \<noteq> PHASE_RUNNING"
  shows "if list_ex matched_callback es then deliver session_listener es s = Exit 1
    else \<exists>s'. deliver session_listener es s = Val s' \<and> td_phase s' = td_phase s"
  using assms
proof (induction es arbitrary: s)
  case (Cons e es)
  show ?case
  proof (cases e)
    case (Writer_reader_ready out1 b)
    then show ?thesis using Cons.IH [of "s\<lparr>out1_ready := True\<rparr>"] Cons.IH [of "s\<lparr>out2_ready := True\<rparr>"] Cons by auto
  qed (use Cons.prems in \<open>simp_all add: fail_if_torn_down_def\<close>)
qed simp

lemma wpt_torn_down:
  assumes "td_phase s \<noteq> PHASE_RUNNING"
    and "\<And>r. list_ex matched_callback (evs r) \<Longrightarrow> Q (Exit 1) s ((c, r) # tr)"
    and "\<And>r s'. \<not> list_ex matched_callback (evs r) \<Longrightarrow> td_phase s' \<noteq> PHASE_RUNNING \<Longrightarrow> wpt G Q (k r) s' ((c, r) # tr)"
  shows "wpt G Q (sys session_listener c k) s tr"
proof -
  have "wpt G Q (case deliver session_listener (evs r) s of Val s' \<Rightarrow> Put s' (k r) | Exit n \<Rightarrow> Leaf (Exit n)
      | Crash m \<Rightarrow> Leaf (Crash m) | OutOfFuel \<Rightarrow> Leaf OutOfFuel) s ((c, r) # tr)" for r
    using deliver_torn_down [OF assms(1), of "evs r"] assms by (auto split: if_splits)
  then show ?thesis by (simp add: sys_def)
qed

section \<open>The contract\<close>

definition peers_there :: "(int, session_event) atrace \<Rightarrow> bool" where
  "peers_there tr \<longleftrightarrow>
     {Writer_reader_ready True True, Writer_reader_ready False True} \<subseteq> set (events tr)
     \<and> (\<exists>n>0. Reader_matched True n \<in> set (events tr)) \<and> (\<exists>n>0. Reader_matched False n \<in> set (events tr))"

text \<open>How many valid samples were taken from a reader.\<close>

definition valid_count :: "int \<Rightarrow> (int, session_event) atrace \<Rightarrow> nat" where
  "valid_count dr tr = sum_list (map (\<lambda>x. if takes_from dr (fst x)
     then length (filter snd (take (nat (ret (snd x))) (got (snd x)))) else 0) tr)"

lemma valid_count_simps [simp]:
  "valid_count dr [] = 0"
  "valid_count dr ((c, r) # tr) =
     (if takes_from dr c then length (filter snd (take (nat (ret r)) (got r))) else 0) + valid_count dr tr"
  "valid_count dr (q @ tr) = valid_count dr q + valid_count dr tr"
  by (simp_all add: valid_count_def)

definition session_lines :: "string list" where
  "session_lines = [''Create topic: SessionOut1'', ''Create topic: SessionOut2'', ''Create topic: SessionIn'',
     ''Create writer for topic: SessionOut1'', ''Create writer for topic: SessionOut2'',
     ''Create reader for topic: SessionIn'', ''Create reader for topic: SessionIn_cft'',
     ''Session: wrote 5 samples on SessionOut1/SessionOut2'']"

abbreviation received_line :: "nat \<Rightarrow> string" where
  "received_line n \<equiv> ''Session: received '' @ dec n @ '' samples from peer.''"

text \<open>
  The tree that was built, call by call, with the handles the calls were answered with: two reliable
  writers on topics of their own, a reader on the third topic and one on a filtered view of it, and the
  condition of the first reader. \<open>t\<close> holds exactly these handles.
\<close>

definition session_built :: "session_tree \<Rightarrow> (int, session_event) atrace \<Rightarrow> bool" where
  "session_built t tr \<longleftrightarrow> (\<exists>domain t1 t2 t3 pub sub cft rc wq rq. creations tr =
     [(Entity zzdds_create_factory, se_factory t), (Entity (create_participant (se_factory t) domain), se_dp t),
      (Entity (create_topic (se_dp t) ''SessionOut1'' ''SessionEvent''), t1),
      (Entity (create_topic (se_dp t) ''SessionOut2'' ''SessionEvent''), t2),
      (Entity (create_topic (se_dp t) ''SessionIn'' ''SessionEvent''), t3),
      (Entity (create_publisher (se_dp t)), pub),
      (Entity (create_datawriter_ex pub t1 (reliable_keep_all wq)), out1_dw t),
      (Entity (create_datawriter_ex pub t2 (reliable_keep_all wq)), out2_dw t),
      (Entity (create_subscriber (se_dp t)), sub),
      (Entity (create_datareader sub t3 (reliable_keep_all rq) True), in_dr t),
      (Query (create_contentfilteredtopic (se_dp t) ''SessionIn_cft'' t3 ''seq >= 0'' []), cft),
      (Entity (create_datareader sub cft (reliable_keep_all rq) True), cft_dr t),
      (Wait zzdds_create_waitset, se_ws t), (Wait (create_readcondition (in_dr t)), rc)])"

lemma session_built_other: "session_built t tr \<Longrightarrow> creations q = [] \<Longrightarrow> session_built t (q @ tr)"
  by (simp add: session_built_def)

text \<open>The exchange with the peer, up to the first of the calls that tear the tree down.\<close>

definition exchanged :: "session_tree \<Rightarrow> (int, session_event) atrace \<Rightarrow> bool" where
  "exchanged t tr \<longleftrightarrow>
     only written tr = concat (map (\<lambda>k. [(out1_dw t, int k), (out2_dw t, int k)]) [0..<5])
     \<and> before is_write peers_there tr \<and> only destroyed tr = [] \<and> only printed tr = session_lines \<and> session_built t tr"

definition torn_down_calls :: "session_tree \<Rightarrow> int app_call list" where
  "torn_down_calls t = [Entity (delete_contained_entities (se_dp t)), atomic_access,
     Entity (delete_participant (se_factory t) (se_dp t)), Wait (zzdds_destroy_waitset (se_ws t)),
     printf ''Session: torn down via delete_contained_entities.'', Entity (zzdds_destroy_factory (se_factory t))]"

lemma torn_down_calls_length [simp]: "length (torn_down_calls t) = 6"
  by (simp add: torn_down_calls_def)

lemma torn_down_calls_slept [simp]: "n < 6 \<Longrightarrow> slept_by (torn_down_calls t ! n) = 0"
  by (auto simp: torn_down_calls_def less_Suc_eq numeral_eq_Suc)

text \<open>The last two entries: the count of the samples is printed and the store that announces the deletion is made.\<close>

definition deletion_begun :: "session_tree \<Rightarrow> (int, session_event) atrace \<Rightarrow> bool" where
  "deletion_begun t tr \<longleftrightarrow> (\<exists>r0 n r1 rest. tr = (atomic_access, r0) # (printf (received_line n), r1) # rest
     \<and> 2 \<le> n \<and> n = valid_count (in_dr t) rest \<and> exchanged t rest)"

text \<open>After it the first calls of the deletion were answered with \<open>rs\<close>, and no matched callback ran.\<close>

definition deleted_with :: "session_tree \<Rightarrow> (int, session_event) answer list \<Rightarrow> (int, session_event) atrace \<Rightarrow> bool" where
  "deleted_with t rs tr \<longleftrightarrow> (\<exists>tr0. tr = rev (zip (torn_down_calls t) rs) @ tr0 \<and> deletion_begun t tr0
     \<and> length rs \<le> 6 \<and> list_all (\<lambda>r. \<not> list_ex matched_callback (evs r)) rs)"

definition session_done :: "(int, session_event) atrace \<Rightarrow> bool" where
  "session_done tr \<longleftrightarrow> (\<exists>t rs. deleted_with t rs tr \<and> length rs = 6
     \<and> ret (rs ! 0) = DDS_RETCODE_OK \<and> ret (rs ! 2) = DDS_RETCODE_OK)"

text \<open>A matched callback ran during one of these calls, or while a failed one was reported.\<close>

definition session_caught :: "(int, session_event) atrace \<Rightarrow> bool" where
  "session_caught tr \<longleftrightarrow> (\<exists>t rs c r tr1. tr = (c, r) # tr1 \<and> deleted_with t rs tr1 \<and> length rs < 6
     \<and> (c = torn_down_calls t ! length rs \<or> (\<exists>line. c = eprintf (FAIL line))) \<and> list_ex matched_callback (evs r))"

definition session_post :: "int outcome \<Rightarrow> SessionState \<Rightarrow> (int, session_event) atrace \<Rightarrow> bool" where
  "session_post x s tr \<longleftrightarrow> slept tr \<le> 20000 \<and>
     (x = Val 1 \<and> failed tr \<or> x = Val 0 \<and> session_done tr \<or> x = Exit 1 \<and> session_caught tr)"

lemma session_admits_failure [simp]: "admits_failure session_listener session_state 20000 session_post"
  by (simp add: admits_failure_def session_post_def)

section \<open>The deletion\<close>

definition deleting :: "session_tree \<Rightarrow> (int, session_event) answer list \<Rightarrow> SessionState \<Rightarrow> (int, session_event) atrace \<Rightarrow> bool" where
  "deleting t rs s tr \<longleftrightarrow> td_phase s \<noteq> PHASE_RUNNING \<and> slept tr \<le> 20000 \<and> deleted_with t rs tr"

lemma deleted_with_snoc:
  assumes "deleted_with t rs tr" and "length rs < 6" and "\<not> list_ex matched_callback (evs r)"
  shows "deleted_with t (rs @ [r]) ((torn_down_calls t ! length rs, r) # tr)"
proof -
  obtain tr0 where tr: "tr = rev (zip (torn_down_calls t) rs) @ tr0" "deletion_begun t tr0"
      "list_all (\<lambda>r. \<not> list_ex matched_callback (evs r)) rs"
    using assms(1) by (auto simp: deleted_with_def)
  have "zip (torn_down_calls t) (rs @ [r]) = zip (torn_down_calls t) rs @ [(torn_down_calls t ! length rs, r)]"
    using assms(2) take_zip [of "length rs" "torn_down_calls t" rs] by (simp add: zip_append2 flip: Cons_nth_drop_Suc)
  then show ?thesis
    using tr assms(2,3) unfolding deleted_with_def by auto
qed

lemma deleting_step:
  assumes d: "deleting t rs s tr" and "length rs < 6" and "c = torn_down_calls t ! length rs"
    and k: "\<And>r s'. deleting t (rs @ [r]) s' ((c, r) # tr) \<Longrightarrow> wpt G session_post (k r) s' ((c, r) # tr)"
  shows "wpt G session_post (sys session_listener c k) s tr"
proof (rule wpt_torn_down)
  show "td_phase s \<noteq> PHASE_RUNNING" using d by (simp add: deleting_def)
  show "session_post (Exit 1) s ((c, r) # tr)" if "list_ex matched_callback (evs r)" for r
    using that assms(1-3) by (auto simp: deleting_def session_post_def session_caught_def)
  show "wpt G session_post (k r) s' ((c, r) # tr)" if "\<not> list_ex matched_callback (evs r)" "td_phase s' \<noteq> PHASE_RUNNING" for r s'
    using that assms(1-3) deleted_with_snoc by (intro k) (auto simp: deleting_def)
qed

lemma deleting_fail:
  assumes d: "deleting t rs s tr" and "length rs < 6"
  shows "wpt G session_post (fail session_listener line) s tr"
  unfolding fail_def
proof (rule wpt_torn_down)
  show "session_post (Exit 1) s ((eprintf (FAIL line), r) # tr)" if "list_ex matched_callback (evs r)" for r
    using that assms by (auto simp: deleting_def session_post_def session_caught_def)
qed (use d in \<open>simp_all add: deleting_def session_post_def\<close>)

lemma session_doneI:
  "deleted_with t [r1, r2, r3, r4, r5, r6] tr \<Longrightarrow> ret r1 = DDS_RETCODE_OK \<Longrightarrow> ret r3 = DDS_RETCODE_OK \<Longrightarrow> session_done tr"
  unfolding session_done_def by (intro exI) auto

lemma wpt_delete_tree:
  assumes "stands session_listener session_state 20000 s tr" and "\<And>r. deletion_begun t ((atomic_access, r) # tr)"
  shows "wpt G session_post (delete_tree t) s tr"
proof -
  have begun: "deleting t [] (s'\<lparr>td_phase := PHASE_DELETING\<rparr>) ((atomic_access, r) # tr)"
    if "stands session_listener session_state 20000 s' ((atomic_access, r) # tr)" for s' r
    using that assms(2) by (simp add: deleting_def deleted_with_def stands_def)
  have deleted: "deleting t rs (s'\<lparr>td_phase := PHASE_DELETED\<rparr>) tr'" if "deleting t rs s' tr'" for rs s' tr'
    using that by (simp add: deleting_def)
  show ?thesis
    unfolding delete_tree_def Let_def store_def
    apply (rule wpt_step [OF assms(1)], simp, simp, rule wpt_GetI, rule wpt_PutI)
    apply (rule deleting_step, erule begun, simp, simp add: torn_down_calls_def)
    apply (rule wpt_ifI, erule deleting_fail, simp)
    apply (erule deleting_step, simp, simp add: torn_down_calls_def)
    apply (rule wpt_GetI, rule wpt_PutI)
    apply (drule deleted, erule deleting_step, simp, simp add: torn_down_calls_def)
    apply (rule wpt_ifI, erule deleting_fail, simp)
    apply (erule deleting_step, simp, simp add: torn_down_calls_def)+
    apply (auto simp: deleting_def session_post_def elim!: session_doneI)
    done
qed

section \<open>The exchange\<close>

abbreviation session_stands :: "nat \<Rightarrow> SessionState \<Rightarrow> (int, session_event) atrace \<Rightarrow> bool" where
  "session_stands \<equiv> stands session_listener session_state"

fun installs_session_listener :: "'v app_call \<Rightarrow> bool" where
  "installs_session_listener c = (installs_writer_listener c \<or> installs_reader_listener c)"

text \<open>
  No callback before a listener is installed; a batch take returns no more than was asked for and than it filled; at most \<open>m\<close> wake-ups.
\<close>

definition session_middleware :: "nat \<Rightarrow> (int, session_event) atrace \<Rightarrow> int app_call \<Rightarrow> (int, session_event) answer \<Rightarrow> bool" where
  "session_middleware m tr c r \<longleftrightarrow> listening installs_session_listener tr c r
     \<and> (\<forall>dr n. c = Data (take_n dr n) \<longrightarrow> ret r \<le> int n \<and> ret r \<le> int (length (got r)))
     \<and> (is_wait c \<and> ret r = DDS_RETCODE_OK \<longrightarrow> wakeups tr < m)"

lemma exchanged_step:
  "exchanged t tr \<Longrightarrow> written c = None \<and> printed c = None \<and> destroyed c = None \<and> \<not> is_write c \<and> \<not> creates c
     \<Longrightarrow> exchanged t ((c, r) # tr)"
  by (auto simp: exchanged_def session_built_def)

lemma wpt_receive_session:
  assumes "session_stands 20000 s tr" and "exchanged t tr" and "timeouts tr \<le> 20"
    and "20 - timeouts tr + (m - wakeups tr) < fuel"
    and k: "\<And>s' tr'. session_stands 20000 s' tr' \<Longrightarrow> exchanged t tr' \<Longrightarrow> 2 \<le> valid_count dr tr'
      \<Longrightarrow> wpt (session_middleware m) session_post (k (valid_count dr tr')) s' tr'"
  shows "wpt (session_middleware m) session_post (receive_session fuel ws dr (valid_count dr tr) (1000 * timeouts tr) k) s tr"
  using assms(1-4)
proof (induction fuel arbitrary: s tr)
  case (Suc fuel)
  let ?wait = "Wait (waitset_wait ws SESSION_WAIT_STEP_SEC) :: int app_call"
  let ?take = "Data (take_n dr SESSION_SAMPLE_COUNT) :: int app_call"
  have again: "wpt (session_middleware m) session_post (receive_session fuel ws dr (valid_count dr tr) (1000 * timeouts tr + SESSION_WAIT_STEP_SEC * 1000) k)
      s' ((?wait, r) # tr)"
    if "session_stands 20000 s' ((?wait, r) # tr)" "ret r = DDS_RETCODE_TIMEOUT" "timeouts tr < 20" for r s'
    using Suc.IH [OF that(1)] that Suc.prems exchanged_step [OF Suc.prems(2), of ?wait r]
    by (simp add: SESSION_WAIT_STEP_SEC_def DDS_RETCODE_TIMEOUT_def algebra_simps)
  have taken: "wpt (session_middleware m) session_post (case valid_taken r3 of
           Val n \<Rightarrow> receive_session fuel ws dr (valid_count dr tr + n) (1000 * timeouts tr) k
         | Exit n \<Rightarrow> Leaf (Exit n) | Crash m \<Rightarrow> Leaf (Crash m) | OutOfFuel \<Rightarrow> Leaf OutOfFuel) s' ((?take, r3) # (sequence_free, r2) # (?wait, r1) # tr)"
    if "session_middleware m tr ?wait r1" "ret r1 = DDS_RETCODE_OK" "session_middleware m tr' ?take r3"
      "session_stands 20000 s' ((?take, r3) # (sequence_free, r2) # (?wait, r1) # tr)" for r1 r2 r3 s' tr'
  proof -
    have "exchanged t ((?take, r3) # (sequence_free, r2) # (?wait, r1) # tr)"
      by (intro exchanged_step Suc.prems(2)) simp_all
    moreover have "valid_taken r3 = Val (length (filter snd (take (nat (ret r3)) (got r3))))"
      using that(3) by (simp add: valid_taken_def session_middleware_def SESSION_SAMPLE_COUNT_def)
    moreover have "wakeups tr < m"
      using that(1,2) by (simp add: session_middleware_def)
    ultimately show ?thesis
      using Suc.IH [OF that(4)] Suc.prems that(2)
      by (simp add: DDS_RETCODE_TIMEOUT_def DDS_RETCODE_OK_def add.commute)
  qed
  show ?case
    unfolding receive_session.simps [of "Suc fuel"] Let_def nat.case(2)
    apply (intro wpt_ifI)
      apply (rule k [OF Suc.prems(1,2)], simp add: RECEIVE_TARGET_def)
     apply (rule wpt_fail_to [OF session_admits_failure Suc.prems(1)], simp)
    apply (rule wpt_step_G [OF Suc.prems(1)], simp, simp, intro wpt_ifI)
      apply (erule again, simp, use Suc.prems(3) in \<open>simp add: SESSION_RECEIVE_TIMEOUT_MS_def\<close>)
     apply (erule wpt_fail_to [OF session_admits_failure], simp)
    apply (erule wpt_step, simp, simp)
    apply (erule wpt_step_G, simp, simp)
    apply (erule taken, simp, assumption, assumption)
    done
qed simp

lemma wpt_await_session:
  assumes "session_stands k s tr" and "\<And>es s. session_tracks es s \<Longrightarrow> f s \<Longrightarrow> F es" and "\<And>es s. session_tracks es s \<Longrightarrow> g s \<Longrightarrow> H es"
    and mono: "\<And>es es'. set es \<subseteq> set es' \<Longrightarrow> (F es \<longrightarrow> F es') \<and> (H es \<longrightarrow> H es')"
    and "\<And>b q s'. idle q \<Longrightarrow> session_stands (k + 10000) s' (q @ tr) \<Longrightarrow> (b \<Longrightarrow> F (events (q @ tr)) \<and> H (events (q @ tr)))
      \<Longrightarrow> wpt G Q (p b) s' (q @ tr)"
  shows "wpt G Q (bind_prog (poll session_listener SESSION_POLL_PERIOD_MS SESSION_READY_TIMEOUT_MS (load_all session_listener [f, g])) p) s tr"
proof (rule wpt_await_sees [OF sees_all assms(1) session_never_breaks])
  fix b q s'
  assume "idle q" and "session_stands (k + (SESSION_READY_TIMEOUT_MS + SESSION_POLL_PERIOD_MS - 1) div SESSION_POLL_PERIOD_MS * SESSION_POLL_PERIOD_MS) s' (q @ tr)"
    and "b \<Longrightarrow> in_turn session_listener session_state [f, g] [] (events (q @ tr))"
  moreover have "F es \<and> H es" if "in_turn session_listener session_state [f, g] [] es" for es
    using session.in_turn_pair_tracked [OF that] assms(2,3) mono by (metis Un_subset_iff)
  ultimately show "wpt G Q (p b) s' (q @ tr)"
    by (intro assms(5)) (simp_all add: session_constants del: events_simps)
qed

definition wrote_session :: "int \<Rightarrow> int \<Rightarrow> nat \<Rightarrow> (int, session_event) atrace \<Rightarrow> bool" where
  "wrote_session dw1 dw2 n q \<longleftrightarrow> only written q = concat (map (\<lambda>k. [(dw1, int k), (dw2, int k)]) [0..<n])
     \<and> only destroyed q = [] \<and> only printed q = [] \<and> timeouts q = 0 \<and> creations q = [] \<and> (\<forall>dr. valid_count dr q = 0)"

lemma wpt_write_session:
  assumes "session_stands k s tr" and "k \<le> 20000"
    and "\<And>s' q. session_stands k s' (q @ tr) \<Longrightarrow> wrote_session dw1 dw2 5 q \<Longrightarrow> wpt G session_post p s' (q @ tr)"
  shows "wpt G session_post (bind_prog (write_session dw1 dw2) (\<lambda>x. leave_or x p)) s tr"
  unfolding write_session_def Let_def
proof (rule wpt_timed_loop_to [where k = "\<lambda>_. k" and J = "wrote_session dw1 dw2"])
  fix n s' q
  assume s': "session_stands k s' (q @ tr)" and q: "wrote_session dw1 dw2 n q"
  note failing = wpt_fail_out_to [OF session_admits_failure _ assms(2)]
  show "wpt G (iteration_to session_listener session_state session_post k tr (wrote_session dw1 dw2 (Suc n)))
     (sys session_listener (Data (write_data dw1 (int n) 0)) (\<lambda>r.
       if ret r \<noteq> 0 then fail_out session_listener (''write() failed at seq='' @ dec n)
       else sys session_listener (Data (write_data dw2 (int n) 0)) (\<lambda>r.
       if ret r \<noteq> 0 then fail_out session_listener (''write() failed at seq='' @ dec n) else Return None))) s' (q @ tr)"
    apply (rule wpt_step [OF s'], simp, simp, rule wpt_ifI, erule failing)
    apply (erule wpt_step, simp, simp, rule wpt_ifI, erule failing)
    apply (erule wpt_continue)
    using q apply (simp flip: append_Cons, simp add: wrote_session_def)
    done
qed (use assms in \<open>simp_all add: wrote_session_def SESSION_SAMPLE_COUNT_def\<close>)

lemma peers_there_append: "peers_there tr \<Longrightarrow> peers_there (q @ tr)"
  by (auto simp: peers_there_def)

text \<open>Everything is set up, and nothing has been written or waited for yet.\<close>

definition prepared :: "session_tree \<Rightarrow> (int, session_event) atrace \<Rightarrow> bool" where
  "prepared t tr \<longleftrightarrow> only written tr = [] \<and> before is_write peers_there tr \<and> only destroyed tr = [] \<and> timeouts tr = 0
     \<and> only printed tr = butlast session_lines \<and> session_built t tr"

lemma idle_waits_ended [simp]: "idle q \<Longrightarrow> waits_ended rc q = 0"
  unfolding waits_ended_def idle_def by (auto simp: filter_empty_conv elim!: is_wait.elims)

lemma idle_valid_count [simp]: "idle q \<Longrightarrow> valid_count dr q = 0"
  unfolding valid_count_def idle_def by (auto elim!: takes_from.elims)

lemma prepared_exchanged:
  assumes "prepared t tr" and q: "idle q1" "idle q2" "peers_there (q2 @ q1 @ tr)" "wrote_session (out1_dw t) (out2_dw t) 5 q3"
  shows "exchanged t ((printf ''Session: wrote 5 samples on SessionOut1/SessionOut2'', r) # q3 @ q2 @ q1 @ tr)"
    and "timeouts ((printf ''Session: wrote 5 samples on SessionOut1/SessionOut2'', r) # q3 @ q2 @ q1 @ tr) = 0"
proof -
  have "before is_write peers_there (q1 @ tr)"
    using assms(1) idle_not_write [OF q(1)] unfolding prepared_def by (intro before_other) auto
  then have "before is_write peers_there (q2 @ q1 @ tr)"
    using idle_not_write [OF q(2)] by (rule before_other)
  then have "before is_write peers_there (q3 @ q2 @ q1 @ tr)"
    by (rule before_append) (rule peers_there_append [OF q(3)])
  then show "exchanged t ((printf ''Session: wrote 5 samples on SessionOut1/SessionOut2'', r) # q3 @ q2 @ q1 @ tr)"
    using assms by (auto simp: exchanged_def prepared_def wrote_session_def session_lines_def session_built_def)
  show "timeouts ((printf ''Session: wrote 5 samples on SessionOut1/SessionOut2'', r) # q3 @ q2 @ q1 @ tr) = 0"
    using assms by (simp add: prepared_def wrote_session_def)
qed

lemma wpt_exchange:
  assumes "session_stands 0 s tr" and tr: "prepared t tr" "valid_count (in_dr t) tr = 0" and "m + 20 < fuel"
  shows "wpt (session_middleware m) session_post (exchange fuel t) s tr"
  unfolding exchange_def Let_def await_session_readers_def await_session_matched_def not_matched_in_time_def
  apply (rule wpt_await_session [OF assms(1), where F = "\<lambda>es. Writer_reader_ready True True \<in> set es"
        and H = "\<lambda>es. Writer_reader_ready False True \<in> set es"])
     apply (simp add: session_tracks_def, simp add: session_tracks_def, blast)
  apply (rule wpt_ifI, erule wpt_fail_to [OF session_admits_failure], simp)
  apply (erule wpt_await_session [where F = "\<lambda>es. \<exists>n>0. Reader_matched True n \<in> set es"
        and H = "\<lambda>es. \<exists>n>0. Reader_matched False n \<in> set es"])
     apply (simp add: session_tracks_def, simp add: session_tracks_def, blast)
  apply (rule wpt_ifI)
   apply ((erule wpt_load_stands, simp)+, erule wpt_fail_to [OF session_admits_failure], simp)
  apply (erule wpt_write_session, simp, erule wpt_step, simp, simp)
  subgoal premises prems for b1 q1 s1 b2 q2 s2 s3 q3 r s4
  proof -
    let ?tr = "(printf ''Session: wrote 5 samples on SessionOut1/SessionOut2'', r) # q3 @ q2 @ q1 @ tr"
    have idle: "idle q1" "idle q2" and w: "wrote_session (out1_dw t) (out2_dw t) 5 q3"
      using prems by auto
    have "peers_there (q2 @ q1 @ tr)"
      using prems unfolding peers_there_def by (simp; blast)
    note e = prepared_exchanged [OF tr(1) idle this w, of r]
    have 0: "valid_count (in_dr t) ?tr = 0"
      using prems tr(2) by (simp add: wrote_session_def)
    have "wpt (session_middleware m) session_post (receive_session fuel (se_ws t) (in_dr t) (valid_count (in_dr t) ?tr)
        (1000 * timeouts ?tr) (\<lambda>received. say session_listener (received_line received) (delete_tree t))) s4 ?tr"
      by (rule wpt_receive_session [OF _ e(1)], use prems e assms(4) in simp_all)
         (erule wpt_step, simp, simp, erule wpt_delete_tree, auto simp: deletion_begun_def)
    then show ?thesis by (simp only: 0 e(2) mult_0_right)
  qed
  done

section \<open>The program\<close>

lemma heeds_session: "heeds installs_session_listener (session_middleware m)"
  by (simp add: heeds_def session_middleware_def)

lemma setup_not_session: "setup_call c \<Longrightarrow> \<not> installs_session_listener c"
  using setup_not_writer setup_not_reader by auto

lemmas session_early = early_need_to [OF session_admits_failure heeds_session]
  early_check_to [OF session_admits_failure heeds_session] early_step [OF heeds_session]

lemmas session_need = wpt_need_to [OF session_admits_failure]
lemmas session_check = wpt_check_to [OF session_admits_failure]
lemmas session_fail = wpt_fail_to [OF session_admits_failure]

lemma session_wpt:
  assumes "m + 20 < fuel"
  shows "wpt (session_middleware m) session_post (session_main fuel argv) s []"
  unfolding session_main_def create_session_topics_def create_session_writers_def create_session_readers_def
    create_session_condition_def Let_def
  apply (rule wpt_open_participant_to [OF session_admits_failure heeds_session setup_not_session], assumption)
  apply (rule session_early, assumption, simp)+
  apply (rule wpt_PutI, rule wpt_step, erule early_stands, simp, simp)
  apply (erule wpt_step, simp, simp, rule wpt_ifI, erule session_fail, simp)
  apply (erule wpt_step, simp, simp)+
  apply (erule session_need, simp, erule wpt_step, simp, simp)
  apply (erule session_need, simp, erule wpt_step, simp, simp)
  apply (erule session_need, simp)
  apply (erule session_need, simp, erule wpt_step, simp, simp)
  apply (erule wpt_step, simp, simp)
  apply (erule wpt_step, simp, simp, rule wpt_ifI, erule session_fail, simp)
  apply (erule session_need, simp, erule session_check, simp)
  apply (erule wpt_exchange)
    apply (auto simp: prepared_def session_lines_def session_built_def opened_def assms)
  done

text \<open>C7. The session of the test \<open>delete-contained-entities\<close>, against any middleware that calls no listener before it is
  installed, whose batch takes return no more than was asked for and fill what they return, and which wakes the wait set up at
  most \<open>m\<close> times: it never reads an element that was not filled, it sleeps 20 seconds at most and comes to an end within
  \<open>m + 20\<close> waits, with 1 right after a \<open>FAIL:\<close> line, with 0, or by the \<open>exit(1)\<close> of a matched callback. With 0 it had
  created the whole tree in the documented order (one reliable writer on \<open>SessionOut1\<close> and another on \<open>SessionOut2\<close>, the
  reader, the filtered topic with its reader, the wait set with its condition) and nothing else; it had written the samples 0 to 4
  on the handle of the first writer and on that of the second in turn, none of them before both writers had a ready reader and
  both readers were matched; it had received at least two valid samples on the reader of \<open>SessionIn\<close> and reported their
  number; both deletions, of that participant, had answered \<open>DDS_RETCODE_OK\<close>, and no matched callback ran from the store that
  announced the deletion to the end. It ends inside a callback only when such a callback did run after that store.\<close>

theorem session_contract:
  assumes "\<And>tr c. session_middleware m tr c (env tr c)" and "m + 20 < fuel"
  shows "case run env (session_main fuel argv) s [] of (x, s', tr) \<Rightarrow> slept tr \<le> 20000 \<and>
    (x = Val 1 \<and> failed tr \<or> x = Val 0 \<and> session_done tr \<or> x = Exit 1 \<and> session_caught tr)"
  using wpt_run_result [where e = env, OF session_wpt [OF assms(2)] assms(1), of argv s]
  by (simp add: session_post_def split_beta)

text \<open>Two middlewares for evaluation: in both the peer is there and sends two samples after a wait that
  timed out; in the second a writer is still told that its reader has gone while the tree is deleted.\<close>

fun session_env :: "bool \<Rightarrow> (int, session_event) atrace \<Rightarrow> int app_call \<Rightarrow> (int, session_event) answer" where
  "session_env late tr (Entity (create_datawriter_ex p t q)) =
     answers 7 [Writer_matched True, Writer_reader_ready True True, Writer_reader_ready False True]"
| "session_env late tr (Entity (create_datareader s t q l)) = answers 8 (if l then [Reader_matched True 1, Reader_matched False 1] else [])"
| "session_env late tr (Entity (create_topic dp name type)) = answers 1 []"
| "session_env late tr (Entity (create_participant f d)) = answers 1 []"
| "session_env late tr (Entity (create_publisher d)) = answers 1 []"
| "session_env late tr (Entity (create_subscriber d)) = answers 1 []"
| "session_env late tr (Entity (delete_contained_entities dp)) =
     answers 0 (if late \<and> list_ex (installs_session_listener \<circ> fst) tr then [Writer_matched True] else [])"
| "session_env late tr (Query (create_contentfilteredtopic dp name t e ps)) = answers 1 []"
| "session_env late tr (Wait (create_readcondition dr)) = answers 1 []"
| "session_env late tr (Wait (waitset_wait ws t)) = (if wakeups tr = 0 \<and> 0 < timeouts tr then answers 0 [] else answers 10 [])"
| "session_env late tr (Data (take_n dr n)) = (answers (int (min n 3)) [])\<lparr>got := [(0, True), (0, False), (1, True)]\<rparr>"
| "session_env late tr c = answers 0 []"

lemma session_env_ok: "session_middleware 1 tr c (session_env late tr c)"
  by (cases "(late, tr, c)" rule: session_env.cases)
     (auto simp: session_middleware_def answers_def listening_def list_ex_iff)

lemma run_receive_session:
  "run e (receive_session (numeral n) ws dr received waited k) s tr =
     (if \<not> received < 2 then run e (k received) s tr
      else if waited \<ge> 20000
      then run e (fail session_listener (''session did not receive from peer within 20s (got '' @ dec received @ '')'')) s tr
      else run e (sys session_listener (Wait (waitset_wait ws SESSION_WAIT_STEP_SEC)) (\<lambda>wr.
         if ret wr = DDS_RETCODE_TIMEOUT then receive_session (pred_numeral n) ws dr received (waited + SESSION_WAIT_STEP_SEC * 1000) k
         else if ret wr \<noteq> DDS_RETCODE_OK then fail session_listener (''WaitSet.wait() returned '' @ dec_int (ret wr))
         else sys session_listener sequence_free (\<lambda>_.
         sys session_listener (Data (take_n dr SESSION_SAMPLE_COUNT)) (\<lambda>r. case valid_taken r of
           Val m \<Rightarrow> receive_session (pred_numeral n) ws dr (received + m) waited k
         | Exit m \<Rightarrow> Leaf (Exit m) | Crash m \<Rightarrow> Leaf (Crash m) | OutOfFuel \<Rightarrow> Leaf OutOfFuel)))) s tr)"
  by (subst receive_session.simps) (simp add: RECEIVE_TARGET_def SESSION_RECEIVE_TIMEOUT_MS_def Let_def)

lemma session_run:
  "fst (run (session_env False) (session_main 22 [''s'']) session_state []) = Val 0"
  "fst (run (session_env True) (session_main 22 [''s'']) session_state []) = Exit 1"
  by (simp_all add: evaluate session_main_def create_session_topics_def create_session_writers_def create_session_readers_def
    create_session_condition_def exchange_def await_session_readers_def await_session_matched_def write_session_def
    run_receive_session delete_tree_def valid_taken_def fail_if_torn_down_def session_state_def SESSION_POLL_PERIOD_MS_def
    SESSION_READY_TIMEOUT_MS_def SESSION_SAMPLE_COUNT_def SESSION_WAIT_STEP_SEC_def)

theorem session_contract_witness:
  "(case run (session_env False) (session_main 22 [''s'']) session_state [] of (x, s', tr) \<Rightarrow> x = Val 0 \<and> session_done tr) \<and>
   (case run (session_env True) (session_main 22 [''s'']) session_state [] of (x, s', tr) \<Rightarrow> x = Exit 1 \<and> session_caught tr)"
  using session_contract [OF session_env_ok [of _ _ False], of 22 "[''s'']" session_state]
    session_contract [OF session_env_ok [of _ _ True], of 22 "[''s'']" session_state] session_run
  by (auto simp: split_beta)

end
