(* ===== verification/Counted_Writer.thy ===== *)
theory Counted_Writer
  imports Example_Kit
begin

text \<open>
  The publisher side of the integration tests whose writer's listener only keeps the current number of matched readers:
  \<open>main\<close> waits until there are enough of them, works, and waits until there are none.
\<close>

section \<open>The writer's listener\<close>

record CountState =
  match_count :: int

definition count_state :: CountState where
  "count_state = \<lparr>match_count = 0\<rparr>"

datatype count_event = Count_matched int

fun count_listener :: "(count_event, CountState) handler" where
  "count_listener (Count_matched current_count) s = Val (s\<lparr>match_count := current_count\<rparr>)"

definition COUNT_POLL_PERIOD_MS :: nat where "COUNT_POLL_PERIOD_MS = 20"
definition COUNT_DRAIN_TIMEOUT_MS :: nat where "COUNT_DRAIN_TIMEOUT_MS = 15000"

definition await_matched :: "int \<Rightarrow> nat \<Rightarrow> (CountState, 'v, count_event, bool) app" where
  "await_matched n timeout = poll count_listener COUNT_POLL_PERIOD_MS timeout (load count_listener (\<lambda>s. \<not> match_count s < n) Return)"

definition await_unmatched :: "(CountState, 'v, count_event, bool) app" where
  "await_unmatched = poll count_listener COUNT_POLL_PERIOD_MS COUNT_DRAIN_TIMEOUT_MS (load count_listener (\<lambda>s. \<not> match_count s \<noteq> 0) Return)"

text \<open>\<open>writer_matched\<close> and the line it is printed in; \<open>more\<close> is what the line says of other endpoints.\<close>

definition count_writer_matched :: "int \<Rightarrow> (int \<Rightarrow> (CountState, 'v, count_event, 'a) app) \<Rightarrow> (CountState, 'v, count_event, 'a) app" where
  "count_writer_matched dw k = sys count_listener (Query (get_publication_matched_status dw)) (\<lambda>r.
     k (if ret r = DDS_RETCODE_OK then num r else - 1))"

definition not_disconnected :: "int \<Rightarrow> (CountState, 'v, count_event, int) app" where
  "not_disconnected dw = (let h = count_listener in
     load h match_count (\<lambda>n. count_writer_matched dw (\<lambda>m.
     sys h (eprintf (''  matched: writer listener='' @ dec_int n @ '' status='' @ dec_int m)) (\<lambda>_.
     fail h ''subscriber did not disconnect within 15s''))))"

section \<open>What the count says\<close>

definition count_tracks :: "count_event list \<Rightarrow> CountState \<Rightarrow> bool" where
  "count_tracks es s \<longleftrightarrow> (if es = [] then match_count s = 0 else last es = Count_matched (match_count s))"

interpretation counted: tracked_listener count_listener count_state count_tracks
proof unfold_locales
  show "count_tracks [] count_state" by (simp add: count_tracks_def count_state_def)
next
  fix es s e s'
  assume "count_listener e s = Val s'"
  then show "count_tracks (es @ [e]) s'" by (cases e) (auto simp: count_tracks_def)
qed

text \<open>At least \<open>n\<close> readers were reported; and, later, none.\<close>

definition saw_matched :: "int \<Rightarrow> count_event list \<Rightarrow> bool" where
  "saw_matched n es \<longleftrightarrow> (\<exists>m\<ge>n. Count_matched m \<in> set es)"

definition came_and_went :: "int \<Rightarrow> count_event list \<Rightarrow> bool" where
  "came_and_went n es \<longleftrightarrow> (\<exists>es1 m es2. es = es1 @ Count_matched m # es2 \<and> n \<le> m \<and> Count_matched 0 \<in> set es2)"

lemma saw_matched_append: "saw_matched n es \<Longrightarrow> saw_matched n (es @ es')"
  by (auto simp: saw_matched_def)

lemma came_and_went_append: "came_and_went n es \<Longrightarrow> came_and_went n (es @ es')"
  by (force simp: came_and_went_def)

lemma saw_then_none:
  assumes "saw_matched n es" and "0 < n" and "es @ es' = [] \<or> last (es @ es') = Count_matched 0"
  shows "came_and_went n (es @ es')"
proof -
  obtain m es1 es2 where m: "n \<le> m" and es: "es = es1 @ Count_matched m # es2"
    using assms(1) by (auto simp: saw_matched_def dest: split_list)
  have "last (Count_matched m # es2 @ es') = Count_matched 0" using assms(3) es by simp
  then have "Count_matched 0 \<in> set (es2 @ es')"
    using m assms(2) by (metis count_event.inject last_ConsL last_ConsR last_in_set leD)
  then show ?thesis
    unfolding came_and_went_def by (intro exI [of _ es1] exI [of _ m] exI [of _ "es2 @ es'"]) (use m es in simp)
qed

abbreviation count_stands :: "nat \<Rightarrow> CountState \<Rightarrow> ('v, count_event) atrace \<Rightarrow> bool" where
  "count_stands \<equiv> stands count_listener count_state"

lemma count_total: "\<exists>s'. deliver count_listener es s = Val s'"
proof (induction es arbitrary: s)
  case (Cons e es)
  then show ?case by (cases e) auto
qed simp

lemma count_not_broken [simp]: "\<not> broken count_listener i x tr"
  using count_total [of "events tr" i] by (cases x) auto

lemma wpt_await_matched:
  assumes "count_stands k s tr" and "lets_break count_listener count_state Q" and "0 < n"
    and "\<And>b q s'. idle q \<Longrightarrow> count_stands (k + (timeout + 19) div 20 * 20) s' (q @ tr) \<Longrightarrow> (b \<Longrightarrow> saw_matched n (events (q @ tr)))
      \<Longrightarrow> wpt G Q (f b) s' (q @ tr)"
  shows "wpt G Q (bind_prog (await_matched n timeout) f) s tr"
  unfolding await_matched_def
proof (rule counted.await_tracked [OF reads_load _ assms(1,2), where R = "saw_matched n"])
  show "saw_matched n es" if "count_tracks es s" "\<not> match_count s < n" for es s
    using that assms(3) by (auto simp: count_tracks_def saw_matched_def split: if_splits) (metis last_in_set linorder_not_less)
qed (use assms(4) in \<open>simp add: COUNT_POLL_PERIOD_MS_def add.commute\<close>)

lemma wpt_await_unmatched:
  assumes "count_stands k s tr" and "lets_break count_listener count_state Q" and "saw_matched n (events tr)" and "0 < n"
    and "\<And>b q s'. idle q \<Longrightarrow> count_stands (k + 15000) s' (q @ tr) \<Longrightarrow> (b \<Longrightarrow> came_and_went n (events (q @ tr)))
      \<Longrightarrow> wpt G Q (f b) s' (q @ tr)"
  shows "wpt G Q (bind_prog await_unmatched f) s tr"
  unfolding await_unmatched_def
proof (rule counted.await_tracked [OF reads_load _ assms(1,2), where R = "\<lambda>es. es = [] \<or> last es = Count_matched 0"])
  show "es = [] \<or> last es = Count_matched 0" if "count_tracks es s" "\<not> match_count s \<noteq> 0" for es s
    using that by (auto simp: count_tracks_def split: if_splits)
next
  fix b q s'
  assume "idle q" and "count_stands (k + (COUNT_DRAIN_TIMEOUT_MS + COUNT_POLL_PERIOD_MS - 1) div COUNT_POLL_PERIOD_MS * COUNT_POLL_PERIOD_MS) s' (q @ tr)"
    and "b \<Longrightarrow> events (q @ tr) = [] \<or> last (events (q @ tr)) = Count_matched 0"
  then show "wpt G Q (f b) s' (q @ tr)"
    using saw_then_none [OF assms(3,4), of "events q"]
    by (intro assms(5)) (simp_all add: COUNT_DRAIN_TIMEOUT_MS_def COUNT_POLL_PERIOD_MS_def)
qed

lemma wpt_not_disconnected:
  assumes "count_stands k s tr" and "k \<le> B"
  shows "wpt G (verdict count_listener count_state B P) (not_disconnected dw) s tr"
  unfolding not_disconnected_def Let_def count_writer_matched_def
  by (rule wpt_load_stands [OF assms(1)], simp, (erule wpt_step, simp, simp)+, erule wpt_fail, rule assms(2))

end
