(* ===== verification/Timestamp_Events.thy ===== *)
theory Timestamp_Events
  imports Counted_Writer
begin

text \<open>
  The two programs of the integration test \<open>integration-tests/c/source-timestamp\<close>. The publisher writes five samples and
  disposes of their instance with time stamps of its own making; the subscriber's listener compares the source time
  stamp of everything it takes with them.
\<close>

definition TS_SAMPLE_COUNT :: nat where "TS_SAMPLE_COUNT = 5"
definition WRITE_BASE_SEC :: int where "WRITE_BASE_SEC = 1000000"
definition DISPOSE_SEC :: int where "DISPOSE_SEC = 2000000"
definition DISPOSE_NSEC :: nat where "DISPOSE_NSEC = 123456789"
definition TS_MATCH_TIMEOUT_MS :: nat where "TS_MATCH_TIMEOUT_MS = 20000"
definition TS_RECEIVE_TIMEOUT_MS :: nat where "TS_RECEIVE_TIMEOUT_MS = 20000"
definition TS_POLL_PERIOD_MS :: nat where "TS_POLL_PERIOD_MS = 20"

lemmas ts_constants = TS_SAMPLE_COUNT_def WRITE_BASE_SEC_def DISPOSE_SEC_def DISPOSE_NSEC_def TS_MATCH_TIMEOUT_MS_def
  TS_RECEIVE_TIMEOUT_MS_def TS_POLL_PERIOD_MS_def

record TimestampEvent =
  ts_id :: int
  ts_seq :: int

section \<open>Publisher\<close>

type_synonym 'a ts_pub = "(CountState, TimestampEvent, count_event, 'a) app"

definition write_stamped :: "int \<Rightarrow> int \<Rightarrow> int option ts_pub" where
  "write_stamped dw handle = for_prog 0 TS_SAMPLE_COUNT (\<lambda>seq. let h = count_listener; sec = WRITE_BASE_SEC + int seq in
     sys h (Data (write_w_timestamp dw \<lparr>ts_id = 0, ts_seq = int seq\<rparr> handle (sec, 0))) (\<lambda>r.
       if ret r \<noteq> DDS_RETCODE_OK then fail_out h (''write_w_timestamp() failed at seq='' @ dec seq)
       else say h (''Publisher: wrote seq='' @ dec seq @ '' with explicit timestamp sec='' @ dec_int sec) (Return None)))"

definition no_reader_matched :: "int \<Rightarrow> int ts_pub" where
  "no_reader_matched dw = (let h = count_listener in
     load h match_count (\<lambda>n. count_writer_matched dw (\<lambda>m.
     sys h (eprintf (''  matched: writer listener='' @ dec_int n @ '' status='' @ dec_int m)) (\<lambda>_.
     fail h ''no reader matched within 20s''))))"

definition disposed_line :: string where
  "disposed_line = ''Publisher: disposed instance with explicit timestamp sec='' @ dec_int DISPOSE_SEC @ '' nanosec='' @ dec DISPOSE_NSEC"

definition timestamp_publisher :: "string list \<Rightarrow> int ts_pub" where
  "timestamp_publisher argv = (let h = count_listener; key = \<lparr>ts_id = 0, ts_seq = 0\<rparr> in
     open_participant h argv ''TimestampEvent'' ''register_type_support failed'' (\<lambda>factory dp.
     need h (Entity (create_topic dp ''TimestampEvent'' ''TimestampEvent'')) ''create_topic() failed'' (\<lambda>topic.
     say h ''Create topic: TimestampEvent'' (
     need h (Entity (create_publisher dp)) ''create_publisher() failed'' (\<lambda>pub.
     sys h (Entity (get_default_datawriter_qos pub)) (\<lambda>wq.
     Put count_state (
     need h (Entity (create_datawriter_listening pub topic (reliable_keep_all (num wq)))) ''create_datawriter() failed'' (\<lambda>dw.
     say h ''Create writer for topic: TimestampEvent'' (
     bind_prog (await_matched 1 TS_MATCH_TIMEOUT_MS) (\<lambda>matched.
     if \<not> matched then no_reader_matched dw
     else sys h (Data (register_instance dw key)) (\<lambda>handle.
     bind_prog (write_stamped dw (ret handle)) (\<lambda>x. leave_or x (
     check h (Data (dispose_w_timestamp dw key (ret handle) (DISPOSE_SEC, DISPOSE_NSEC))) ''dispose_w_timestamp() failed'' (
     say h disposed_line (
     bind_prog await_unmatched (\<lambda>gone.
     if \<not> gone then not_disconnected dw
     else say h ''Publisher: done.'' (
     sys h (Entity (zzdds_destroy_factory factory)) (\<lambda>_. Return 0))))))))))))))))))"

section \<open>Subscriber\<close>

text \<open>\<open>ts_checking\<close> is the listener's own: the time stamp of a disposal that it has stored and not yet compared.
  \<open>ts_out\<close> is what the listener has printed on the standard output, oldest first.\<close>

record TsSubState =
  ts_reader :: bool
  alive_received :: "bool list"
  alive_count :: nat
  dispose_received :: bool
  dispose_timestamp_ok :: bool
  ts_checking :: "(int \<times> nat) option"
  ts_out :: "string list"

definition ts_sub_state :: TsSubState where
  "ts_sub_state = \<lparr>ts_reader = False, alive_received = replicate TS_SAMPLE_COUNT False, alive_count = 0,
     dispose_received = False, dispose_timestamp_ok = False, ts_checking = None, ts_out = []\<rparr>"

text \<open>\<open>Ts_taken\<close> is one iteration of the loop of \<open>on_data_available\<close>: what its \<open>take\<close> returned, with \<open>valid_data\<close>, \<open>instance_state\<close>
  and \<open>source_timestamp\<close>. For a disposal the iteration stores \<open>dispose_received\<close> before it compares the time stamp, and \<open>main\<close> may
  run in between: the comparison is the next thing the listener does, with the next \<open>Ts_taken\<close> or, alone, with \<open>Ts_checked\<close>.\<close>

datatype ts_event =
    Ts_taken (ts_rc: int) (ts_value: int) (ts_valid: bool) (ts_instance: nat) (ts_stamp: "int \<times> nat")
  | Ts_checked

definition check_disposal :: "TsSubState \<Rightarrow> TsSubState outcome" where
  "check_disposal state = (case ts_checking state of
      None \<Rightarrow> Val state
    | Some stamp \<Rightarrow> if fst stamp = DISPOSE_SEC \<and> snd stamp = DISPOSE_NSEC
        then Val (state\<lparr>dispose_timestamp_ok := True, ts_checking := None\<rparr>)
        else Exit 1)"

definition received_line :: "int \<Rightarrow> int \<Rightarrow> string" where
  "received_line seq sec = ''Subscriber: received seq='' @ dec_int seq @ '' with source_timestamp sec='' @ dec_int sec
     @ '' matching the explicit write timestamp.''"

definition ts_take :: "int \<Rightarrow> int \<Rightarrow> bool \<Rightarrow> nat \<Rightarrow> int \<times> nat \<Rightarrow> TsSubState \<Rightarrow> TsSubState outcome" where
  "ts_take rc seq valid instance stamp state =
     (if \<not> ts_reader state then Crash ''take through a null reader''
      else if rc = DDS_RETCODE_NO_DATA then Val state
      else if rc \<noteq> DDS_RETCODE_OK then Exit 1
      else if valid
      then if seq < 0 \<or> seq \<ge> int TS_SAMPLE_COUNT then Exit 1
           else if fst stamp \<noteq> WRITE_BASE_SEC + seq \<or> snd stamp \<noteq> 0 then Exit 1
           else if nat seq \<ge> length (alive_received state) then Crash ''alive_received''
           else let state = state\<lparr>ts_out := ts_out state @ [received_line seq (fst stamp)]\<rparr>
             in if \<not> alive_received state ! nat seq
                then Val (state\<lparr>alive_received := (alive_received state)[nat seq := True], alive_count := alive_count state + 1\<rparr>)
                else Val state
      else if instance = DDS_NOT_ALIVE_DISPOSED_INSTANCE_STATE
      then Val (state\<lparr>dispose_received := True, ts_checking := Some stamp\<rparr>)
      else Val state)"

fun ts_on_data_available :: "(ts_event, TsSubState) handler" where
  "ts_on_data_available Ts_checked state = check_disposal state"
| "ts_on_data_available (Ts_taken rc seq valid instance stamp) state =
     (case check_disposal state of Val state' \<Rightarrow> ts_take rc seq valid instance stamp state'
      | Exit n \<Rightarrow> Exit n | Crash m \<Rightarrow> Crash m | OutOfFuel \<Rightarrow> OutOfFuel)"

type_synonym 'a ts_sub = "(TsSubState, TimestampEvent, ts_event, 'a) app"

definition ts_reader_matched :: "int \<Rightarrow> (int \<Rightarrow> 'a ts_sub) \<Rightarrow> 'a ts_sub" where
  "ts_reader_matched dr k = sys ts_on_data_available (Query (get_subscription_matched_status dr)) (\<lambda>r.
     k (if ret r = DDS_RETCODE_OK then num r else - 1))"

definition ts_not_received :: "int \<Rightarrow> int ts_sub" where
  "ts_not_received dr = (let h = ts_on_data_available in
     ts_reader_matched dr (\<lambda>m.
     sys h (eprintf (''  matched: reader='' @ dec_int m)) (\<lambda>_.
     load h alive_count (\<lambda>n. load h dispose_received (\<lambda>d.
     fail h (''only received '' @ dec n @ ''/5 alive samples and dispose_received='' @ (if d then ''1'' else ''0'') @ '' within 20s''))))))"

abbreviation never_ok_line :: string where
  "never_ok_line \<equiv> ''dispose sample was received but its timestamp never matched (should have exited already)''"

definition timestamp_subscriber :: "string list \<Rightarrow> int ts_sub" where
  "timestamp_subscriber argv = (let h = ts_on_data_available in
     open_participant h argv ''TimestampEvent'' ''register_type_support failed'' (\<lambda>factory dp.
     need h (Entity (create_topic dp ''TimestampEvent'' ''TimestampEvent'')) ''create_topic() failed'' (\<lambda>topic.
     say h ''Create topic: TimestampEvent'' (
     need h (Entity (create_subscriber dp)) ''create_subscriber() failed'' (\<lambda>sub.
     sys h (Entity (get_default_datareader_qos sub)) (\<lambda>rq.
     Put ts_sub_state (
     need h (Entity (create_datareader sub topic (reliable_keep_all (num rq)) False)) ''create_datareader() failed'' (\<lambda>dr.
     say h ''Create reader for topic: TimestampEvent'' (
     Get (\<lambda>s. Put (s\<lparr>ts_reader := True\<rparr>) (
     check h (Entity (set_listener dr)) ''set_listener() failed'' (
     say h ''Subscriber: ready.'' (
     bind_prog (poll h TS_POLL_PERIOD_MS TS_RECEIVE_TIMEOUT_MS (load_all h [\<lambda>s. \<not> alive_count s < TS_SAMPLE_COUNT, dispose_received])) (\<lambda>b.
     if \<not> b then ts_not_received dr
     else load h dispose_timestamp_ok (\<lambda>ok.
     if \<not> ok then fail h never_ok_line
     else say h ''Subscriber: received disposed instance with source_timestamp matching the explicit dispose timestamp.'' (
     say h ''Subscriber: done.'' (
     sys h (Entity (zzdds_destroy_factory factory)) (\<lambda>_. Return 0))))))))))))))))))"

end
