(* ===== verification/Timestamp_Contracts.thy ===== *)
theory Timestamp_Contracts
  imports Timestamp_Events Example_Publisher
begin

text \<open>
  The contracts of the two source-timestamp programs and their composition: a subscriber that is handed what the
  publisher wrote, with the time stamps it was written with, does not fail on the data.
\<close>

section \<open>Publisher\<close>

definition stamped_write :: "int \<Rightarrow> int \<Rightarrow> nat \<Rightarrow> TimestampEvent data_call" where
  "stamped_write dw handle k = write_w_timestamp dw \<lparr>ts_id = 0, ts_seq = int k\<rparr> handle (1000000 + int k, 0)"

definition wrote_line :: "nat \<Rightarrow> string" where
  "wrote_line k = ''Publisher: wrote seq='' @ dec k @ '' with explicit timestamp sec='' @ dec_int (1000000 + int k)"

definition wrote_stamped :: "int \<Rightarrow> int \<Rightarrow> nat \<Rightarrow> (TimestampEvent, count_event) atrace \<Rightarrow> bool" where
  "wrote_stamped dw handle n q \<longleftrightarrow> only data_op q = map (stamped_write dw handle) [0..<n]
     \<and> only printed q = map wrote_line [0..<n] \<and> only destroyed q = []"

definition stamps_published :: "(TimestampEvent, count_event) atrace \<Rightarrow> bool" where
  "stamps_published tr \<longleftrightarrow> (\<exists>dw handle.
     only data_op tr = register_instance dw \<lparr>ts_id = 0, ts_seq = 0\<rparr> # map (stamped_write dw handle) [0..<5]
       @ [dispose_w_timestamp dw \<lparr>ts_id = 0, ts_seq = 0\<rparr> handle (2000000, 123456789)]
     \<and> (\<exists>r. (Data (register_instance dw \<lparr>ts_id = 0, ts_seq = 0\<rparr>), r) \<in> set tr \<and> ret r = handle))
     \<and> before is_write (\<lambda>tr. saw_matched 1 (events tr)) tr \<and> came_and_went 1 (events tr)
     \<and> only printed tr = [''Create topic: TimestampEvent'', ''Create writer for topic: TimestampEvent''] @ map wrote_line [0..<5]
         @ [disposed_line, ''Publisher: done.'']
     \<and> closes tr"

lemma wpt_write_stamped:
  assumes "count_stands k s tr" and "k \<le> B"
    and "\<And>s' q. count_stands k s' (q @ tr) \<Longrightarrow> wrote_stamped dw handle 5 q \<Longrightarrow> wpt G (verdict count_listener count_state B P) p s' (q @ tr)"
  shows "wpt G (verdict count_listener count_state B P) (bind_prog (write_stamped dw handle) (\<lambda>x. leave_or x p)) s tr"
  unfolding write_stamped_def Let_def
proof (rule wpt_main_loop [where J = "wrote_stamped dw handle"])
  fix n s' q
  assume s': "count_stands k s' (q @ tr)" and q: "wrote_stamped dw handle n q"
  show "wpt G (iteration count_listener count_state B P k tr (wrote_stamped dw handle (Suc n)))
     (sys count_listener (Data (write_w_timestamp dw \<lparr>ts_id = 0, ts_seq = int n\<rparr> handle (WRITE_BASE_SEC + int n, 0))) (\<lambda>r.
       if ret r \<noteq> DDS_RETCODE_OK then fail_out count_listener (''write_w_timestamp() failed at seq='' @ dec n)
       else say count_listener (''Publisher: wrote seq='' @ dec n @ '' with explicit timestamp sec='' @ dec_int (WRITE_BASE_SEC + int n)) (Return None))) s' (q @ tr)"
    apply (rule wpt_step [OF s'], simp, simp, rule wpt_ifI, erule wpt_fail_out, rule assms(2))
    apply (erule wpt_step, simp, simp, erule wpt_continue)
    using q apply (simp flip: append_Cons, simp add: wrote_stamped_def stamped_write_def wrote_line_def WRITE_BASE_SEC_def)
    done
qed (use assms in \<open>simp_all add: wrote_stamped_def TS_SAMPLE_COUNT_def\<close>)

lemma saw_before:
  assumes "before is_write (\<lambda>tr. saw_matched n (events tr)) tr" and "saw_matched n (events tr)"
  shows "before is_write (\<lambda>tr. saw_matched n (events tr)) (q @ tr)"
  using assms(1) by (rule before_append) (simp add: assms(2) saw_matched_append)

lemma stamps_published_trace:
  assumes t: "only data_op tr = []" "only destroyed tr = []" "before is_write (\<lambda>tr. saw_matched 1 (events tr)) tr"
      "only printed tr = [''Create topic: TimestampEvent'', ''Create writer for topic: TimestampEvent'']"
      "\<exists>r. (Entity zzdds_create_factory, r) \<in> set tr \<and> ret r = f"
    and q: "idle q1" "saw_matched 1 (events (q1 @ tr))" "wrote_stamped dw (ret r0) 5 q2" "idle q3"
      "came_and_went 1 (events (q3 @ (printf disposed_line, r2)
        # (Data (dispose_w_timestamp dw \<lparr>ts_id = 0, ts_seq = 0\<rparr> (ret r0) (2000000, 123456789)), r1) # q2
        @ (Data (register_instance dw \<lparr>ts_id = 0, ts_seq = 0\<rparr>), r0) # q1 @ tr))"
  shows "stamps_published ((Entity (zzdds_destroy_factory f), r4) # (printf ''Publisher: done.'', r3) # q3
        @ (printf disposed_line, r2)
        # (Data (dispose_w_timestamp dw \<lparr>ts_id = 0, ts_seq = 0\<rparr> (ret r0) (2000000, 123456789)), r1) # q2
        @ (Data (register_instance dw \<lparr>ts_id = 0, ts_seq = 0\<rparr>), r0) # q1 @ tr)"
proof -
  let ?reg = "(Data (register_instance dw \<lparr>ts_id = 0, ts_seq = 0\<rparr>), r0)"
  let ?p = "(printf disposed_line, r2)
        # (Data (dispose_w_timestamp dw \<lparr>ts_id = 0, ts_seq = 0\<rparr> (ret r0) (2000000, 123456789)), r1) # q2 @ [?reg]"
  let ?fin = "[(Entity (zzdds_destroy_factory f), r4), (printf ''Publisher: done.'', r3)]"
  let ?tr = "(?fin @ q3 @ ?p) @ q1 @ tr"
  have "before is_write (\<lambda>tr. saw_matched 1 (events tr)) (q1 @ tr)"
    using t(3) idle_not_write [OF q(1)] by (rule before_other)
  then have b: "before is_write (\<lambda>tr. saw_matched 1 (events tr)) ?tr"
    using q(2) by (rule saw_before)
  have w: "came_and_went 1 (events ?tr)"
    using came_and_went_append [OF q(5), of "events ?fin"] by simp
  have c: "closes ?tr"
    using t q by (auto simp: wrote_stamped_def intro!: closesI)
  have o: "only data_op ?tr = register_instance dw \<lparr>ts_id = 0, ts_seq = 0\<rparr> # map (stamped_write dw (ret r0)) [0..<5]
       @ [dispose_w_timestamp dw \<lparr>ts_id = 0, ts_seq = 0\<rparr> (ret r0) (2000000, 123456789)]"
    using t q by (simp add: wrote_stamped_def)
  have p: "only printed ?tr = [''Create topic: TimestampEvent'', ''Create writer for topic: TimestampEvent''] @ map wrote_line [0..<5]
         @ [disposed_line, ''Publisher: done.'']"
    using t q by (simp add: wrote_stamped_def)
  have "?reg \<in> set ?tr" by simp
  with b w c o p have "stamps_published ?tr" unfolding stamps_published_def by blast
  then show ?thesis by simp
qed

lemma timestamp_publisher_wpt:
  "wpt (listening installs_listening) (verdict count_listener count_state 35000 (\<lambda>_. stamps_published)) (timestamp_publisher argv) s []"
  unfolding timestamp_publisher_def Let_def no_reader_matched_def count_writer_matched_def
  apply (rule wpt_open_participant [OF heeds_installs_listening setup_not_listening], assumption)
  apply (rule early_listening, assumption, simp)+
  apply (rule wpt_PutI, rule wpt_need, erule early_stands, simp)
  apply (erule wpt_step, simp, simp)
  apply (erule wpt_await_matched, simp, simp, rule wpt_ifI)
   apply (erule wpt_load_stands, simp, (erule wpt_step, simp, simp)+, erule wpt_fail, simp add: TS_MATCH_TIMEOUT_MS_def)
  apply (erule wpt_step, simp, simp)
  apply (erule wpt_write_stamped, simp add: TS_MATCH_TIMEOUT_MS_def)
  apply (erule wpt_check, simp add: TS_MATCH_TIMEOUT_MS_def)
  apply (erule wpt_step, simp, simp)
  apply (erule wpt_await_unmatched [where n = 1], simp)
    apply (auto simp: saw_matched_def) [1]
   apply (simp; fail)
  apply (rule wpt_ifI, erule wpt_not_disconnected, simp add: TS_MATCH_TIMEOUT_MS_def)
  apply (erule wpt_step, simp, simp)+
  apply (simp add: verdict_def stands_def TS_MATCH_TIMEOUT_MS_def)
  apply (simp add: DISPOSE_SEC_def DISPOSE_NSEC_def)
  apply (rule stamps_published_trace)
  apply (simp_all add: opened_no_write opened_factory)
  done

text \<open>C18. The publisher of the source-timestamp test, against an arbitrary middleware that calls no listener before it is
  installed: it sleeps 35 seconds at most and ends with 1 right after a \<open>FAIL:\<close> line, or with 0. With 0 its operations on samples
  were exactly the registration of the one instance, the five writes with the handle the registration returned and the
  time stamps 1000000 s to 1000004 s, and the disposal with 2000000.123456789 s, in this order; a reader had been matched before the
  first write and all had gone again at the end; the documented lines were printed and the factory was destroyed last.\<close>

theorem timestamp_publisher_contract:
  assumes "\<And>tr c. listening installs_listening tr c (env tr c)"
  shows "case run env (timestamp_publisher argv) s [] of (x, s', tr) \<Rightarrow>
    slept tr \<le> 35000 \<and> (x = Val 1 \<and> failed tr \<or> x = Val 0 \<and> stamps_published tr)"
  using wpt_run_result [where e = env, OF timestamp_publisher_wpt assms, of argv s]
  by (simp add: verdict_def split_beta) blast

text \<open>Every call succeeds; a reader comes while the writer is created and goes with the disposal.\<close>

fun stamp_env :: "(TimestampEvent app_call, (TimestampEvent, count_event) answer) env" where
  "stamp_env tr (Entity (create_datawriter_listening p t q)) = answers 7 [Count_matched 1]"
| "stamp_env tr (Data (dispose_w_timestamp w v h ts)) = answers 0 (if list_ex (installs_listening \<circ> fst) tr then [Count_matched 0] else [])"
| "stamp_env tr (Data (register_instance w v)) = answers 9 []"
| "stamp_env tr (Entity (create_topic dp name type)) = answers 1 []"
| "stamp_env tr (Entity (create_participant f d)) = answers 1 []"
| "stamp_env tr (Entity (create_publisher dp)) = answers 1 []"
| "stamp_env tr c = answers 0 []"

lemma stamp_env_listens: "listening installs_listening tr c (stamp_env tr c)"
  by (cases "(tr, c)" rule: stamp_env.cases) (auto simp: listening_def answers_def list_ex_iff)

lemma timestamp_publisher_run: "fst (run stamp_env (timestamp_publisher [''p'']) count_state []) = Val 0"
  by (simp add: evaluate timestamp_publisher_def await_matched_def await_unmatched_def write_stamped_def
     TS_SAMPLE_COUNT_def TS_MATCH_TIMEOUT_MS_def COUNT_POLL_PERIOD_MS_def COUNT_DRAIN_TIMEOUT_MS_def count_state_def)

theorem timestamp_publisher_contract_witness:
  "case run stamp_env (timestamp_publisher [''p'']) count_state [] of (x, s', tr) \<Rightarrow>
    slept tr \<le> 35000 \<and> x = Val 0 \<and> stamps_published tr"
  using timestamp_publisher_contract [OF stamp_env_listens, of "[''p'']" count_state] timestamp_publisher_run
  by (auto simp: split_beta)

section \<open>Subscriber\<close>

text \<open>What the listener accepts: an empty take, a sample with the time stamp of its number, a disposal with its own.\<close>

fun stamp_ok :: "ts_event \<Rightarrow> bool" where
  "stamp_ok Ts_checked \<longleftrightarrow> True"
| "stamp_ok (Ts_taken rc seq valid instance stamp) \<longleftrightarrow> rc = DDS_RETCODE_NO_DATA \<or> rc = DDS_RETCODE_OK \<and>
     (if valid then 0 \<le> seq \<and> seq < 5 \<and> stamp = (1000000 + seq, 0)
      else instance = DDS_NOT_ALIVE_DISPOSED_INSTANCE_STATE \<longrightarrow> stamp = (2000000, 123456789))"

definition ts_attached :: TsSubState where
  "ts_attached = ts_sub_state\<lparr>ts_reader := True\<rparr>"

definition alive_seen :: "ts_event list \<Rightarrow> nat \<Rightarrow> bool" where
  "alive_seen es k \<longleftrightarrow> (\<exists>i. Ts_taken DDS_RETCODE_OK (int k) True i (1000000 + int k, 0) \<in> set es)"

abbreviation Disposal :: "int \<Rightarrow> int \<times> nat \<Rightarrow> ts_event" where
  "Disposal v stamp \<equiv> Ts_taken DDS_RETCODE_OK v False DDS_NOT_ALIVE_DISPOSED_INSTANCE_STATE stamp"

definition disposal_seen :: "ts_event list \<Rightarrow> bool" where
  "disposal_seen es \<longleftrightarrow> (\<exists>v. Disposal v (2000000, 123456789) \<in> set es)"

text \<open>Only the last event can be a disposal with another time stamp, whose comparison is still to come.\<close>

definition ts_tracks :: "ts_event list \<Rightarrow> TsSubState \<Rightarrow> bool" where
  "ts_tracks es s \<longleftrightarrow> ts_reader s \<and> length (alive_received s) = 5
     \<and> (\<forall>k<5. alive_received s ! k \<longrightarrow> alive_seen es k) \<and> alive_count s = card {k. k < 5 \<and> alive_received s ! k}
     \<and> (dispose_timestamp_ok s \<longrightarrow> disposal_seen es)
     \<and> (case ts_checking s of None \<Rightarrow> list_all stamp_ok es
        | Some stamp \<Rightarrow> \<exists>es0 v. es = es0 @ [Disposal v stamp] \<and> list_all stamp_ok es0)"

lemma card_marked:
  assumes "length xs = n" and "k < n" and "\<not> xs ! k"
  shows "card {j. j < n \<and> xs[k := True] ! j} = Suc (card {j. j < n \<and> xs ! j})"
proof -
  have "{j. j < n \<and> xs[k := True] ! j} = insert k {j. j < n \<and> xs ! j}"
    using assms by (auto simp: nth_list_update)
  then show ?thesis using assms by (simp add: card_insert_disjoint)
qed

lemma all_marked:
  assumes "n \<le> card {k. k < n \<and> P k}" and "k < n"
  shows "P k"
proof -
  have "{k. k < n \<and> P k} = {k. k < n}"
    using assms(1) by (intro card_subset_eq) (auto intro: le_antisym card_mono [of "{k. k < n}" "{k. k < n \<and> P k}", simplified])
  then show ?thesis using assms(2) by auto
qed

lemma seen_append:
  "alive_seen es k \<Longrightarrow> alive_seen (es @ es') k" "disposal_seen es \<Longrightarrow> disposal_seen (es @ es')"
  by (auto simp: alive_seen_def disposal_seen_def)

text \<open>The comparison settles the last disposal.\<close>

lemma check_disposal_tracks:
  assumes "ts_tracks es s" and "check_disposal s = Val s'"
  shows "ts_tracks es s'" "ts_checking s' = None" "list_all stamp_ok es"
proof -
  have "ts_tracks es s' \<and> ts_checking s' = None \<and> list_all stamp_ok es"
  proof (cases "ts_checking s")
    case None
    then show ?thesis using assms by (auto simp: check_disposal_def ts_tracks_def)
  next
    case (Some stamp)
    then obtain es0 v where "es = es0 @ [Disposal v stamp]" "list_all stamp_ok es0" using assms(1) by (auto simp: ts_tracks_def)
    then show ?thesis
      using assms Some by (cases stamp) (auto simp: check_disposal_def ts_tracks_def DISPOSE_SEC_def DISPOSE_NSEC_def disposal_seen_def split: if_splits)
  qed
  then show "ts_tracks es s'" "ts_checking s' = None" "list_all stamp_ok es" by auto
qed

text \<open>The three ways in which an iteration of the listener goes on.\<close>

lemma ts_take_cases:
  assumes "ts_take rc seq valid i stamp s = Val s'" and "length (alive_received s) = 5"
  obtains (same) lines where "s' = s\<lparr>ts_out := lines\<rparr>" "stamp_ok (Ts_taken rc seq valid i stamp)"
    | (alive) j lines where "j < 5" "\<not> alive_received s ! j" "stamp_ok (Ts_taken rc seq valid i stamp)" "alive_seen [Ts_taken rc seq valid i stamp] j"
        "s' = s\<lparr>ts_out := lines, alive_received := (alive_received s)[j := True], alive_count := Suc (alive_count s)\<rparr>"
    | (disposal) "Ts_taken rc seq valid i stamp = Disposal seq stamp" "s' = s\<lparr>dispose_received := True, ts_checking := Some stamp\<rparr>"
proof -
  obtain sec nsec where e: "stamp = (sec, nsec)" by fastforce
  consider "rc = DDS_RETCODE_NO_DATA" | "rc \<noteq> DDS_RETCODE_NO_DATA" "valid" | "rc \<noteq> DDS_RETCODE_NO_DATA" "\<not> valid" by blast
  then show ?thesis
  proof cases
    case 1
    then show ?thesis using assms same [of "ts_out s"] by (simp add: ts_take_def split: if_splits)
  next
    case 2
    then have "0 \<le> seq" "seq < 5" "rc = DDS_RETCODE_OK" "sec = 1000000 + seq" "nsec = 0"
      using assms by (auto simp: ts_take_def e TS_SAMPLE_COUNT_def WRITE_BASE_SEC_def split: if_splits)
    then show ?thesis
      using assms 2 same [of "ts_out s @ [received_line seq sec]"] alive [of "nat seq" "ts_out s @ [received_line seq sec]"]
      by (auto simp: ts_take_def e TS_SAMPLE_COUNT_def WRITE_BASE_SEC_def alive_seen_def Let_def split: if_splits)
  next
    case 3
    then show ?thesis
      using assms same [of "ts_out s"] disposal by (auto simp: ts_take_def split: if_splits)
  qed
qed

lemma ts_take_tracks:
  assumes t: "ts_tracks es s" "ts_checking s = None" and step: "ts_take rc seq valid i stamp s = Val s'"
  shows "ts_tracks (es @ [Ts_taken rc seq valid i stamp]) s'"
proof -
  let ?e = "Ts_taken rc seq valid i stamp"
  have "length (alive_received s) = 5" using t(1) by (simp add: ts_tracks_def)
  with step show ?thesis
  proof (cases rule: ts_take_cases)
    case same
    then show ?thesis using t seen_append by (auto simp: ts_tracks_def)
  next
    case (alive j)
    have "alive_seen (es @ [?e]) j" using alive(4) by (auto simp: alive_seen_def)
    then show ?thesis
      using alive t seen_append card_marked [of "alive_received s" 5 j] by (auto simp: ts_tracks_def nth_list_update)
  next
    case disposal
    then show ?thesis using t seen_append unfolding disposal(1) by (auto simp: ts_tracks_def)
  qed
qed

interpretation ts: tracked_listener ts_on_data_available ts_attached ts_tracks
proof unfold_locales
  show "ts_tracks [] ts_attached"
    by (simp add: ts_tracks_def ts_attached_def ts_sub_state_def TS_SAMPLE_COUNT_def)
next
  fix es s e s'
  assume t: "ts_tracks es s" and step: "ts_on_data_available e s = Val s'"
  show "ts_tracks (es @ [e]) s'"
  proof (cases e)
    case Ts_checked
    have "check_disposal s = Val s'" using step Ts_checked by simp
    from check_disposal_tracks [OF t this] show ?thesis using Ts_checked seen_append by (auto simp: ts_tracks_def)
  next
    case (Ts_taken rc seq valid i stamp)
    then obtain s1 where s1: "check_disposal s = Val s1" "ts_take rc seq valid i stamp s1 = Val s'"
      using step by (auto split: outcome.splits)
    note c = check_disposal_tracks [OF t s1(1)]
    show ?thesis unfolding Ts_taken by (rule ts_take_tracks [OF c(1,2) s1(2)])
  qed
qed

text \<open>The lines of the listener: one for every valid sample it took.\<close>

fun said :: "ts_event \<Rightarrow> string option" where
  "said Ts_checked = None"
| "said (Ts_taken rc seq valid i stamp) = (if rc = DDS_RETCODE_OK \<and> valid then Some (received_line seq (fst stamp)) else None)"

definition said_lines :: "ts_event list \<Rightarrow> string list" where
  "said_lines = List.map_filter said"

lemma said_lines_snoc: "said_lines (es @ [e]) = said_lines es @ (case said e of None \<Rightarrow> [] | Some line \<Rightarrow> [line])"
  by (simp add: said_lines_def List.map_filter_def split: option.split)

interpretation ts_lines: tracked_listener ts_on_data_available ts_attached "\<lambda>es s. ts_out s = said_lines es"
proof unfold_locales
  show "ts_out ts_attached = said_lines []"
    by (simp add: ts_attached_def ts_sub_state_def said_lines_def List.map_filter_def)
next
  have checked: "ts_out s1 = ts_out s" if "check_disposal s = Val s1" for s s1
    using that by (auto simp: check_disposal_def split: option.splits if_splits)
  have taken: "ts_out s' = ts_out s1 @ (case said (Ts_taken rc seq valid i stamp) of None \<Rightarrow> [] | Some line \<Rightarrow> [line])"
    if "ts_take rc seq valid i stamp s1 = Val s'" for rc seq valid i stamp s1 s'
    using that by (auto simp: ts_take_def Let_def DDS_RETCODE_NO_DATA_def split: if_splits)
  fix es s e s'
  assume "ts_out s = said_lines es" and "ts_on_data_available e s = Val s'"
  then show "ts_out s' = said_lines (es @ [e])"
    using checked taken by (cases e) (auto simp: said_lines_snoc split: outcome.splits)
qed

text \<open>The listener never reads or writes past its array, and it ends the process only when it sees something else.\<close>

definition ts_sound :: "TsSubState \<Rightarrow> bool" where
  "ts_sound s \<longleftrightarrow> ts_reader s \<and> length (alive_received s) = 5"

lemma ts_step_outcome:
  assumes "ts_sound s"
  shows "(\<exists>s'. ts_on_data_available e s = Val s' \<and> ts_sound s') \<or> ts_on_data_available e s = Exit 1"
proof -
  have c: "(\<exists>s'. check_disposal s = Val s' \<and> ts_sound s') \<or> check_disposal s = Exit 1"
    using assms by (simp add: ts_sound_def check_disposal_def split: option.split)
  have t: "(\<exists>s'. ts_take rc seq valid i stamp s1 = Val s' \<and> ts_sound s') \<or> ts_take rc seq valid i stamp s1 = Exit 1"
    if "ts_sound s1" for rc seq valid i stamp s1
    using that by (simp add: ts_sound_def ts_take_def TS_SAMPLE_COUNT_def Let_def) auto
  show ?thesis using c t by (cases e) (fastforce split: outcome.split)+
qed

lemma ts_deliver:
  assumes "ts_sound s"
  shows "(\<exists>s'. deliver ts_on_data_available es s = Val s') \<or> deliver ts_on_data_available es s = Exit 1"
  using assms
proof (induction es arbitrary: s)
  case (Cons e es)
  then show ?case using ts_step_outcome [OF Cons.prems, of e] Cons.IH by (elim disjE exE conjE) simp_all
qed simp

definition fine_so_far :: "TsSubState \<Rightarrow> bool" where
  "fine_so_far s \<longleftrightarrow> ts_sound s \<and> ts_checking s \<in> {None, Some (2000000, 123456789)}"

lemma ts_deliver_fine:
  "fine_so_far s \<Longrightarrow> list_all stamp_ok es \<Longrightarrow> \<exists>s'. deliver ts_on_data_available es s = Val s'"
proof (induction es arbitrary: s)
  case (Cons e es)
  have "\<exists>s'. ts_on_data_available e s = Val s' \<and> fine_so_far s'"
  proof (cases e)
    case Ts_checked
    then show ?thesis
      using Cons.prems by (auto simp: fine_so_far_def ts_sound_def check_disposal_def DISPOSE_SEC_def DISPOSE_NSEC_def)
  next
    case (Ts_taken rc seq valid i stamp)
    have "\<exists>s1. check_disposal s = Val s1 \<and> ts_checking s1 = None \<and> ts_sound s1"
      using Cons.prems by (auto simp: fine_so_far_def ts_sound_def check_disposal_def DISPOSE_SEC_def DISPOSE_NSEC_def)
    then show ?thesis
      using Cons.prems(2) by (auto simp: Ts_taken fine_so_far_def ts_sound_def ts_take_def TS_SAMPLE_COUNT_def WRITE_BASE_SEC_def Let_def)
  qed
  then show ?case using Cons by auto
qed simp

lemma ts_attached_fine: "fine_so_far ts_attached"
  by (simp add: fine_so_far_def ts_sound_def ts_attached_def ts_sub_state_def TS_SAMPLE_COUNT_def)

lemma ts_broken:
  assumes "broken ts_on_data_available ts_attached x tr"
  shows "x = Exit 1 \<and> \<not> list_all stamp_ok (events tr)"
  using assms ts_attached_fine ts_deliver [of ts_attached "events tr"] ts_deliver_fine [of ts_attached "events tr"]
  by (cases x) (auto simp: fine_so_far_def)

definition stamps_received :: "(TimestampEvent, ts_event) atrace \<Rightarrow> bool" where
  "stamps_received tr \<longleftrightarrow> list_all stamp_ok (butlast (events tr)) \<and> (\<forall>k<5. alive_seen (events tr) k) \<and> disposal_seen (events tr)
     \<and> only printed tr = [''Create topic: TimestampEvent'', ''Create reader for topic: TimestampEvent'', ''Subscriber: ready.'',
         ''Subscriber: received disposed instance with source_timestamp matching the explicit dispose timestamp.'', ''Subscriber: done.'']
     \<and> closes tr"

text \<open>The output of the listener is the line of each sample it took, and every sample's line is in it.\<close>

definition heard_all :: "TsSubState \<Rightarrow> (TimestampEvent, ts_event) atrace \<Rightarrow> bool" where
  "heard_all s tr \<longleftrightarrow> ts_out s = said_lines (events tr)
     \<and> list_all (\<lambda>k. ''Subscriber: received seq='' @ dec k @ '' with source_timestamp sec='' @ dec (1000000 + k)
          @ '' matching the explicit write timestamp.'' \<in> set (ts_out s)) [0..<5]"

lemma heard_allI:
  assumes "synced ts_on_data_available ts_attached s tr" and "stamps_received tr"
  shows "heard_all s tr"
proof -
  have out: "ts_out s = said_lines (events tr)" by (rule ts_lines.tracks_synced [OF assms(1)])
  have "received_line (int k) (int (1000000 + k)) \<in> set (said_lines (events tr))" if k: "k < 5" for k
  proof -
    obtain i where i: "Ts_taken DDS_RETCODE_OK (int k) True i (1000000 + int k, 0) \<in> set (events tr)"
      using assms(2) k unfolding stamps_received_def alive_seen_def by blast
    then show ?thesis by (force simp: said_lines_def List.map_filter_def)
  qed
  then show ?thesis using out by (auto simp: heard_all_def list_all_iff received_line_def dec_int_def nat_add_distrib)
qed

lemma ts_turn:
  assumes "in_turn ts_on_data_available ts_attached [\<lambda>s. \<not> alive_count s < TS_SAMPLE_COUNT, dispose_received] [] es"
  shows "\<forall>k<5. alive_seen es k"
proof -
  obtain es1 es2 s1 where t: "ts_tracks es1 s1" "\<not> alive_count s1 < TS_SAMPLE_COUNT" and sub: "set es1 \<union> set es2 \<subseteq> set es"
    using ts.in_turn_pair_tracked [OF assms] by blast
  have "alive_seen es1 k" if "k < 5" for k
    using t(1,2) all_marked [of 5 "\<lambda>k. alive_received s1 ! k", OF _ that] that by (auto simp: ts_tracks_def TS_SAMPLE_COUNT_def)
  then show ?thesis using sub by (fastforce simp: alive_seen_def)
qed

abbreviation ts_stands :: "nat \<Rightarrow> TsSubState \<Rightarrow> (TimestampEvent, ts_event) atrace \<Rightarrow> bool" where
  "ts_stands \<equiv> stands ts_on_data_available ts_attached"

lemma wpt_await_stamps:
  assumes "ts_stands 0 s tr" and "lets_break ts_on_data_available ts_attached Q"
    and "\<And>b q s'. idle q \<Longrightarrow> ts_stands 20000 s' (q @ tr)
      \<Longrightarrow> (b \<Longrightarrow> \<forall>k<5. alive_seen (events (q @ tr)) k) \<Longrightarrow> wpt G Q (f b) s' (q @ tr)"
  shows "wpt G Q (bind_prog (poll ts_on_data_available TS_POLL_PERIOD_MS TS_RECEIVE_TIMEOUT_MS
     (load_all ts_on_data_available [\<lambda>s. \<not> alive_count s < TS_SAMPLE_COUNT, dispose_received])) f) s tr"
  by (rule wpt_await_sees [OF sees_all assms(1,2)], rule assms(3))
     (use ts_turn in \<open>simp_all add: TS_POLL_PERIOD_MS_def TS_RECEIVE_TIMEOUT_MS_def del: events_simps\<close>)

lemma ts_tracks_butlast: "ts_tracks es s \<Longrightarrow> list_all stamp_ok (butlast es)"
  by (auto simp: ts_tracks_def list_all_iff dest: in_set_butlastD split: option.splits)

lemma stamps_heard_trace:
  assumes "synced ts_on_data_available ts_attached s' ((Entity (zzdds_destroy_factory f), r3) # (printf ''Subscriber: done.'', r2) # (printf
        ''Subscriber: received disposed instance with source_timestamp matching the explicit dispose timestamp.'', r1)
      # (atomic_access, r0) # q @ tr)"
    and q: "idle q" "\<forall>k<5. alive_seen (events (q @ tr)) k"
    and d: "ts_stands 20000 s1 ((atomic_access, r0) # q @ tr)" "dispose_timestamp_ok s1"
    and t: "only destroyed tr = []" "\<exists>r. (Entity zzdds_create_factory, r) \<in> set tr \<and> ret r = f"
      "only printed tr = [''Create topic: TimestampEvent'', ''Create reader for topic: TimestampEvent'', ''Subscriber: ready.'']"
  shows "stamps_received ((Entity (zzdds_destroy_factory f), r3) # (printf ''Subscriber: done.'', r2) # (printf
        ''Subscriber: received disposed instance with source_timestamp matching the explicit dispose timestamp.'', r1)
      # (atomic_access, r0) # q @ tr)
    \<and> heard_all s' ((Entity (zzdds_destroy_factory f), r3) # (printf ''Subscriber: done.'', r2) # (printf
        ''Subscriber: received disposed instance with source_timestamp matching the explicit dispose timestamp.'', r1)
      # (atomic_access, r0) # q @ tr)"
    (is "stamps_received ?tr \<and> _")
proof -
  have "list_all stamp_ok (butlast (events ((Entity (zzdds_destroy_factory f), r3) # (printf ''Subscriber: done.'', r2) # (printf
        ''Subscriber: received disposed instance with source_timestamp matching the explicit dispose timestamp.'', r1)
      # (atomic_access, r0) # q @ tr)))"
    using ts.tracks_synced [OF assms(1)] ts_tracks_butlast by blast
  moreover have "\<forall>k<5. alive_seen (events (q @ tr) @ es) k" for es
    using q by (auto simp: alive_seen_def)
  moreover have "disposal_seen (events ((atomic_access, r0) # q @ tr) @ es)" for es
    using ts.tracks_stands [OF d(1)] d(2) by (intro seen_append) (simp add: ts_tracks_def)
  ultimately have "stamps_received ?tr"
    using q(1) t by (auto simp: stamps_received_def intro!: closesI)
  with heard_allI [OF assms(1)] show ?thesis by blast
qed

lemma timestamp_subscriber_wpt:
  "wpt (listening installs_reader_listener) (verdict ts_on_data_available ts_attached 20000 (\<lambda>s tr. stamps_received tr \<and> heard_all s tr)) (timestamp_subscriber argv) s []"
  unfolding timestamp_subscriber_def Let_def ts_not_received_def ts_reader_matched_def
  apply (rule wpt_open_participant [OF heeds_reader setup_not_reader], assumption)
  apply (rule early_reader, assumption, simp)+
  apply (rule wpt_PutI, rule early_reader, assumption, simp)
  apply (rule early_reader, assumption, simp)
  apply (rule wpt_GetI, rule wpt_PutI, fold ts_attached_def)
  apply (rule wpt_check, erule early_stands, simp)
  apply (erule wpt_step, simp, simp)
  apply (erule wpt_await_stamps, simp, rule wpt_ifI)
   apply (erule wpt_step, simp, simp)+
   apply (erule wpt_load_stands, simp)+
   apply (erule wpt_fail, simp)
  apply (erule wpt_load_stands, simp, rule wpt_ifI, erule wpt_fail, simp)
  apply (rule wpt_step, assumption, simp, simp)
  apply (erule wpt_step, simp, simp)+
  apply (simp add: verdict_def stands_def [where s = s' and tr = "_ # _ # _" for s'])
  apply (elim conjE, erule stamps_heard_trace)
       apply (simp_all add: opened_factory)
  done

text \<open>C19. The subscriber of the source-timestamp test, against an arbitrary middleware that calls no listener before it is
  installed. It never writes past its array. It ends by the \<open>exit(1)\<close> of its listener only if something was delivered that is neither
  an empty take, nor a sample with the time stamp of its number, nor a disposal with the expected time stamp.
  Otherwise it sleeps 20 seconds at most and ends with 1 right after a \<open>FAIL:\<close> line, or with 0; and with 0 every sample and the
  disposal were delivered, each with the time stamp it was written with, nothing with another one came before the last callback, the documented
  lines of \<open>main\<close> were printed, the listener had printed its line (\<open>Subscriber: received seq=...\<close>) once for every valid sample it took, in the order
  of taking, those of all five numbers among them, and the factory was destroyed last.\<close>

theorem timestamp_subscriber_contract:
  assumes "\<And>tr c. listening installs_reader_listener tr c (env tr c)"
  shows "case run env (timestamp_subscriber argv) s [] of (x, s', tr) \<Rightarrow>
    x = Exit 1 \<and> \<not> list_all stamp_ok (events tr)
    \<or> slept tr \<le> 20000 \<and> (x = Val 1 \<and> failed tr \<or> x = Val 0 \<and> stamps_received tr \<and> heard_all s' tr)"
  using wpt_run_result [where e = env, OF timestamp_subscriber_wpt assms, of argv s]
  by (auto simp: verdict_def split_beta dest: ts_broken)

section \<open>From the publisher to the subscriber\<close>

text \<open>What a middleware may hand to the listener when the writer's trace is \<open>trp\<close>: empty takes, what was written with the
  time stamp it was written with, the disposal with its time stamp, and other changes of the instance.\<close>

fun carried :: "(TimestampEvent, count_event) atrace \<Rightarrow> ts_event \<Rightarrow> bool" where
  "carried trp Ts_checked \<longleftrightarrow> True"
| "carried trp (Ts_taken rc seq valid instance stamp) \<longleftrightarrow> rc = DDS_RETCODE_NO_DATA \<or> rc = DDS_RETCODE_OK \<and>
     (if valid then \<exists>w v h. ts_seq v = seq \<and> write_w_timestamp w v h stamp \<in> set (only data_op trp)
      else instance = DDS_NOT_ALIVE_DISPOSED_INSTANCE_STATE \<longrightarrow> (\<exists>w v h. dispose_w_timestamp w v h stamp \<in> set (only data_op trp)))"

lemma published_carried: "stamps_published trp \<Longrightarrow> carried trp e \<Longrightarrow> stamp_ok e"
  by (cases e) (auto simp: stamps_published_def stamped_write_def)

lemma published_ops:
  assumes "stamps_published trp"
  shows "k < 5 \<Longrightarrow> \<exists>w v h. ts_seq v = int k \<and> write_w_timestamp w v h (1000000 + int k, 0) \<in> set (only data_op trp)"
    and "\<exists>w v h. dispose_w_timestamp w v h (2000000, 123456789) \<in> set (only data_op trp)"
proof -
  obtain dw handle where ops: "only data_op trp = register_instance dw \<lparr>ts_id = 0, ts_seq = 0\<rparr> # map (stamped_write dw handle) [0..<5]
       @ [dispose_w_timestamp dw \<lparr>ts_id = 0, ts_seq = 0\<rparr> handle (2000000, 123456789)]"
    using assms by (auto simp: stamps_published_def)
  have "stamped_write dw handle k \<in> set (only data_op trp)" if "k < 5" using ops that by simp
  then show "k < 5 \<Longrightarrow> \<exists>w v h. ts_seq v = int k \<and> write_w_timestamp w v h (1000000 + int k, 0) \<in> set (only data_op trp)"
    unfolding stamped_write_def by (metis TimestampEvent.select_convs(2))
  have "dispose_w_timestamp dw \<lparr>ts_id = 0, ts_seq = 0\<rparr> handle (2000000, 123456789) \<in> set (only data_op trp)" using ops by simp
  then show "\<exists>w v h. dispose_w_timestamp w v h (2000000, 123456789) \<in> set (only data_op trp)" by blast
qed

text \<open>C6. From the publisher to the subscriber of the source-timestamp test: when the middleware delivers to the subscriber only what a
  successful run of the publisher wrote, each with the source time stamp it was written with (in any order, any number of times,
  with empty takes in between), the subscriber never leaves through its listener. It ends with 0 after having seen everything,
  or with 1 after a \<open>FAIL:\<close> line of \<open>main\<close>.\<close>

theorem timestamp_end_to_end:
  assumes "\<And>tr c. listening installs_listening tr c (envp tr c)"
    and "run envp (timestamp_publisher argv) sp [] = (Val 0, sp', trp)"
    and "\<And>tr c. listening installs_reader_listener tr c (envs tr c)" and "\<And>tr c. list_all (carried trp) (evs (envs tr c))"
  shows "case run envs (timestamp_subscriber argv') s [] of (x, s', tr) \<Rightarrow>
    slept tr \<le> 20000 \<and> (x = Val 1 \<and> failed tr \<or> x = Val 0 \<and> stamps_received tr)"
proof -
  have "stamps_published trp"
    using wpt_run [OF timestamp_publisher_wpt assms(1,2)] by (simp add: verdict_def)
  then have "list_all stamp_ok (evs (envs tr c))" for tr c
    using assms(4) [of tr c] published_carried by (auto simp: list_all_iff)
  then have "list_all stamp_ok (events (snd (snd (run envs (timestamp_subscriber argv') s []))))"
    by (rule run_events)
  then show ?thesis
    using wpt_run_result [where e = envs, OF timestamp_subscriber_wpt assms(3), of argv' s]
    by (auto simp: verdict_def split_beta dest: ts_broken)
qed

text \<open>Every call succeeds; everything arrives, in reverse order, when the listener is set.\<close>

definition five_and_disposal :: "ts_event list" where
  "five_and_disposal = Ts_taken 11 0 False 0 (0, 0) # Ts_taken 0 0 False 2 (2000000, 123456789)
     # map (\<lambda>k. Ts_taken 0 k True 1 (1000000 + k, 0)) [4, 3, 2, 1, 0]"

fun stamp_feed :: "ts_event list \<Rightarrow> (TimestampEvent app_call, (TimestampEvent, ts_event) answer) env" where
  "stamp_feed es tr (Entity (set_listener dr)) = answers 0 es"
| "stamp_feed es tr (Entity (create_topic dp name type)) = answers 1 []"
| "stamp_feed es tr (Entity (create_participant f d)) = answers 1 []"
| "stamp_feed es tr (Entity (create_subscriber dp)) = answers 1 []"
| "stamp_feed es tr (Entity (create_datareader s t q l)) = answers 1 []"
| "stamp_feed es tr c = answers 0 []"

lemma stamp_feed_listens: "listening installs_reader_listener tr c (stamp_feed es tr c)"
  by (cases "(es, tr, c)" rule: stamp_feed.cases) (auto simp: listening_def answers_def)

lemma stamp_feed_events: "list_all F es \<Longrightarrow> list_all F (evs (stamp_feed es tr c))"
  by (cases "(es, tr, c)" rule: stamp_feed.cases) (auto simp: answers_def)

lemma list_update_numeral [simp]: "(x # xs)[numeral n := y] = x # xs[pred_numeral n := y]"
  by (simp add: numeral_eq_Suc)

lemma replicate_five: "replicate 5 x = [x, x, x, x, x]"
  by (simp add: numeral_eq_Suc)

lemma five_delivered:
  "deliver ts_on_data_available five_and_disposal (ts_sub_state\<lparr>ts_reader := True\<rparr>) = Val \<lparr>ts_reader = True,
     alive_received = [True, True, True, True, True], alive_count = 5, dispose_received = True, dispose_timestamp_ok = True, ts_checking = None,
     ts_out = map (\<lambda>k. received_line k (1000000 + k)) [4, 3, 2, 1, 0]\<rparr>"
  by (simp add: five_and_disposal_def ts_sub_state_def ts_constants replicate_five check_disposal_def ts_take_def
     DDS_RETCODE_NO_DATA_def DDS_NOT_ALIVE_DISPOSED_INSTANCE_STATE_def)

lemma wrong_delivered: "deliver ts_on_data_available [Ts_taken 0 3 True 4 (1000002, 0)] (ts_sub_state\<lparr>ts_reader := True\<rparr>) = Exit 1"
  by (simp add: ts_sub_state_def ts_constants DDS_RETCODE_NO_DATA_def check_disposal_def ts_take_def)

lemma timestamp_subscriber_run:
  "fst (run (stamp_feed five_and_disposal) (timestamp_subscriber [''s'']) ts_sub_state []) = Val 0"
  "fst (run (stamp_feed [Ts_taken 0 3 True 4 (1000002, 0)]) (timestamp_subscriber [''s'']) ts_sub_state []) = Exit 1"
  by (simp_all add: evaluate timestamp_subscriber_def five_delivered wrong_delivered TS_POLL_PERIOD_MS_def TS_RECEIVE_TIMEOUT_MS_def
     TS_SAMPLE_COUNT_def del: deliver.simps(2))

theorem timestamp_subscriber_contract_witness:
  "(case run (stamp_feed five_and_disposal) (timestamp_subscriber [''s'']) ts_sub_state [] of (x, s', tr) \<Rightarrow> x = Val 0 \<and> stamps_received tr \<and> heard_all s' tr) \<and>
   (case run (stamp_feed [Ts_taken 0 3 True 4 (1000002, 0)]) (timestamp_subscriber [''s'']) ts_sub_state [] of
      (x, s', tr) \<Rightarrow> x = Exit 1 \<and> \<not> list_all stamp_ok (events tr))"
  using timestamp_subscriber_contract [OF stamp_feed_listens [of _ _ five_and_disposal], of "[''s'']" ts_sub_state]
    timestamp_subscriber_contract [OF stamp_feed_listens [of _ _ "[Ts_taken 0 3 True 4 (1000002, 0)]"], of "[''s'']" ts_sub_state]
    timestamp_subscriber_run
  by (auto simp: split_beta)

theorem timestamp_end_to_end_witness:
  "\<exists>sp trp. run stamp_env (timestamp_publisher [''p'']) count_state [] = (Val 0, sp, trp) \<and> list_all (carried trp) five_and_disposal
     \<and> (case run (stamp_feed five_and_disposal) (timestamp_subscriber [''s'']) ts_sub_state [] of (x, s', tr) \<Rightarrow> x = Val 0 \<and> stamps_received tr)"
proof -
  obtain sp trp where r: "run stamp_env (timestamp_publisher [''p'']) count_state [] = (Val 0, sp, trp)"
    using timestamp_publisher_run by (metis fst_conv surj_pair)
  then have p: "stamps_published trp"
    using wpt_run [OF timestamp_publisher_wpt stamp_env_listens r] by (simp add: verdict_def)
  have c: "list_all (carried trp) five_and_disposal"
    using published_ops(1) [OF p, of 0] published_ops(1) [OF p, of 1] published_ops(1) [OF p, of 2] published_ops(1) [OF p, of 3]
      published_ops(1) [OF p, of 4] published_ops(2) [OF p]
    by (simp add: five_and_disposal_def DDS_NOT_ALIVE_DISPOSED_INSTANCE_STATE_def)
  show ?thesis
    using r c timestamp_end_to_end [OF stamp_env_listens r stamp_feed_listens stamp_feed_events [OF c], of "[''s'']" ts_sub_state]
      timestamp_subscriber_run(1) by (auto simp: split_beta)
qed

section \<open>The race at the end of the subscriber\<close>

text \<open>The listener has stored \<open>dispose_received\<close> and not yet \<open>dispose_timestamp_ok\<close> when \<open>main\<close> looks at both.\<close>

definition all_but_the_check :: "ts_event list" where
  "all_but_the_check = map (\<lambda>k. Ts_taken 0 k True 1 (1000000 + k, 0)) [0, 1, 2, 3, 4] @ [Ts_taken 0 0 False 2 (2000000, 123456789)]"

lemma race_delivered:
  "deliver ts_on_data_available all_but_the_check (ts_sub_state\<lparr>ts_reader := True\<rparr>) = Val \<lparr>ts_reader = True,
     alive_received = [True, True, True, True, True], alive_count = 5, dispose_received = True, dispose_timestamp_ok = False,
     ts_checking = Some (2000000, 123456789), ts_out = map (\<lambda>k. received_line k (1000000 + k)) [0, 1, 2, 3, 4]\<rparr>"
  by (simp add: all_but_the_check_def ts_sub_state_def ts_constants replicate_five check_disposal_def ts_take_def
     DDS_RETCODE_NO_DATA_def DDS_NOT_ALIVE_DISPOSED_INSTANCE_STATE_def)

lemma race_stamps_ok: "list_all stamp_ok all_but_the_check"
  by (simp add: all_but_the_check_def)

lemma race_run:
  "fst (run (stamp_feed all_but_the_check) (timestamp_subscriber [''s'']) ts_sub_state []) = Val 1"
  "fst (hd (snd (snd (run (stamp_feed all_but_the_check) (timestamp_subscriber [''s'']) ts_sub_state [])))) = eprintf (FAIL never_ok_line)"
  "events (snd (snd (run (stamp_feed all_but_the_check) (timestamp_subscriber [''s'']) ts_sub_state []))) = all_but_the_check"
  by (simp_all add: evaluate timestamp_subscriber_def race_delivered TS_POLL_PERIOD_MS_def TS_RECEIVE_TIMEOUT_MS_def
       TS_SAMPLE_COUNT_def del: deliver.simps(2))

text \<open>C20. The subscriber of the source-timestamp test can fail although everything arrived with the right time stamps: there is a middleware
  that calls the listener only after it is installed, delivers only what the listener accepts, each sample and the disposal among it, and yet
  \<open>main\<close> ends with 1 right after reporting that the time stamp of the disposal never matched.\<close>

theorem timestamp_subscriber_race:
  "\<exists>env. (\<forall>tr c. listening installs_reader_listener tr c (env tr c) \<and> list_all stamp_ok (evs (env tr c)))
     \<and> (case run env (timestamp_subscriber [''s'']) ts_sub_state [] of (x, s', tr) \<Rightarrow>
          x = Val 1 \<and> fst (hd tr) = eprintf (FAIL never_ok_line) \<and> list_all (alive_seen (events tr)) [0..<5] \<and> disposal_seen (events tr))"
proof (intro exI [of _ "stamp_feed all_but_the_check"] conjI allI)
  show "listening installs_reader_listener tr c (stamp_feed all_but_the_check tr c)" for tr c by (rule stamp_feed_listens)
  show "list_all stamp_ok (evs (stamp_feed all_but_the_check tr c))" for tr c by (rule stamp_feed_events [OF race_stamps_ok])
  have "alive_seen all_but_the_check k" if "k < 5" for k
  proof -
    have "k = 0 \<or> k = 1 \<or> k = 2 \<or> k = 3 \<or> k = 4" using that by auto
    then show ?thesis by (auto simp: alive_seen_def all_but_the_check_def)
  qed
  moreover have "disposal_seen all_but_the_check"
    by (simp add: disposal_seen_def all_but_the_check_def DDS_NOT_ALIVE_DISPOSED_INSTANCE_STATE_def)
  ultimately show "case run (stamp_feed all_but_the_check) (timestamp_subscriber [''s'']) ts_sub_state [] of (x, s', tr) \<Rightarrow>
      x = Val 1 \<and> fst (hd tr) = eprintf (FAIL never_ok_line) \<and> list_all (alive_seen (events tr)) [0..<5] \<and> disposal_seen (events tr)"
    using race_run by (simp add: split_beta list_all_iff)
qed

end
