(* ===== verification/Cft_Publisher.thy ===== *)
theory Cft_Publisher
  imports Counted_Writer Example_Publisher
begin

text \<open>
  The publisher of the integration test \<open>integration-tests/c/cft-reconfigure\<close>: two batches of samples on one writer, the
  second one only after the subscriber's go-ahead has been taken from a topic of its own.
\<close>

definition CFT_MATCH_TIMEOUT_MS :: nat where "CFT_MATCH_TIMEOUT_MS = 40000"
definition GO_TIMEOUT_MS :: nat where "GO_TIMEOUT_MS = 20000"
definition BATCH1_COUNT :: nat where "BATCH1_COUNT = 5"
definition BATCH2_COUNT :: nat where "BATCH2_COUNT = 5"

lemmas cft_pub_constants = CFT_MATCH_TIMEOUT_MS_def GO_TIMEOUT_MS_def BATCH1_COUNT_def BATCH2_COUNT_def

type_synonym 'a cft_pub = "(CountState, int, count_event, 'a) app"

definition write_batch :: "string \<Rightarrow> int \<Rightarrow> nat \<Rightarrow> nat \<Rightarrow> int option cft_pub" where
  "write_batch label dw lo n = for_prog lo n (\<lambda>seq. let h = count_listener in
     sys h (Data (write_data dw (int seq) 0)) (\<lambda>r.
       if ret r \<noteq> DDS_RETCODE_OK then fail_out h (''write('' @ label @ '') failed at seq='' @ dec seq)
       else say h (''Publisher: wrote '' @ label @ '' seq='' @ dec seq) (Return None)))"

text \<open>The wait for the go-ahead: the time limit is checked before every take, so there are \<open>n\<close> takes at most.\<close>

primrec go_loop :: "nat \<Rightarrow> int \<Rightarrow> int option cft_pub" where
  "go_loop 0 dr = fail_out count_listener ''go-ahead signal never arrived within 20s''"
| "go_loop (Suc n) dr = sys count_listener (Data (take_one dr)) (\<lambda>r.
     if ret r = DDS_RETCODE_OK \<and> take_valid r then Return None
     else if ret r \<noteq> DDS_RETCODE_OK \<and> ret r \<noteq> DDS_RETCODE_NO_DATA
     then fail_out count_listener (''take(GoTopic) CDR error (rc='' @ dec_int (ret r) @ '')'')
     else sys count_listener (sleep_ms COUNT_POLL_PERIOD_MS) (\<lambda>_. go_loop n dr))"

definition await_go :: "int \<Rightarrow> int option cft_pub" where
  "await_go dr = go_loop ((GO_TIMEOUT_MS + COUNT_POLL_PERIOD_MS - 1) div COUNT_POLL_PERIOD_MS) dr"

definition go_reader_matched :: "int \<Rightarrow> (int \<Rightarrow> 'a cft_pub) \<Rightarrow> 'a cft_pub" where
  "go_reader_matched dr k = sys count_listener (Query (get_subscription_matched_status dr)) (\<lambda>r.
     k (if ret r = DDS_RETCODE_OK then num r else - 1))"

definition fewer_readers :: "int \<Rightarrow> int \<Rightarrow> int cft_pub" where
  "fewer_readers dw go_dr = (let h = count_listener in
     load h match_count (\<lambda>n. count_writer_matched dw (\<lambda>m. go_reader_matched go_dr (\<lambda>g.
     sys h (eprintf (''  matched: writer listener='' @ dec_int n @ '' status='' @ dec_int m @ '' GoTopic_reader='' @ dec_int g)) (\<lambda>_.
     load h match_count (\<lambda>n. fail h (''fewer than 2 readers matched within 40s (got '' @ dec_int n @ '')'')))))))"

definition publish_batches :: "int \<Rightarrow> int \<Rightarrow> int \<Rightarrow> int cft_pub" where
  "publish_batches factory dw go_dr = (let h = count_listener in
     bind_prog (await_matched 2 CFT_MATCH_TIMEOUT_MS) (\<lambda>matched.
     if \<not> matched then fewer_readers dw go_dr
     else bind_prog (write_batch ''phase1'' dw 0 BATCH1_COUNT) (\<lambda>x. leave_or x (
     bind_prog (await_go go_dr) (\<lambda>x. leave_or x (
     say h ''Publisher: received go-ahead signal.'' (
     bind_prog (write_batch ''phase2'' dw BATCH1_COUNT BATCH2_COUNT) (\<lambda>x. leave_or x (
     bind_prog await_unmatched (\<lambda>gone.
     if \<not> gone then not_disconnected dw
     else say h ''Publisher: done.'' (
     sys h (Entity (zzdds_destroy_factory factory)) (\<lambda>_. Return 0))))))))))))"

definition cft_publisher :: "string list \<Rightarrow> int cft_pub" where
  "cft_publisher argv = (let h = count_listener in
     open_participant h argv ''CftEvent'' ''register_type_support failed'' (\<lambda>factory dp.
     need h (Entity (create_topic dp ''CftEvent'' ''CftEvent'')) ''create_topic() failed'' (\<lambda>topic.
     say h ''Create topic: CftEvent'' (
     need h (Entity (create_topic dp ''GoTopic'' ''CftEvent'')) ''create_topic(GoTopic) failed'' (\<lambda>go_topic.
     say h ''Create topic: GoTopic'' (
     sys h (Entity (create_publisher dp)) (\<lambda>pub.
     sys h (Entity (create_subscriber dp)) (\<lambda>sub.
     if ret pub = 0 \<or> ret sub = 0 then fail h ''create_publisher()/create_subscriber() failed''
     else sys h (Entity (get_default_datawriter_qos (ret pub))) (\<lambda>wq.
     Put count_state (
     need h (Entity (create_datawriter_listening (ret pub) topic (reliable_keep_all (num wq)))) ''create_datawriter() failed'' (\<lambda>dw.
     say h ''Create writer for topic: CftEvent'' (
     sys h (Entity (get_default_datareader_qos (ret sub))) (\<lambda>rq.
     need h (Entity (create_datareader (ret sub) go_topic (reliable_keep_all (num rq)) False)) ''create_datareader(GoTopic) failed'' (\<lambda>go_dr.
     publish_batches factory dw go_dr))))))))))))))"

section \<open>Contract\<close>

definition wrote_batch :: "string \<Rightarrow> int \<Rightarrow> nat \<Rightarrow> nat \<Rightarrow> (int, count_event) atrace \<Rightarrow> bool" where
  "wrote_batch label dw lo n q \<longleftrightarrow> only written q = map (\<lambda>k. (dw, int k)) [lo..<n]
     \<and> only printed q = map (\<lambda>k. ''Publisher: wrote '' @ label @ '' seq='' @ dec k) [lo..<n] \<and> only destroyed q = []"

lemma wpt_write_batch:
  assumes "count_stands k s tr" and "k \<le> B"
    and "\<And>s' q. count_stands k s' (q @ tr) \<Longrightarrow> wrote_batch label dw lo (lo + n) q \<Longrightarrow> wpt G (verdict count_listener count_state B P) p s' (q @ tr)"
  shows "wpt G (verdict count_listener count_state B P) (bind_prog (write_batch label dw lo n) (\<lambda>x. leave_or x p)) s tr"
  unfolding write_batch_def Let_def
proof (rule wpt_main_loop [where J = "wrote_batch label dw lo"])
  fix j s' q
  assume j: "lo \<le> j" and s': "count_stands k s' (q @ tr)" and q: "wrote_batch label dw lo j q"
  show "wpt G (iteration count_listener count_state B P k tr (wrote_batch label dw lo (Suc j)))
     (sys count_listener (Data (write_data dw (int j) 0)) (\<lambda>r.
       if ret r \<noteq> DDS_RETCODE_OK then fail_out count_listener (''write('' @ label @ '') failed at seq='' @ dec j)
       else say count_listener (''Publisher: wrote '' @ label @ '' seq='' @ dec j) (Return None))) s' (q @ tr)"
    apply (rule wpt_step [OF s'], simp, simp, rule wpt_ifI, erule wpt_fail_out, rule assms(2))
    apply (erule wpt_step, simp, simp, erule wpt_continue)
    using q j apply (simp flip: append_Cons, simp add: wrote_batch_def)
    done
qed (use assms in \<open>simp_all add: wrote_batch_def\<close>)

text \<open>A valid sample was taken from the go-ahead reader.\<close>

definition went_ahead :: "int \<Rightarrow> (int, count_event) atrace \<Rightarrow> bool" where
  "went_ahead dr tr \<longleftrightarrow> (\<exists>r. (Data (take_one dr), r) \<in> set tr \<and> ret r = DDS_RETCODE_OK \<and> take_valid r)"

definition looking :: "int \<Rightarrow> (int, count_event) atrace \<Rightarrow> bool" where
  "looking dr q \<longleftrightarrow> list_all (\<lambda>x. fst x = Data (take_one dr) \<or> idle_call (fst x)) q"

lemma looking_simps [simp]:
  "looking dr []" "looking dr ((c, r) # q) \<longleftrightarrow> (c = Data (take_one dr) \<or> idle_call c) \<and> looking dr q"
  "looking dr (q @ q') \<longleftrightarrow> looking dr q \<and> looking dr q'"
  by (simp_all add: looking_def)

lemma looking_only [simp]:
  assumes "looking dr q"
  shows "only written q = []" "only printed q = []" "only destroyed q = []"
  using assms by (induction q) (auto split: option.splits)

lemma wpt_go_loop:
  assumes "count_stands k s tr" and "k + n * 20 \<le> B"
    and "\<And>s' q. count_stands (k + n * 20) s' (q @ tr) \<Longrightarrow> looking dr q \<Longrightarrow> went_ahead dr q
      \<Longrightarrow> wpt G (verdict count_listener count_state B P) p s' (q @ tr)"
  shows "wpt G (verdict count_listener count_state B P) (bind_prog (go_loop n dr) (\<lambda>x. leave_or x p)) s tr"
  using assms
proof (induction n arbitrary: k s tr)
  case 0
  show ?case
    unfolding go_loop.simps fail_out_def bind_sys
    by (rule wpt_step [OF 0(1)], simp, simp) (use 0(2) in \<open>simp add: verdict_def stands_def\<close>)
next
  case (Suc n)
  let ?go = "\<lambda>r. if ret r = DDS_RETCODE_OK \<and> take_valid r then Return None
     else if ret r \<noteq> DDS_RETCODE_OK \<and> ret r \<noteq> DDS_RETCODE_NO_DATA
     then fail_out count_listener (''take(GoTopic) CDR error (rc='' @ dec_int (ret r) @ '')'')
     else sys count_listener (sleep_ms COUNT_POLL_PERIOD_MS) (\<lambda>_. go_loop n dr)"
  show ?case
    unfolding go_loop.simps bind_sys
  proof (rule wpt_step [OF Suc.prems(1)])
    fix r s1
    let ?tr = "(Data (take_one dr), r) # tr"
    assume s1: "count_stands k s1 ?tr"
    consider (go) "ret r = DDS_RETCODE_OK" "take_valid r" | (error) "ret r \<noteq> DDS_RETCODE_OK" "ret r \<noteq> DDS_RETCODE_NO_DATA"
      | (again) "\<not> (ret r = DDS_RETCODE_OK \<and> take_valid r)" "\<not> (ret r \<noteq> DDS_RETCODE_OK \<and> ret r \<noteq> DDS_RETCODE_NO_DATA)" by blast
    then show "wpt G (verdict count_listener count_state B P) (bind_prog (?go r) (\<lambda>x. leave_or x p)) s1 ?tr"
    proof cases
      case go
      have "count_stands (k + Suc n * 20) s1 ([(Data (take_one dr), r)] @ tr)" using s1 by (simp add: stands_def)
      then have "wpt G (verdict count_listener count_state B P) p s1 ([(Data (take_one dr), r)] @ tr)"
        by (rule Suc.prems(3)) (use go in \<open>simp_all add: went_ahead_def\<close>)
      with go show ?thesis by simp
    next
      case error
      have "wpt G (verdict count_listener count_state B P) (sys count_listener
          (eprintf (FAIL (''take(GoTopic) CDR error (rc='' @ dec_int (ret r) @ '')''))) (\<lambda>_. Return 1)) s1 ?tr"
        by (rule wpt_step [OF s1], simp, simp) (use Suc.prems(2) in \<open>simp add: verdict_def stands_def\<close>)
      with error show ?thesis by (simp add: fail_out_def)
    next
      case again
      have "wpt G (verdict count_listener count_state B P) (sys count_listener (sleep_ms COUNT_POLL_PERIOD_MS)
          (\<lambda>_. bind_prog (go_loop n dr) (\<lambda>x. leave_or x p))) s1 ?tr"
      proof (rule wpt_sleep [OF s1], simp, rule Suc.IH)
        fix r1 s2
        assume "count_stands (k + COUNT_POLL_PERIOD_MS) s2 ((sleep_ms COUNT_POLL_PERIOD_MS, r1) # ?tr)"
        then show "count_stands (k + 20) s2 ((sleep_ms COUNT_POLL_PERIOD_MS, r1) # ?tr)" by (simp add: COUNT_POLL_PERIOD_MS_def)
      next
        fix r1 s2 q
        assume "count_stands (k + 20 + n * 20) s2 (q @ (sleep_ms COUNT_POLL_PERIOD_MS, r1) # ?tr)" "looking dr q" "went_ahead dr q"
        then show "wpt G (verdict count_listener count_state B P) p s2 (q @ (sleep_ms COUNT_POLL_PERIOD_MS, r1) # ?tr)"
          using Suc.prems(3) [of s2 "q @ [(sleep_ms COUNT_POLL_PERIOD_MS, r1), (Data (take_one dr), r)]"]
          by (auto simp: went_ahead_def algebra_simps)
      qed (use Suc.prems(2) in simp_all)
      then show ?thesis by (simp only: again if_False bind_sys)
    qed
  qed simp_all
qed

definition batches_published :: "(int, count_event) atrace \<Rightarrow> bool" where
  "batches_published tr \<longleftrightarrow> (\<exists>dw go_dr. only written tr = map (\<lambda>k. (dw, int k)) [0..<10]
     \<and> before (writes_from 5) (went_ahead go_dr) tr)
     \<and> before is_write (\<lambda>tr. saw_matched 2 (events tr)) tr \<and> came_and_went 2 (events tr)
     \<and> only printed tr = [''Create topic: CftEvent'', ''Create topic: GoTopic'', ''Create writer for topic: CftEvent'']
         @ map (\<lambda>k. ''Publisher: wrote phase1 seq='' @ dec k) [0..<5] @ [''Publisher: received go-ahead signal.'']
         @ map (\<lambda>k. ''Publisher: wrote phase2 seq='' @ dec k) [5..<10] @ [''Publisher: done.'']
     \<and> closes tr"

lemma looking_not:
  "looking dr q \<Longrightarrow> x \<in> set q \<Longrightarrow> \<not> is_write (fst x) \<and> \<not> writes_from 5 (fst x)"
  by (auto simp: looking_def list_all_iff elim!: ballE [of _ _ x] idle_call.elims)

lemma batches_published_trace:
  assumes t: "only written tr = []" "only destroyed tr = []" "\<And>P. before is_write P tr"
      "only printed tr = [''Create topic: CftEvent'', ''Create topic: GoTopic'', ''Create writer for topic: CftEvent'']"
      "\<exists>r. (Entity zzdds_create_factory, r) \<in> set tr \<and> ret r = f"
    and q: "idle q0" "saw_matched 2 (events (q0 @ tr))" "wrote_batch ''phase1'' dw 0 5 q1" "looking go_dr q2" "went_ahead go_dr q2"
      "wrote_batch ''phase2'' dw 5 10 q3" "idle q4"
      "came_and_went 2 (events (q4 @ q3 @ (printf ''Publisher: received go-ahead signal.'', r0) # q2 @ q1 @ q0 @ tr))"
  shows "batches_published ((Entity (zzdds_destroy_factory f), r2) # (printf ''Publisher: done.'', r1) # q4 @ q3
      @ (printf ''Publisher: received go-ahead signal.'', r0) # q2 @ q1 @ q0 @ tr)"
proof -
  let ?late = "[(Entity (zzdds_destroy_factory f), r2), (printf ''Publisher: done.'', r1)] @ q4 @ q3
      @ [(printf ''Publisher: received go-ahead signal.'', r0)]"
  let ?tr = "?late @ q2 @ q1 @ q0 @ tr"
  have "before is_write (\<lambda>tr. saw_matched 2 (events tr)) (q0 @ tr)"
    by (rule before_other [OF t(3)]) (rule idle_not_write [OF q(1)])
  then have b: "before is_write (\<lambda>tr. saw_matched 2 (events tr)) ((?late @ q2 @ q1) @ q0 @ tr)"
    by (rule before_append) (simp only: events_simps saw_matched_append [OF q(2) [unfolded events_simps]])
  have "before (writes_from 5) (went_ahead go_dr) tr"
    by (rule before_imp [OF t(3) writes_from_write])
  then have "before (writes_from 5) (went_ahead go_dr) (q0 @ tr)"
    by (rule before_other) (use idle_not_write [OF q(1)] writes_from_write in blast)
  then have "before (writes_from 5) (went_ahead go_dr) (q1 @ q0 @ tr)"
    by (rule before_other) (rule batch_not_later [where n = 5, simplified], use q(3) in \<open>auto simp: wrote_batch_def\<close>)
  then have "before (writes_from 5) (went_ahead go_dr) (q2 @ q1 @ q0 @ tr)"
    by (rule before_other) (use looking_not [OF q(4)] in blast)
  then have l: "before (writes_from 5) (went_ahead go_dr) ?tr"
    by (rule before_append) (use q(5) in \<open>auto simp: went_ahead_def\<close>)
  have w: "came_and_went 2 (events ?tr)"
    using came_and_went_append [OF q(8), of "events [(Entity (zzdds_destroy_factory f), r2), (printf ''Publisher: done.'', r1)]"] by simp
  have c: "closes ?tr"
    using t q by (auto simp: wrote_batch_def intro!: closesI)
  have "only written ?tr = map (\<lambda>k. (dw, int k)) ([0..<5] @ [5..<10])"
    using t q by (simp add: wrote_batch_def)
  also have "[0..<5] @ [5..<10] = [0..<10::nat]"
    using upt_add_eq_append [of 0 5 5] by simp
  finally have o: "only written ?tr = map (\<lambda>k. (dw, int k)) [0..<10]" .
  have p: "only printed ?tr = [''Create topic: CftEvent'', ''Create topic: GoTopic'', ''Create writer for topic: CftEvent'']
         @ map (\<lambda>k. ''Publisher: wrote phase1 seq='' @ dec k) [0..<5] @ [''Publisher: received go-ahead signal.'']
         @ map (\<lambda>k. ''Publisher: wrote phase2 seq='' @ dec k) [5..<10] @ [''Publisher: done.'']"
    using t q by (simp add: wrote_batch_def)
  have "batches_published ?tr"
    unfolding batches_published_def using b l w c o p by (simp only: append_assoc) blast
  then show ?thesis by simp
qed

lemma wpt_fewer_readers:
  assumes "count_stands k s tr" and "k \<le> B"
  shows "wpt G (verdict count_listener count_state B P) (fewer_readers dw go_dr) s tr"
  unfolding fewer_readers_def Let_def count_writer_matched_def go_reader_matched_def
  by (rule wpt_load_stands [OF assms(1)], simp, (erule wpt_step, simp, simp)+, erule wpt_load_stands, simp, erule wpt_fail, rule assms(2))

lemma cft_publisher_wpt:
  "wpt (listening installs_listening) (verdict count_listener count_state 75000 (\<lambda>_. batches_published)) (cft_publisher argv) s []"
  unfolding cft_publisher_def publish_batches_def await_go_def Let_def
  apply (rule wpt_open_participant [OF heeds_installs_listening setup_not_listening], assumption)
  apply (rule early_listening, assumption, simp)+
  apply (rule wpt_ifI, rule early_fail [OF heeds_installs_listening], assumption)
  apply (rule early_listening, assumption, simp)
  apply (rule wpt_PutI, rule wpt_need, erule early_stands, simp)
  apply (erule wpt_step, simp, simp)+
  apply (erule wpt_need, simp)
  apply (erule wpt_await_matched, simp, simp, rule wpt_ifI)
   apply (erule wpt_fewer_readers, simp add: CFT_MATCH_TIMEOUT_MS_def)
  apply (erule wpt_write_batch, simp add: CFT_MATCH_TIMEOUT_MS_def)
  apply (erule wpt_go_loop, simp add: CFT_MATCH_TIMEOUT_MS_def GO_TIMEOUT_MS_def COUNT_POLL_PERIOD_MS_def)
  apply (erule wpt_step, simp, simp)
  apply (erule wpt_write_batch, simp add: CFT_MATCH_TIMEOUT_MS_def GO_TIMEOUT_MS_def COUNT_POLL_PERIOD_MS_def)
  apply (erule wpt_await_unmatched [where n = 2], simp)
    apply (auto simp: saw_matched_def) [1]
   apply (simp; fail)
  apply (rule wpt_ifI, erule wpt_not_disconnected, simp add: CFT_MATCH_TIMEOUT_MS_def GO_TIMEOUT_MS_def COUNT_POLL_PERIOD_MS_def)
  apply (erule wpt_step, simp, simp)+
  apply (simp add: verdict_def stands_def CFT_MATCH_TIMEOUT_MS_def GO_TIMEOUT_MS_def COUNT_POLL_PERIOD_MS_def)
  apply (rule batches_published_trace)
  apply (simp_all add: opened_no_write opened_factory BATCH1_COUNT_def BATCH2_COUNT_def)
  done

text \<open>C17. The publisher of the content-filter test, against an arbitrary middleware that calls no listener before it is
  installed: it sleeps 75 seconds at most and ends with 1 right after a \<open>FAIL:\<close> line, or with 0. With 0 it wrote the samples 0 to 9 in
  order on one writer, none of them before two readers were matched at once and none of the second batch before a valid
  go-ahead was taken; the readers had gone at the end, the documented lines were printed and the factory was destroyed last.\<close>

theorem cft_publisher_contract:
  assumes "\<And>tr c. listening installs_listening tr c (env tr c)"
  shows "case run env (cft_publisher argv) s [] of (x, s', tr) \<Rightarrow>
    slept tr \<le> 75000 \<and> (x = Val 1 \<and> failed tr \<or> x = Val 0 \<and> batches_published tr)"
  using wpt_run_result [where e = env, OF cft_publisher_wpt assms, of argv s]
  by (simp add: verdict_def split_beta) blast

text \<open>Every call succeeds; two readers come while the writer is created, the second take finds the go-ahead, and the
  readers go with the last sample.\<close>

fun batch_env :: "(int app_call, (int, count_event) answer) env" where
  "batch_env tr (Entity (create_datawriter_listening p t q)) = answers 7 [Count_matched 1, Count_matched 2]"
| "batch_env tr (Data (write_data w v h)) = answers 0 (if v = 9 \<and> list_ex (installs_listening \<circ> fst) tr then [Count_matched 0] else [])"
| "batch_env tr (Data (take_one dr)) = (if fst (hd tr) = sleep_ms 20 then (answers 0 [])\<lparr>got := [(0, True)]\<rparr> else answers 11 [])"
| "batch_env tr (Entity (create_topic dp name type)) = answers 1 []"
| "batch_env tr (Entity (create_participant f d)) = answers 1 []"
| "batch_env tr (Entity (create_publisher dp)) = answers 1 []"
| "batch_env tr (Entity (create_subscriber dp)) = answers 1 []"
| "batch_env tr (Entity (create_datareader s t q l)) = answers 1 []"
| "batch_env tr c = answers 0 []"

lemma batch_env_listens: "listening installs_listening tr c (batch_env tr c)"
  by (cases "(tr, c)" rule: batch_env.cases) (auto simp: listening_def answers_def list_ex_iff)

lemma go_loop_numeral [simp]:
  "go_loop (numeral n) dr = sys count_listener (Data (take_one dr)) (\<lambda>r.
     if ret r = DDS_RETCODE_OK \<and> take_valid r then Return None
     else if ret r \<noteq> DDS_RETCODE_OK \<and> ret r \<noteq> DDS_RETCODE_NO_DATA
     then fail_out count_listener (''take(GoTopic) CDR error (rc='' @ dec_int (ret r) @ '')'')
     else sys count_listener (sleep_ms COUNT_POLL_PERIOD_MS) (\<lambda>_. go_loop (pred_numeral n) dr))"
  by (simp add: numeral_eq_Suc)

lemma cft_publisher_run: "fst (run batch_env (cft_publisher [''p'']) count_state []) = Val 0"
  by (simp add: evaluate cft_publisher_def publish_batches_def await_matched_def await_unmatched_def await_go_def write_batch_def
     cft_pub_constants COUNT_POLL_PERIOD_MS_def COUNT_DRAIN_TIMEOUT_MS_def count_state_def take_valid_def)

theorem cft_publisher_contract_witness:
  "case run batch_env (cft_publisher [''p'']) count_state [] of (x, s', tr) \<Rightarrow>
    slept tr \<le> 75000 \<and> x = Val 0 \<and> batches_published tr"
  using cft_publisher_contract [OF batch_env_listens, of "[''p'']" count_state] cft_publisher_run
  by (auto simp: split_beta)

end
