(* ===== verification/History_Replay.thy ===== *)
theory History_Replay
  imports Example_Publisher
begin

text \<open>
  The two programs of the integration test \<open>integration-tests/c/wait-for-historical-data\<close>. The publisher writes a batch while no
  reader is matched and another one once there is one; the late-joining subscriber waits for the replay of the first batch, takes
  it itself, and leaves the rest to its listener.
\<close>

definition HISTORICAL_COUNT :: nat where "HISTORICAL_COUNT = 8"
definition LIVE_COUNT :: nat where "LIVE_COUNT = 4"
definition HIST_MATCH_TIMEOUT_MS :: nat where "HIST_MATCH_TIMEOUT_MS = 20000"
definition NEGATIVE_WAIT_MS :: nat where "NEGATIVE_WAIT_MS = 300"
definition HISTORICAL_WAIT_TIMEOUT_S :: nat where "HISTORICAL_WAIT_TIMEOUT_S = 15"
definition HIST_RECEIVE_TIMEOUT_MS :: nat where "HIST_RECEIVE_TIMEOUT_MS = 30000"
definition HIST_POLL_PERIOD_MS :: nat where "HIST_POLL_PERIOD_MS = 20"

lemmas hist_constants = HISTORICAL_COUNT_def LIVE_COUNT_def HIST_MATCH_TIMEOUT_MS_def NEGATIVE_WAIT_MS_def
  HISTORICAL_WAIT_TIMEOUT_S_def HIST_RECEIVE_TIMEOUT_MS_def HIST_POLL_PERIOD_MS_def

definition durable_keep_all :: "int \<Rightarrow> ep_qos" where
  "durable_keep_all dflt = (reliable_keep_all dflt)\<lparr>transient_local := True\<rparr>"

section \<open>Publisher\<close>

text \<open>Its listener is the one of \<open>Example_Publisher\<close> without the ready callback.\<close>

type_synonym 'a hist_pub = "(PubState, int, pub_event, 'a) app"

definition write_history :: "string \<Rightarrow> int \<Rightarrow> nat \<Rightarrow> nat \<Rightarrow> int option hist_pub" where
  "write_history label dw lo n = for_prog lo n (\<lambda>seq. let h = pub_listener in
     sys h (Data (write_data dw (int seq) 0)) (\<lambda>r.
       if ret r \<noteq> 0 then fail_out h (''write() failed at seq_num='' @ dec seq)
       else say h (''Publisher: wrote '' @ label @ '' seq_num='' @ dec seq) (Return None)))"

definition hist_writer_matched :: "int \<Rightarrow> (int \<Rightarrow> 'a hist_pub) \<Rightarrow> 'a hist_pub" where
  "hist_writer_matched dw k = sys pub_listener (Query (get_publication_matched_status dw)) (\<lambda>r.
     k (if ret r = DDS_RETCODE_OK then num r else - 1))"

definition hist_not_matched :: "int \<Rightarrow> int hist_pub" where
  "hist_not_matched dw = (let h = pub_listener in
     load h matched_current_count (\<lambda>n. hist_writer_matched dw (\<lambda>m.
     sys h (eprintf (''  matched: writer listener='' @ dec_int n @ '' status='' @ dec_int m)) (\<lambda>_.
     fail h ''no reader matched within 20s''))))"

definition hist_not_gone :: "int \<Rightarrow> int hist_pub" where
  "hist_not_gone dw = (let h = pub_listener in
     load h matched_current_count (\<lambda>n. load h ever_matched (\<lambda>e. hist_writer_matched dw (\<lambda>m.
     sys h (eprintf (''  matched: writer listener='' @ dec_int n @ '' ever='' @ (if e then ''1'' else ''0'') @ '' status='' @ dec_int m)) (\<lambda>_.
     fail h ''subscriber did not disconnect within 15s'')))))"

definition hist_publisher :: "string list \<Rightarrow> int hist_pub" where
  "hist_publisher argv = (let h = pub_listener in
     open_participant h argv ''HistoryEvent'' ''register_type_support failed'' (\<lambda>factory dp.
     need h (Entity (create_topic dp ''HistoryEvent'' ''HistoryEvent'')) ''create_topic() failed'' (\<lambda>topic.
     say h ''Create topic: HistoryEvent'' (
     need h (Entity (create_publisher dp)) ''create_publisher() failed'' (\<lambda>pub.
     sys h (Entity (get_default_datawriter_qos pub)) (\<lambda>wq.
     Put pub_state (
     need h (Entity (create_datawriter_listening pub topic (durable_keep_all (num wq)))) ''create_datawriter() failed'' (\<lambda>dw.
     say h ''Create writer for topic: HistoryEvent'' (
     bind_prog (write_history ''historical'' dw 0 HISTORICAL_COUNT) (\<lambda>x. leave_or x (
     load h matched_current_count (\<lambda>n.
     if n \<noteq> 0 then fail h ''reader matched before the historical batch finished writing -- not exercising late-join replay''
     else bind_prog (poll h POLL_PERIOD_MS HIST_MATCH_TIMEOUT_MS (load h ever_matched Return)) (\<lambda>matched.
     if \<not> matched then hist_not_matched dw
     else say h ''Publisher: reader matched, writing live batch'' (
     bind_prog (write_history ''live'' dw HISTORICAL_COUNT LIVE_COUNT) (\<lambda>x. leave_or x (
     bind_prog await_drain (\<lambda>gone.
     if \<not> gone then hist_not_gone dw
     else say h ''Publisher: done.'' (
     sys h (Entity (zzdds_destroy_factory factory)) (\<lambda>_. Return 0)))))))))))))))))))"

section \<open>Subscriber\<close>

text \<open>\<open>became_done\<close> is the local variable of the invocation of \<open>take_available\<close> that is running.\<close>

record HistState =
  hist_reader :: bool
  historical_received :: "bool list"
  live_received :: "bool list"
  historical_confirmed :: bool
  all_done :: bool
  became_done :: bool

definition hist_state :: HistState where
  "hist_state = \<lparr>hist_reader = False, historical_received = replicate HISTORICAL_COUNT False, live_received = replicate LIVE_COUNT False,
     historical_confirmed = False, all_done = False, became_done = False\<rparr>"

definition ready_to_finish :: "HistState \<Rightarrow> bool" where
  "ready_to_finish s \<longleftrightarrow> historical_confirmed s \<and> list_all id (live_received s)"

text \<open>One iteration of the loop of \<open>take_available\<close>; the one that finds no data ends it and commits \<open>became_done\<close>.\<close>

definition take_step :: "int \<Rightarrow> int \<Rightarrow> bool \<Rightarrow> HistState \<Rightarrow> HistState outcome" where
  "take_step rc seq_num valid s =
     (if \<not> hist_reader s then Crash ''take through a null reader''
      else if rc = DDS_RETCODE_NO_DATA then Val (s\<lparr>all_done := all_done s \<or> became_done s, became_done := False\<rparr>)
      else if rc \<noteq> DDS_RETCODE_OK then Exit 1
      else if \<not> valid then Val s
      else if 0 \<le> seq_num \<and> seq_num < int HISTORICAL_COUNT
      then Val (s\<lparr>historical_received := (historical_received s)[nat seq_num := True]\<rparr>)
      else if int HISTORICAL_COUNT \<le> seq_num \<and> seq_num < int (HISTORICAL_COUNT + LIVE_COUNT)
      then let s' = s\<lparr>live_received := (live_received s)[nat seq_num - HISTORICAL_COUNT := True]\<rparr> in
        Val (if \<not> all_done s' \<and> \<not> became_done s' \<and> ready_to_finish s' then s'\<lparr>became_done := True\<rparr> else s')
      else Exit 1)"

datatype hist_event = Hist_taken int int bool

fun hist_listener :: "(hist_event, HistState) handler" where
  "hist_listener (Hist_taken rc seq_num valid) s = take_step rc seq_num valid s"

type_synonym 'a hist_sub = "(HistState, int, hist_event, 'a) app"

text \<open>\<open>take_available\<close> called by \<open>main\<close>, with a bound on its takes: it prints, and its \<open>exit\<close> ends the process.\<close>

definition is_live :: "(int, hist_event) answer \<Rightarrow> bool" where
  "is_live r \<longleftrightarrow> ret r = DDS_RETCODE_OK \<and> take_valid r \<and> int HISTORICAL_COUNT \<le> take_value r \<and> take_value r < int (HISTORICAL_COUNT + LIVE_COUNT)"

definition leave_take :: "(int, hist_event) answer \<Rightarrow> unit hist_sub" where
  "leave_take r = sys hist_listener (eprintf (FAIL (if ret r \<noteq> DDS_RETCODE_OK then ''take() CDR error (rc='' @ dec_int (ret r) @ '')''
     else ''unexpected seq_num='' @ dec_int (take_value r)))) (\<lambda>_. Leaf (Exit 1))"

primrec take_available :: "nat \<Rightarrow> int \<Rightarrow> unit hist_sub" where
  "take_available 0 dr = Leaf OutOfFuel"
| "take_available (Suc fuel) dr = sys hist_listener (Data (take_one dr)) (\<lambda>r.
     let store_it = Get (\<lambda>s. case take_step (ret r) (take_value r) (take_valid r) s of
         Val s' \<Rightarrow> Put s' (if ret r = DDS_RETCODE_NO_DATA then Return () else take_available fuel dr)
       | Exit n \<Rightarrow> leave_take r | Crash m \<Rightarrow> Leaf (Crash m) | OutOfFuel \<Rightarrow> Leaf OutOfFuel)
     in if is_live r then say hist_listener (''LIVE SAMPLE seq_num='' @ dec_int (take_value r)) store_it else store_it)"

definition hist_not_done :: "int \<Rightarrow> int hist_sub" where
  "hist_not_done dr = (let h = hist_listener in
     sys h (Query (get_subscription_matched_status dr)) (\<lambda>r.
     sys h (eprintf (''  matched: reader='' @ dec_int (if ret r = DDS_RETCODE_OK then num r else - 1))) (\<lambda>_.
     fail h ''did not observe the full live batch within 30s'')))"

definition await_live :: "int \<Rightarrow> int \<Rightarrow> int \<Rightarrow> int hist_sub" where
  "await_live factory sub dr = (let h = hist_listener in
     bind_prog (poll h HIST_POLL_PERIOD_MS HIST_RECEIVE_TIMEOUT_MS (load h all_done Return)) (\<lambda>b.
     if \<not> b then hist_not_done dr
     else sys h (Entity (delete_datareader sub dr)) (\<lambda>_.
     say h ''Subscriber: observed historical batch then live batch correctly.'' (
     sys h (Entity (zzdds_destroy_factory factory)) (\<lambda>_. Return 0)))))"

definition confirm_history :: "int \<Rightarrow> int \<Rightarrow> int \<Rightarrow> int hist_sub" where
  "confirm_history factory sub dr = (let h = hist_listener in
     Get (\<lambda>s. let historical_count = length (filter id (historical_received s)) in
     if historical_count \<noteq> HISTORICAL_COUNT
     then fail h (''wait_for_historical_data() returned OK but only '' @ dec historical_count @ ''/8 historical samples were actually received'')
     else say h ''HISTORICAL BATCH COMPLETE (8 samples)'' (
     store h (\<lambda>s. s\<lparr>historical_confirmed := True\<rparr>) (
     Get (\<lambda>s. if ready_to_finish s then store h (\<lambda>s. s\<lparr>all_done := True\<rparr>) (await_live factory sub dr)
     else check h (Entity (set_listener dr)) ''set_listener() failed'' (await_live factory sub dr))))))"

definition hist_subscriber :: "nat \<Rightarrow> string list \<Rightarrow> int hist_sub" where
  "hist_subscriber fuel argv = (let h = hist_listener in
     open_participant h argv ''HistoryEvent'' ''register_type_support failed'' (\<lambda>factory dp.
     need h (Entity (create_topic dp ''HistoryEvent'' ''HistoryEvent'')) ''create_topic() failed'' (\<lambda>topic.
     say h ''Create topic: HistoryEvent'' (
     need h (Entity (create_subscriber dp)) ''create_subscriber() failed'' (\<lambda>sub.
     sys h (Entity (get_default_datareader_qos sub)) (\<lambda>rq.
     Put hist_state (
     need h (Entity (create_datareader sub topic (durable_keep_all (num rq)) False)) ''create_datareader() failed'' (\<lambda>dr.
     say h ''Create reader for topic: HistoryEvent'' (
     Get (\<lambda>s. Put (s\<lparr>hist_reader := True\<rparr>) (
     sys h (Query (wait_for_historical_data dr NEGATIVE_WAIT_MS)) (\<lambda>neg_rc.
     if ret neg_rc \<noteq> DDS_RETCODE_TIMEOUT
     then fail h (''wait_for_historical_data() with no writer matched returned '' @ dec_int (ret neg_rc) @ '', expected RETCODE_TIMEOUT (10)'')
     else say h ''Subscriber: negative check (no writer yet) correctly returned TIMEOUT.'' (
     say h ''Subscriber: ready for publisher.'' (
     sys h (Query (wait_for_historical_data dr (HISTORICAL_WAIT_TIMEOUT_S * 1000))) (\<lambda>rc.
     if ret rc \<noteq> DDS_RETCODE_OK then fail h (''wait_for_historical_data() returned '' @ dec_int (ret rc))
     else say h ''Subscriber: wait_for_historical_data() returned'' (
     bind_prog (take_available fuel dr) (\<lambda>_.
     confirm_history factory sub dr)))))))))))))))))"

end
