(* ===== verification/History_Contracts.thy ===== *)
theory History_Contracts
  imports History_Replay
begin

text \<open>
  The contracts of the two programs of \<open>wait-for-historical-data\<close> and their composition.
\<close>

section \<open>Publisher\<close>

text \<open>The number of matched readers that was reported last.\<close>

definition last_count :: "pub_event list \<Rightarrow> int" where
  "last_count = foldl (\<lambda>n e. case e of Publication_matched m \<Rightarrow> m | Reader_ready b \<Rightarrow> n) 0"

interpretation pub_count: tracked_listener pub_listener pub_state "\<lambda>es s. matched_current_count s = last_count es"
proof unfold_locales
  show "matched_current_count pub_state = last_count []" by (simp add: pub_state_def last_count_def)
next
  fix es s e s'
  assume "matched_current_count s = last_count es" and "pub_listener e s = Val s'"
  then show "matched_current_count s' = last_count (es @ [e])"
    by (cases e) (auto simp: last_count_def on_publication_matched_def on_reliable_reader_ready_def Let_def)
qed

definition saw_reader :: "(int, pub_event) atrace \<Rightarrow> bool" where
  "saw_reader tr \<longleftrightarrow> (\<exists>n>0. Publication_matched n \<in> set (events tr))"

lemma saw_reader_append: "saw_reader tr \<Longrightarrow> saw_reader (q @ tr)"
  by (auto simp: saw_reader_def)

definition wrote_history :: "string \<Rightarrow> int \<Rightarrow> nat \<Rightarrow> nat \<Rightarrow> (int, pub_event) atrace \<Rightarrow> bool" where
  "wrote_history label dw lo n q \<longleftrightarrow> only written q = map (\<lambda>k. (dw, int k)) [lo..<n]
     \<and> only printed q = map (\<lambda>k. ''Publisher: wrote '' @ label @ '' seq_num='' @ dec k) [lo..<n] \<and> only destroyed q = [] \<and> creations q = []"

abbreviation pub_stands :: "nat \<Rightarrow> PubState \<Rightarrow> (int, pub_event) atrace \<Rightarrow> bool" where
  "pub_stands \<equiv> stands pub_listener pub_state"

lemma wpt_write_history:
  assumes "pub_stands k s tr" and "k \<le> B"
    and "\<And>s' q. pub_stands k s' (q @ tr) \<Longrightarrow> wrote_history label dw lo (lo + n) q \<Longrightarrow> wpt G (verdict pub_listener pub_state B P) p s' (q @ tr)"
  shows "wpt G (verdict pub_listener pub_state B P) (bind_prog (write_history label dw lo n) (\<lambda>x. leave_or x p)) s tr"
  unfolding write_history_def Let_def
proof (rule wpt_main_loop [where J = "wrote_history label dw lo"])
  fix j s' q
  assume j: "lo \<le> j" and s': "pub_stands k s' (q @ tr)" and q: "wrote_history label dw lo j q"
  show "wpt G (iteration pub_listener pub_state B P k tr (wrote_history label dw lo (Suc j)))
     (sys pub_listener (Data (write_data dw (int j) 0)) (\<lambda>r.
       if ret r \<noteq> 0 then fail_out pub_listener (''write() failed at seq_num='' @ dec j)
       else say pub_listener (''Publisher: wrote '' @ label @ '' seq_num='' @ dec j) (Return None))) s' (q @ tr)"
    apply (rule wpt_step [OF s'], simp, simp, rule wpt_ifI, erule wpt_fail_out, rule assms(2))
    apply (erule wpt_step, simp, simp, erule wpt_continue)
    using q j apply (simp flip: append_Cons, simp add: wrote_history_def)
    done
qed (use assms in \<open>simp_all add: wrote_history_def\<close>)

lemma wpt_await_ever:
  assumes "pub_stands k s tr" and "lets_break pub_listener pub_state Q"
    and "\<And>b q s'. idle q \<Longrightarrow> pub_stands (k + 20000) s' (q @ tr) \<Longrightarrow> (b \<Longrightarrow> saw_reader (q @ tr)) \<Longrightarrow> wpt G Q (f b) s' (q @ tr)"
  shows "wpt G Q (bind_prog (poll pub_listener POLL_PERIOD_MS HIST_MATCH_TIMEOUT_MS (load pub_listener ever_matched Return)) f) s tr"
  by (rule pub.await_tracked [OF reads_load _ assms(1,2), where R = "\<lambda>es. \<exists>n>0. Publication_matched n \<in> set es"])
     (use assms(3) in \<open>auto simp: pub_tracks_def saw_reader_def POLL_PERIOD_MS_def HIST_MATCH_TIMEOUT_MS_def\<close>)

text \<open>At one moment the first batch was written, nothing else was, and no reader was matched.\<close>

definition history_first :: "int \<Rightarrow> (int, pub_event) atrace \<Rightarrow> bool" where
  "history_first dw tr \<longleftrightarrow> (\<exists>q tr0. tr = q @ tr0 \<and> only written tr0 = map (\<lambda>k. (dw, int k)) [0..<8] \<and> last_count (events tr0) = 0)"

text \<open>The one writer, which keeps its samples for late readers: transient local, reliable and with its whole history.\<close>

definition durable_writer_made :: "int \<Rightarrow> (int, pub_event) atrace \<Rightarrow> bool" where
  "durable_writer_made dw tr \<longleftrightarrow> (\<exists>f domain dp topic pub q. creations tr =
     [(Entity zzdds_create_factory, f), (Entity (create_participant f domain), dp), (Entity (create_topic dp ''HistoryEvent'' ''HistoryEvent''), topic),
      (Entity (create_publisher dp), pub), (Entity (create_datawriter_listening pub topic q), dw)]
     \<and> transient_local q \<and> reliable q \<and> keep_all q)"

definition history_published :: "(int, pub_event) atrace \<Rightarrow> bool" where
  "history_published tr \<longleftrightarrow> (\<exists>dw. durable_writer_made dw tr \<and> only written tr = map (\<lambda>k. (dw, int k)) [0..<12] \<and> history_first dw tr)
     \<and> before (writes_from 8) saw_reader tr \<and> saw_disconnect (events tr)
     \<and> only printed tr = [''Create topic: HistoryEvent'', ''Create writer for topic: HistoryEvent'']
         @ map (\<lambda>k. ''Publisher: wrote historical seq_num='' @ dec k) [0..<8] @ [''Publisher: reader matched, writing live batch'']
         @ map (\<lambda>k. ''Publisher: wrote live seq_num='' @ dec k) [8..<12] @ [''Publisher: done.'']
     \<and> closes tr"

lemma history_published_trace:
  assumes t: "only written tr = []" "only destroyed tr = []" "\<And>P. before is_write P tr"
      "only printed tr = [''Create topic: HistoryEvent'', ''Create writer for topic: HistoryEvent'']"
      "\<exists>r. (Entity zzdds_create_factory, r) \<in> set tr \<and> ret r = f" "durable_writer_made dw tr"
    and q: "wrote_history ''historical'' dw 0 8 q1" "last_count (events ((atomic_access, r0) # q1 @ tr)) = 0"
      "idle q2" "saw_reader (q2 @ (atomic_access, r0) # q1 @ tr)" "wrote_history ''live'' dw 8 12 q3" "idle q4"
      "saw_disconnect (events (q4 @ q3 @ (printf ''Publisher: reader matched, writing live batch'', r1) # q2 @ (atomic_access, r0) # q1 @ tr))"
  shows "history_published ((Entity (zzdds_destroy_factory f), r3) # (printf ''Publisher: done.'', r2) # q4 @ q3
      @ (printf ''Publisher: reader matched, writing live batch'', r1) # q2 @ (atomic_access, r0) # q1 @ tr)"
proof -
  let ?late = "[(Entity (zzdds_destroy_factory f), r3), (printf ''Publisher: done.'', r2)] @ q4 @ q3
      @ [(printf ''Publisher: reader matched, writing live batch'', r1)]"
  let ?old = "(atomic_access, r0) # q1 @ tr"
  let ?tr = "?late @ q2 @ ?old"
  have "before (writes_from 8) saw_reader tr"
    by (rule before_imp [OF t(3) writes_from_write])
  then have "before (writes_from 8) saw_reader (q1 @ tr)"
    by (rule before_other) (rule batch_not_later [where n = 8, simplified], use q(1) in \<open>auto simp: wrote_history_def\<close>)
  then have "before (writes_from 8) saw_reader (q2 @ ?old)"
    by (intro before_other) (use idle_not_write [OF q(3)] writes_from_write in auto)
  then have b: "before (writes_from 8) saw_reader ?tr"
    by (rule before_append) (rule saw_reader_append [OF q(4)])
  have w: "saw_disconnect (events ?tr)"
    using saw_disconnect_append [OF q(7), of "events [(Entity (zzdds_destroy_factory f), r3), (printf ''Publisher: done.'', r2)]"] by simp
  have c: "closes ?tr"
    using t q by (auto simp: wrote_history_def intro!: closesI)
  have h: "history_first dw ?tr"
    unfolding history_first_def
    by (intro exI [of _ "?late @ q2"] exI [of _ ?old]) (use t q in \<open>simp add: wrote_history_def\<close>)
  have "only written ?tr = map (\<lambda>k. (dw, int k)) ([0..<8] @ [8..<12])"
    using t q by (simp add: wrote_history_def)
  also have "[0..<8] @ [8..<12] = [0..<12::nat]"
    using upt_add_eq_append [of 0 8 4] by simp
  finally have o: "only written ?tr = map (\<lambda>k. (dw, int k)) [0..<12]" .
  have p: "only printed ?tr = [''Create topic: HistoryEvent'', ''Create writer for topic: HistoryEvent'']
         @ map (\<lambda>k. ''Publisher: wrote historical seq_num='' @ dec k) [0..<8] @ [''Publisher: reader matched, writing live batch'']
         @ map (\<lambda>k. ''Publisher: wrote live seq_num='' @ dec k) [8..<12] @ [''Publisher: done.'']"
    using t q by (simp add: wrote_history_def)
  have m: "durable_writer_made dw ?tr"
    using t(6) q by (simp add: durable_writer_made_def wrote_history_def)
  have "history_published ?tr"
    unfolding history_published_def using b w c h o p m by blast
  then show ?thesis by simp
qed

lemma hist_publisher_wpt:
  "wpt (listening installs_listening) (verdict pub_listener pub_state 35000 (\<lambda>_. history_published)) (hist_publisher argv) s []"
  unfolding hist_publisher_def hist_not_matched_def hist_not_gone_def hist_writer_matched_def Let_def
  apply (rule wpt_open_participant [OF heeds_installs_listening setup_not_listening], assumption)
  apply (rule early_listening, assumption, simp)+
  apply (rule wpt_PutI, rule wpt_need, erule early_stands, simp)
  apply (erule wpt_step, simp, simp)
  apply (erule wpt_write_history, simp)
  apply (erule wpt_load_stands, simp, frule pub_count.tracks_stands, rule wpt_ifI, erule wpt_fail, simp)
  apply (erule wpt_await_ever, simp, rule wpt_ifI)
   apply (erule wpt_load_stands, simp, (erule wpt_step, simp, simp)+, erule wpt_fail, simp)
  apply (erule wpt_step, simp, simp)
  apply (erule wpt_write_history, simp)
  apply (erule wpt_await_drain, simp, rule wpt_ifI)
   apply ((erule wpt_load_stands, simp)+, (erule wpt_step, simp, simp)+, erule wpt_fail, simp)
  apply (erule wpt_step, simp, simp)+
  apply (simp add: verdict_def stands_def)
  apply (rule history_published_trace)
  apply (simp_all add: opened_no_write opened_factory HISTORICAL_COUNT_def LIVE_COUNT_def
      durable_writer_made_def durable_keep_all_def reliable_keep_all_def)
  done

text \<open>C16. The publisher of the historical-data test, against an arbitrary middleware that calls no listener before it is
  installed: it sleeps 35 seconds at most and ends with 1 right after a \<open>FAIL:\<close> line, or with 0. With 0 it had created one writer, which is
  transient local and reliable and keeps all its samples, and wrote the samples 0 to 11 on it in order; at a moment at which exactly the first
  eight were written no reader was matched, going by the count that had been reported last (a reader that came and went before would not show);
  none of the other four was written before a matched reader was reported; that reader had gone at the end, the documented lines were printed
  and the factory was destroyed last.\<close>

theorem hist_publisher_contract:
  assumes "\<And>tr c. listening installs_listening tr c (env tr c)"
  shows "case run env (hist_publisher argv) s [] of (x, s', tr) \<Rightarrow>
    slept tr \<le> 35000 \<and> (x = Val 1 \<and> failed tr \<or> x = Val 0 \<and> history_published tr)"
  using wpt_run_result [where e = env, OF hist_publisher_wpt assms, of argv s]
  by (simp add: verdict_def split_beta) blast

text \<open>Every call succeeds; a reader comes during the first sleep and goes with the last sample.\<close>

fun late_reader_env :: "(int app_call, (int, pub_event) answer) env" where
  "late_reader_env tr (sleep_ms n) = answers 0 (if list_ex (installs_listening \<circ> fst) tr then [Publication_matched 1] else [])"
| "late_reader_env tr (Data (write_data w v h)) = answers 0 (if v = 11 \<and> list_ex (installs_listening \<circ> fst) tr then [Publication_matched 0] else [])"
| "late_reader_env tr (Entity (create_topic dp name type)) = answers 1 []"
| "late_reader_env tr (Entity (create_participant f d)) = answers 1 []"
| "late_reader_env tr (Entity (create_publisher dp)) = answers 1 []"
| "late_reader_env tr (Entity (create_datawriter_listening p t q)) = answers 1 []"
| "late_reader_env tr c = answers 0 []"

lemma late_reader_env_listens: "listening installs_listening tr c (late_reader_env tr c)"
  by (cases "(tr, c)" rule: late_reader_env.cases) (auto simp: listening_def answers_def list_ex_iff)

lemma hist_publisher_run: "fst (run late_reader_env (hist_publisher [''p'']) pub_state []) = Val 0"
  by (simp add: evaluate hist_publisher_def write_history_def await_drain_def hist_constants POLL_PERIOD_MS_def DRAIN_TIMEOUT_MS_def
     pub_state_def on_publication_matched_def)

theorem hist_publisher_contract_witness:
  "case run late_reader_env (hist_publisher [''p'']) pub_state [] of (x, s', tr) \<Rightarrow>
    slept tr \<le> 35000 \<and> x = Val 0 \<and> history_published tr"
  using hist_publisher_contract [OF late_reader_env_listens, of "[''p'']" pub_state] hist_publisher_run
  by (auto simp: split_beta)

end
