(* ===== verification/History_Receiving.thy ===== *)
theory History_Receiving
  imports History_Contracts
begin

text \<open>
  What the late-joining subscriber of \<open>wait-for-historical-data\<close> has established when it succeeds, and its composition with the
  publisher.
\<close>

section \<open>One take\<close>

definition hist_inv :: "HistState \<Rightarrow> bool" where
  "hist_inv s \<longleftrightarrow> hist_reader s \<and> length (historical_received s) = 8 \<and> length (live_received s) = 4"

text \<open>What \<open>take_available\<close> accepts: an empty take, an invalid sample, a sample of one of the two batches.\<close>

definition takeable :: "int \<Rightarrow> int \<Rightarrow> bool \<Rightarrow> bool" where
  "takeable rc v valid \<longleftrightarrow> rc = DDS_RETCODE_NO_DATA \<or> rc = DDS_RETCODE_OK \<and> (valid \<longrightarrow> 0 \<le> v \<and> v < 12)"

lemma take_step_outcome:
  assumes "hist_inv s"
  shows "if takeable rc v valid then \<exists>s'. take_step rc v valid s = Val s' \<and> hist_inv s' else take_step rc v valid s = Exit 1"
  using assms by (auto simp: take_step_def takeable_def hist_inv_def Let_def HISTORICAL_COUNT_def LIVE_COUNT_def)

text \<open>The samples an accepted take stands for.\<close>

definition gave :: "int \<Rightarrow> int \<Rightarrow> bool \<Rightarrow> nat \<Rightarrow> bool" where
  "gave rc v valid k \<longleftrightarrow> rc = DDS_RETCODE_OK \<and> valid \<and> v = int k"

lemma take_step_marks:
  assumes "take_step rc v valid s = Val s'" and "hist_inv s"
  shows "k < 8 \<Longrightarrow> historical_received s' ! k \<longleftrightarrow> historical_received s ! k \<or> gave rc v valid k"
    and "k < 4 \<Longrightarrow> live_received s' ! k \<longleftrightarrow> live_received s ! k \<or> gave rc v valid (8 + k)"
    and "historical_confirmed s' = historical_confirmed s"
    and "became_done s' \<Longrightarrow> became_done s \<or> historical_confirmed s' \<and> list_all id (live_received s')"
    and "all_done s' \<Longrightarrow> all_done s \<or> became_done s \<and> rc = DDS_RETCODE_NO_DATA"
  using assms
  by (auto simp: take_step_def hist_inv_def gave_def Let_def HISTORICAL_COUNT_def LIVE_COUNT_def nth_list_update ready_to_finish_def
      split: if_splits)

section \<open>The listener\<close>

definition listened :: "hist_event list \<Rightarrow> nat \<Rightarrow> bool" where
  "listened es k \<longleftrightarrow> Hist_taken DDS_RETCODE_OK (int k) True \<in> set es"

text \<open>With what the state \<open>i\<close> already held, the callbacks complete the live batch; and after that a take found no more data, which
  is where an invocation of the listener ends.\<close>

definition live_complete :: "HistState \<Rightarrow> hist_event list \<Rightarrow> bool" where
  "live_complete i es \<longleftrightarrow> (\<forall>k<4. live_received i ! k \<or> listened es (8 + k))"

definition finished_taking :: "HistState \<Rightarrow> hist_event list \<Rightarrow> bool" where
  "finished_taking i es \<longleftrightarrow> (\<exists>es1 v b es2. es = es1 @ Hist_taken DDS_RETCODE_NO_DATA v b # es2 \<and> live_complete i es1)"

definition hist_tracks :: "HistState \<Rightarrow> hist_event list \<Rightarrow> HistState \<Rightarrow> bool" where
  "hist_tracks i es s \<longleftrightarrow> (hist_inv i \<and> \<not> became_done i \<longrightarrow> hist_inv s
     \<and> (\<forall>k<4. live_received s ! k \<longrightarrow> live_received i ! k \<or> listened es (8 + k))
     \<and> (became_done s \<longrightarrow> live_complete i es) \<and> (all_done s \<longrightarrow> all_done i \<or> finished_taking i es))"

lemma listened_snoc: "listened (es @ [Hist_taken rc v b]) k \<longleftrightarrow> listened es k \<or> gave rc v b k"
  by (auto simp: listened_def gave_def)

lemma live_complete_snoc: "live_complete i es \<Longrightarrow> live_complete i (es @ [e])"
  by (auto simp: live_complete_def listened_def)

lemma finished_taking_snoc: "finished_taking i es \<Longrightarrow> finished_taking i (es @ [e])"
  by (force simp: finished_taking_def)

interpretation hist: tracked_listener hist_listener i "hist_tracks i" for i
proof unfold_locales
  show "hist_tracks i [] i" by (simp add: hist_tracks_def)
next
  fix es s e s'
  assume t: "hist_tracks i es s" and step: "hist_listener e s = Val s'"
  obtain rc v b where e: "e = Hist_taken rc v b" by (cases e)
  show "hist_tracks i (es @ [e]) s'"
    unfolding hist_tracks_def
  proof (intro impI)
    assume i: "hist_inv i \<and> \<not> became_done i"
    then have s: "hist_inv s" "\<And>k. k < 4 \<Longrightarrow> live_received s ! k \<Longrightarrow> live_received i ! k \<or> listened es (8 + k)"
        "became_done s \<Longrightarrow> live_complete i es" "all_done s \<Longrightarrow> all_done i \<or> finished_taking i es"
      using t by (auto simp: hist_tracks_def)
    have step': "take_step rc v b s = Val s'" using step by (simp add: e)
    note m = take_step_marks [OF step' s(1)]
    have inv: "hist_inv s'" using take_step_outcome [OF s(1), of rc v b] step' by (auto split: if_splits)
    have live: "live_received i ! k \<or> listened (es @ [e]) (8 + k)" if "k < 4" "live_received s' ! k" for k
      using m(2) [OF that(1)] s(2) that by (auto simp: e listened_snoc)
    have "live_complete i (es @ [e])" if "became_done s'"
    proof (cases "became_done s")
      case False
      then have "list_all id (live_received s')" using m(4) that by blast
      then have "\<forall>k<4. live_received s' ! k" using inv by (simp add: hist_inv_def list_all_length)
      then show ?thesis using live by (auto simp: live_complete_def)
    qed (use s(3) live_complete_snoc in blast)
    moreover have "all_done i \<or> finished_taking i (es @ [e])" if "all_done s'"
    proof (cases "all_done s")
      case False
      then have "rc = DDS_RETCODE_NO_DATA" "live_complete i es" using m(5) [OF that] s(3) by blast+
      then have "finished_taking i (es @ [e])" unfolding finished_taking_def e by (intro exI conjI) simp_all
      then show ?thesis ..
    qed (use s(4) finished_taking_snoc in blast)
    ultimately show "hist_inv s' \<and> (\<forall>k<4. live_received s' ! k \<longrightarrow> live_received i ! k \<or> listened (es @ [e]) (8 + k))
        \<and> (became_done s' \<longrightarrow> live_complete i (es @ [e])) \<and> (all_done s' \<longrightarrow> all_done i \<or> finished_taking i (es @ [e]))"
      using inv live by blast
  qed
qed

text \<open>The listener ends the process exactly when it takes something that is not takeable.\<close>

fun takeable_event :: "hist_event \<Rightarrow> bool" where
  "takeable_event (Hist_taken rc v b) = takeable rc v b"

lemma hist_deliver:
  "hist_inv s \<Longrightarrow> if list_all takeable_event es then \<exists>s'. deliver hist_listener es s = Val s' else deliver hist_listener es s = Exit 1"
proof (induction es arbitrary: s)
  case (Cons e es)
  obtain rc v b where e: "e = Hist_taken rc v b" by (cases e)
  show ?case
    using take_step_outcome [OF Cons.prems, of rc v b] Cons.IH by (auto simp: e split: if_splits)
qed simp

lemma hist_broken:
  "hist_inv i \<Longrightarrow> broken hist_listener i x tr \<longleftrightarrow> x = Exit 1 \<and> \<not> list_all takeable_event (events tr)"
  using hist_deliver [of i "events tr"] by (cases x) (auto split: if_splits)

section \<open>The contract\<close>

text \<open>\<open>main\<close> itself took the sample from the reader.\<close>

definition main_got :: "int \<Rightarrow> (int, hist_event) atrace \<Rightarrow> nat \<Rightarrow> bool" where
  "main_got dr tr k \<longleftrightarrow> (\<exists>r. (Data (take_one dr), r) \<in> set tr \<and> gave (ret r) (take_value r) (take_valid r) k)"

lemma main_got_simps [simp]:
  "\<not> main_got dr [] k"
  "main_got dr ((c, r) # tr) k \<longleftrightarrow> c = Data (take_one dr) \<and> gave (ret r) (take_value r) (take_valid r) k \<or> main_got dr tr k"
  "main_got dr (q @ tr) k \<longleftrightarrow> main_got dr q k \<or> main_got dr tr k"
  by (auto simp: main_got_def)

fun attaches :: "'v app_call \<Rightarrow> bool" where
  "attaches (Entity (set_listener dr)) = True"
| "attaches _ = False"

fun deletes_reader :: "'v app_call \<Rightarrow> bool" where
  "deletes_reader (Entity (delete_datareader sub dr)) = True"
| "deletes_reader _ = False"

text \<open>The first wait timed out, the second did not, and after it \<open>main\<close> took the whole first batch.\<close>

definition replayed :: "int \<Rightarrow> (int, hist_event) atrace \<Rightarrow> bool" where
  "replayed dr tr \<longleftrightarrow> (\<exists>q r1 r2 tr0. tr = q @ (Query (wait_for_historical_data dr 15000), r2) # tr0 \<and> ret r2 = DDS_RETCODE_OK
     \<and> (Query (wait_for_historical_data dr 300), r1) \<in> set tr0 \<and> ret r1 = DDS_RETCODE_TIMEOUT \<and> (\<forall>k<8. main_got dr q k))"

text \<open>The second batch came to \<open>main\<close> or to the listener; if the listener completed it, its take loop has ended.\<close>

definition live_seen :: "int \<Rightarrow> (int, hist_event) atrace \<Rightarrow> bool" where
  "live_seen dr tr \<longleftrightarrow> (\<forall>k<4. main_got dr tr (8 + k)) \<or> (\<exists>es1 v b es2. events tr = es1 @ Hist_taken DDS_RETCODE_NO_DATA v b # es2
     \<and> (\<forall>k<4. main_got dr tr (8 + k) \<or> listened es1 (8 + k)))"

definition history_received :: "(int, hist_event) atrace \<Rightarrow> bool" where
  "history_received tr \<longleftrightarrow> (\<exists>dr sub f. before attaches (replayed dr) tr \<and> before deletes_reader (\<lambda>tr. replayed dr tr \<and> live_seen dr tr) tr
     \<and> map fst (take 3 tr) = [Entity (zzdds_destroy_factory f),
         printf ''Subscriber: observed historical batch then live batch correctly.'', Entity (delete_datareader sub dr)])
     \<and> closes tr"

text \<open>\<open>main\<close> took something that is not takeable, and reported it.\<close>

definition refused :: "(int, hist_event) atrace \<Rightarrow> bool" where
  "refused tr \<longleftrightarrow> (\<exists>line r0 dr r rest. tr = (eprintf (FAIL line), r0) # rest \<and> (Data (take_one dr), r) \<in> set rest
     \<and> \<not> takeable (ret r) (take_value r) (take_valid r))"

definition hist_post :: "int outcome \<Rightarrow> HistState \<Rightarrow> (int, hist_event) atrace \<Rightarrow> bool" where
  "hist_post x s tr \<longleftrightarrow> x = Exit 1 \<and> (\<not> list_all takeable_event (events tr) \<or> refused tr)
     \<or> slept tr \<le> 30000 \<and> (x = Val 1 \<and> failed tr \<or> x = Val 0 \<and> history_received tr)"

lemma hist_admits_failure [simp]: "hist_inv i \<Longrightarrow> admits_failure hist_listener i 30000 hist_post"
  by (auto simp: admits_failure_def lets_break_def hist_post_def hist_broken)

lemma hist_lets_break [simp]: "hist_inv i \<Longrightarrow> lets_break hist_listener i hist_post"
  using hist_admits_failure unfolding admits_failure_def by blast

section \<open>The takes of \<open>main\<close>\<close>

text \<open>Before the listener is attached: what is marked was taken by \<open>main\<close>.\<close>

definition held :: "int \<Rightarrow> HistState \<Rightarrow> (int, hist_event) atrace \<Rightarrow> bool" where
  "held dr s tr \<longleftrightarrow> hist_inv s \<and> \<not> all_done s \<and> \<not> became_done s \<and> \<not> historical_confirmed s
     \<and> (\<forall>k<8. historical_received s ! k \<longrightarrow> main_got dr tr k) \<and> (\<forall>k<4. live_received s ! k \<longrightarrow> main_got dr tr (8 + k))"

lemma held_step:
  assumes "held dr s tr" and "take_step (ret r) (take_value r) (take_valid r) s = Val s'"
  shows "held dr s' ((Data (take_one dr), r) # tr)"
proof -
  have inv: "hist_inv s" using assms(1) by (simp add: held_def)
  note m = take_step_marks [OF assms(2) inv]
  have "hist_inv s'" using take_step_outcome [OF inv, of "ret r" "take_value r" "take_valid r"] assms(2) by (auto split: if_splits)
  moreover have "\<not> all_done s'" "\<not> became_done s'" "\<not> historical_confirmed s'" using m(3-5) assms(1) by (auto simp: held_def)
  ultimately show ?thesis using m(1,2) assms(1) by (auto simp: held_def)
qed

lemma held_append: "held dr s tr \<Longrightarrow> held dr s (q @ tr)"
  by (auto simp: held_def)

text \<open>The reader hands out at most \<open>m\<close> samples to \<open>main\<close>, which bounds the iterations of \<open>take_available\<close>.\<close>

fun is_take :: "'v app_call \<Rightarrow> bool" where
  "is_take (Data (take_one dr)) = True"
| "is_take _ = False"

definition takes_made :: "('v, 'e) atrace \<Rightarrow> nat" where
  "takes_made tr = length (filter (is_take \<circ> fst) tr)"

lemma takes_made_simps [simp]: "takes_made [] = 0" "takes_made ((c, r) # tr) = (if is_take c then Suc (takes_made tr) else takes_made tr)"
  "takes_made (q @ tr) = takes_made q + takes_made tr"
  by (simp_all add: takes_made_def)

definition runs_dry :: "nat \<Rightarrow> ('v, 'e) atrace \<Rightarrow> 'v app_call \<Rightarrow> ('v, 'e) answer \<Rightarrow> bool" where
  "runs_dry m tr c r \<longleftrightarrow> (is_take c \<and> m \<le> takes_made tr \<longrightarrow> ret r = DDS_RETCODE_NO_DATA)"

definition hist_env :: "nat \<Rightarrow> (int, hist_event) atrace \<Rightarrow> int app_call \<Rightarrow> (int, hist_event) answer \<Rightarrow> bool" where
  "hist_env m tr c r \<longleftrightarrow> listening installs_reader_listener tr c r \<and> runs_dry m tr c r"

lemma heeds_hist [simp]: "heeds installs_reader_listener (hist_env m)"
  by (simp add: heeds_def hist_env_def)

lemma hist_take_step:
  assumes "early installs_reader_listener tr"
    and "\<And>r. runs_dry m tr (Data (take_one dr)) r \<Longrightarrow> evs r = [] \<Longrightarrow> wpt (hist_env m) Q (k r) s ((Data (take_one dr), r) # tr)"
  shows "wpt (hist_env m) Q (sys hist_listener (Data (take_one dr)) k) s tr"
proof -
  have "evs r = []" if "hist_env m tr (Data (take_one dr)) r" for r
    using assms(1) that unfolding hist_env_def listening_def early_def by auto
  then show ?thesis using assms(2) by (simp add: sys_def hist_env_def)
qed

text \<open>What \<open>take_available\<close> does: takes and output.\<close>

fun taking_call :: "'v app_call \<Rightarrow> bool" where
  "taking_call (Data (take_one dr)) = True"
| "taking_call (printf line) = True"
| "taking_call _ = False"

definition takes_only :: "('v, 'e) atrace \<Rightarrow> bool" where
  "takes_only q \<longleftrightarrow> (\<forall>x\<in>set q. taking_call (fst x))"

lemma takes_only_simps [simp]:
  "takes_only []" "takes_only ((c, r) # q) \<longleftrightarrow> taking_call c \<and> takes_only q" "takes_only (q @ q') \<longleftrightarrow> takes_only q \<and> takes_only q'"
  by (auto simp: takes_only_def)

lemma wpt_leave_take:
  assumes "early installs_reader_listener tr" and "(Data (take_one dr), r) \<in> set tr" and "\<not> takeable (ret r) (take_value r) (take_valid r)"
  shows "wpt (hist_env m) hist_post (bind_prog (leave_take r) k) s tr"
  unfolding leave_take_def bind_sys
  by (rule early_step [OF heeds_hist assms(1)]) (use assms(2,3) in \<open>auto simp: hist_post_def refused_def\<close>)

definition record_take :: "nat \<Rightarrow> int \<Rightarrow> (int, hist_event) answer \<Rightarrow> unit hist_sub" where
  "record_take fuel dr r = Get (\<lambda>s. case take_step (ret r) (take_value r) (take_valid r) s of
         Val s' \<Rightarrow> Put s' (if ret r = DDS_RETCODE_NO_DATA then Return () else take_available fuel dr)
       | Exit n \<Rightarrow> leave_take r | Crash m \<Rightarrow> Leaf (Crash m) | OutOfFuel \<Rightarrow> Leaf OutOfFuel)"

lemma wpt_record_take:
  assumes "early installs_reader_listener tr" and "held dr s tr0" and "tr = q @ (Data (take_one dr), r) # tr0"
    and "\<And>s'. held dr s' tr \<Longrightarrow> ret r = DDS_RETCODE_NO_DATA \<Longrightarrow> wpt (hist_env m) hist_post (k ()) s' tr"
    and "\<And>s'. held dr s' tr \<Longrightarrow> ret r \<noteq> DDS_RETCODE_NO_DATA \<Longrightarrow> wpt (hist_env m) hist_post (bind_prog (take_available fuel dr) k) s' tr"
  shows "wpt (hist_env m) hist_post (bind_prog (record_take fuel dr r) k) s tr"
proof (cases "takeable (ret r) (take_value r) (take_valid r)")
  case True
  have "hist_inv s" using assms(2) by (simp add: held_def)
  with True obtain s' where s': "take_step (ret r) (take_value r) (take_valid r) s = Val s'"
    using take_step_outcome [of s "ret r" "take_value r" "take_valid r"] by auto
  then have "held dr s' tr" unfolding assms(3) by (intro held_append held_step [OF assms(2)])
  then show ?thesis using assms(4,5) by (simp add: record_take_def s' del: wpt_bind)
next
  case False
  have "hist_inv s" using assms(2) by (simp add: held_def)
  with False have "take_step (ret r) (take_value r) (take_valid r) s = Exit 1"
    using take_step_outcome [of s "ret r" "take_value r" "take_valid r"] by auto
  then show ?thesis
    using wpt_leave_take [OF assms(1) _ False, of dr] assms(3) by (simp add: record_take_def del: wpt_bind)
qed

lemma wpt_take_available:
  assumes "early installs_reader_listener tr" and "held dr s tr" and "takes_made tr \<le> m" and "m < takes_made tr + fuel"
    and "\<And>s' q. early installs_reader_listener (q @ tr) \<Longrightarrow> held dr s' (q @ tr) \<Longrightarrow> takes_only q
      \<Longrightarrow> wpt (hist_env m) hist_post (k ()) s' (q @ tr)"
  shows "wpt (hist_env m) hist_post (bind_prog (take_available fuel dr) k) s tr"
  using assms
proof (induction fuel arbitrary: s tr)
  case (Suc fuel)
  note go = Suc.prems(5)
  have rec: "wpt (hist_env m) hist_post (bind_prog (record_take fuel dr r) k) s (q @ (Data (take_one dr), r) # tr)"
    if e: "early installs_reader_listener (q @ (Data (take_one dr), r) # tr)" and q: "takes_only q" "takes_made q = 0"
      and dry: "runs_dry m tr (Data (take_one dr)) r" for q r
  proof (rule wpt_record_take [OF e Suc.prems(2)], rule refl)
    fix s' assume "held dr s' (q @ (Data (take_one dr), r) # tr)"
    then show "wpt (hist_env m) hist_post (k ()) s' (q @ (Data (take_one dr), r) # tr)"
      using go [of "q @ [(Data (take_one dr), r)]"] e q by simp
  next
    fix s' assume h: "held dr s' (q @ (Data (take_one dr), r) # tr)" and n: "ret r \<noteq> DDS_RETCODE_NO_DATA"
    have "takes_made tr < m" using dry n by (auto simp: runs_dry_def not_le)
    then show "wpt (hist_env m) hist_post (bind_prog (take_available fuel dr) k) s' (q @ (Data (take_one dr), r) # tr)"
      using Suc.prems(4) q go [of "q' @ q @ [(Data (take_one dr), r)]" for q'] by (intro Suc.IH [OF e h]) auto
  qed
  show ?case
    unfolding take_available.simps record_take_def [symmetric] Let_def bind_sys
  proof (rule hist_take_step [OF Suc.prems(1)])
    fix r :: "(int, hist_event) answer" assume r: "runs_dry m tr (Data (take_one dr)) r" "evs r = []"
    have e: "early installs_reader_listener ((Data (take_one dr), r) # tr)" using Suc.prems(1) r by simp
    show "wpt (hist_env m) hist_post (bind_prog (if is_live r
          then say hist_listener (''LIVE SAMPLE seq_num='' @ dec_int (take_value r)) (record_take fuel dr r) else record_take fuel dr r) k)
        s ((Data (take_one dr), r) # tr)"
    proof (cases "is_live r")
      case True
      show ?thesis unfolding if_P [OF True] bind_sys
        by (rule early_step [OF heeds_hist e]) (use rec [OF _ _ _ r(1), of "[x]" for x] in auto)
    next
      case False
      show ?thesis unfolding if_not_P [OF False] using rec [OF _ _ _ r(1), of "[]"] e by simp
    qed
  qed
qed simp

section \<open>\<open>main\<close> as a whole\<close>

text \<open>What is settled before \<open>main\<close> waits for the live batch.\<close>

definition settled :: "int \<Rightarrow> int \<Rightarrow> HistState \<Rightarrow> (int, hist_event) atrace \<Rightarrow> bool" where
  "settled f dr i tr \<longleftrightarrow> hist_inv i \<and> \<not> became_done i \<and> (\<forall>k<4. live_received i ! k \<longrightarrow> main_got dr tr (8 + k))
     \<and> (all_done i \<longrightarrow> list_all id (live_received i)) \<and> replayed dr tr \<and> before attaches (replayed dr) tr
     \<and> (\<forall>P. before deletes_reader P tr) \<and> only destroyed tr = [] \<and> (\<exists>r. (Entity zzdds_create_factory, r) \<in> set tr \<and> ret r = f)"

lemma replayed_append: "replayed dr tr \<Longrightarrow> replayed dr (q @ tr)"
proof -
  assume "replayed dr tr"
  then obtain q' r1 r2 tr0 where "tr = q' @ (Query (wait_for_historical_data dr 15000), r2) # tr0" "ret r2 = DDS_RETCODE_OK"
      "(Query (wait_for_historical_data dr 300), r1) \<in> set tr0" "ret r1 = DDS_RETCODE_TIMEOUT" "\<forall>k<8. main_got dr q' k"
    unfolding replayed_def by blast
  then show ?thesis
    unfolding replayed_def by (intro exI [of _ "q @ q'"] exI [of _ r1] exI [of _ r2] exI [of _ tr0]) simp
qed

lemma before_idle_hist:
  assumes "idle q"
  shows "\<And>x. x \<in> set q \<Longrightarrow> \<not> deletes_reader (fst x)"
proof -
  fix x assume "x \<in> set q"
  then have "idle_call (fst x)" using assms by (simp add: idle_def)
  then show "\<not> deletes_reader (fst x)" by (cases "fst x") simp_all
qed

lemma settled_idle:
  assumes "settled f dr i tr" and "idle q"
  shows "settled f dr i (q @ tr)"
proof -
  have r: "replayed dr tr" and a: "before attaches (replayed dr) tr" and d: "before deletes_reader P tr" for P
    using assms(1) by (auto simp: settled_def)
  have "before attaches (replayed dr) (q @ tr)" by (rule before_append [OF a]) (rule replayed_append [OF r])
  moreover have "before deletes_reader P (q @ tr)" for P by (rule before_other [OF d before_idle_hist [OF assms(2)]])
  ultimately show ?thesis using assms replayed_append [OF r, of q] by (auto simp: settled_def)
qed

lemma hist_live_seen:
  assumes "settled f dr i tr" and "stands hist_listener i k s tr" and "all_done s"
  shows "live_seen dr tr"
proof -
  have i: "hist_inv i" "\<not> became_done i" and got: "\<And>k. k < 4 \<Longrightarrow> live_received i ! k \<Longrightarrow> main_got dr tr (8 + k)"
    using assms(1) by (auto simp: settled_def)
  have "hist_tracks i (events tr) s" using assms(2) by (rule hist.tracks_stands)
  then consider "all_done i" | "finished_taking i (events tr)" using i assms(3) by (auto simp: hist_tracks_def)
  then show ?thesis
  proof cases
    case 1
    then have "list_all id (live_received i)" using assms(1) by (simp add: settled_def)
    then have "main_got dr tr (8 + k)" if "k < 4" for k using i(1) got that by (simp add: hist_inv_def list_all_length)
    then show ?thesis by (simp add: live_seen_def)
  next
    case 2
    then show ?thesis using got unfolding finished_taking_def live_complete_def live_seen_def by blast
  qed
qed

lemma hist_received_trace:
  assumes "settled f dr i tr" and "live_seen dr tr"
  shows "history_received ((Entity (zzdds_destroy_factory f), r3)
     # (printf ''Subscriber: observed historical batch then live batch correctly.'', r2) # (Entity (delete_datareader sub dr), r1) # tr)"
  using assms by (auto simp: history_received_def settled_def intro!: exI [of _ dr] closesI)

lemma wpt_await_live:
  assumes "stands hist_listener i 0 s tr" and "settled f dr i tr"
  shows "wpt G hist_post (await_live f sub dr) s tr"
proof -
  have i: "hist_inv i" using assms(2) by (simp add: settled_def)
  show ?thesis
    unfolding await_live_def Let_def hist_not_done_def
    apply (rule wpt_await [OF reads_load assms(1)])
    using i apply simp
    apply (rule wpt_ifI)
    apply (erule wpt_step, simp, simp add: i)+
    apply (rule wpt_fail_to [OF hist_admits_failure [OF i]], assumption, simp add: HIST_RECEIVE_TIMEOUT_MS_def HIST_POLL_PERIOD_MS_def)
    apply (frule settled_idle [OF assms(2)], frule (1) hist_live_seen, simp)
    apply (erule wpt_step, simp, simp add: i)+
    apply (simp add: hist_post_def stands_def HIST_RECEIVE_TIMEOUT_MS_def HIST_POLL_PERIOD_MS_def hist_received_trace)
    done
qed

text \<open>The trace when \<open>main\<close> has taken what was there.\<close>

definition waited :: "int \<Rightarrow> int \<Rightarrow> (int, hist_event) atrace \<Rightarrow> (int, hist_event) atrace \<Rightarrow> bool" where
  "waited f dr q tr \<longleftrightarrow> early installs_reader_listener tr \<and> takes_only q \<and> (\<exists>r1 r2 tr0. tr = q @ (Query (wait_for_historical_data dr 15000), r2) # tr0
     \<and> ret r2 = DDS_RETCODE_OK \<and> (Query (wait_for_historical_data dr 300), r1) \<in> set tr0 \<and> ret r1 = DDS_RETCODE_TIMEOUT \<and> takes_made tr0 = 0
     \<and> (\<forall>P. before deletes_reader P tr0) \<and> only destroyed tr0 = [] \<and> (\<exists>r. (Entity zzdds_create_factory, r) \<in> set tr0 \<and> ret r = f))"

lemma takes_only_quiet:
  assumes "takes_only q"
  shows "only destroyed q = []" "\<And>x. x \<in> set q \<Longrightarrow> \<not> deletes_reader (fst x)"
proof -
  have "destroyed c = None \<and> \<not> deletes_reader c" if "taking_call c" for c :: "'a app_call"
    using that by (cases c rule: taking_call.cases) simp_all
  then show "only destroyed q = []" "\<And>x. x \<in> set q \<Longrightarrow> \<not> deletes_reader (fst x)"
    using assms by (auto simp: takes_only_def only_def List.map_filter_def filter_empty_conv)
qed

lemma early_not_attached: "early installs_reader_listener tr \<Longrightarrow> before attaches P tr"
proof (induction tr)
  case (Cons x tr)
  obtain c r where x: "x = (c, r)" by fastforce
  show ?case using Cons by (cases c rule: attaches.cases) (simp_all add: x)
qed simp

lemma no_takes_not_got: "takes_made tr = 0 \<Longrightarrow> \<not> main_got dr tr k"
  by (auto simp: takes_made_def main_got_def filter_empty_conv)

lemma all_kept: "length (filter P xs) = length xs \<longleftrightarrow> list_all P xs"
  by (auto simp: list_all_iff dest: length_filter_less)

lemma waited_settled:
  assumes w: "waited f dr q tr" and s: "held dr s tr" "length (filter id (historical_received s)) = 8"
    and i: "hist_inv i" "\<not> became_done i" "live_received i = live_received s" "all_done i \<Longrightarrow> list_all id (live_received s)"
  shows "settled f dr i tr"
proof -
  obtain r1 r2 tr0 where e: "early installs_reader_listener tr" and q: "takes_only q"
      and tr: "tr = q @ (Query (wait_for_historical_data dr 15000), r2) # tr0" and r: "ret r2 = DDS_RETCODE_OK"
      "(Query (wait_for_historical_data dr 300), r1) \<in> set tr0" "ret r1 = DDS_RETCODE_TIMEOUT" and t0: "takes_made tr0 = 0"
      "\<And>P. before deletes_reader P tr0" "only destroyed tr0 = []" "\<exists>r. (Entity zzdds_create_factory, r) \<in> set tr0 \<and> ret r = f"
    using w unfolding waited_def by blast
  have "length (historical_received s) = 8" using s(1) by (simp add: held_def hist_inv_def)
  then have "main_got dr tr k" if "k < 8" for k
    using s that all_kept [of id "historical_received s"] by (auto simp: held_def list_all_length)
  then have "\<forall>k<8. main_got dr q k" using no_takes_not_got [OF t0(1)] by (auto simp: tr)
  then have rep: "replayed dr tr" unfolding replayed_def
    by (intro exI [of _ q] exI [of _ r1] exI [of _ r2] exI [of _ tr0]) (use r tr in simp)
  have "before deletes_reader P (q @ (Query (wait_for_historical_data dr 15000), r2) # tr0)" for P
    by (rule before_other) (use t0(2) takes_only_quiet [OF q] in auto)
  moreover have "\<forall>k<4. live_received i ! k \<longrightarrow> main_got dr tr (8 + k)" using s(1) i(3) by (simp add: held_def)
  ultimately show ?thesis
    unfolding settled_def using i rep t0(3,4) takes_only_quiet(1) [OF q] early_not_attached [OF e] by (auto simp: tr)
qed

lemma settled_Cons:
  assumes "settled f dr i tr" and "\<not> deletes_reader c" and "destroyed c = None"
  shows "settled f dr i ((c, r) # tr)"
  using assms replayed_append [of dr tr "[(c, r)]"] by (auto simp: settled_def)

lemma wpt_confirm_history:
  assumes w: "waited f dr q tr" and s: "held dr s tr"
  shows "wpt (hist_env m) hist_post (confirm_history f sub dr) s tr"
proof -
  have e: "early installs_reader_listener tr" using w by (simp add: waited_def)
  let ?c = "s\<lparr>historical_confirmed := True\<rparr>"
  have inv: "hist_inv s" "hist_inv ?c" "hist_inv (?c\<lparr>all_done := True\<rparr>)" "\<not> all_done s" "\<not> became_done s"
    using s by (simp_all add: held_def hist_inv_def)
  note fail = early_fail_to [OF hist_admits_failure [OF inv(1)] heeds_hist]
  show ?thesis
    unfolding confirm_history_def Let_def store_def
    apply (rule wpt_GetI, rule wpt_ifI, rule fail [OF e])
    apply (rule early_step [OF heeds_hist e], simp)
    apply (erule early_step [OF heeds_hist], simp, rule wpt_GetI, rule wpt_PutI, rule wpt_GetI, rule wpt_ifI)
     apply (erule early_step [OF heeds_hist], simp, rule wpt_GetI, rule wpt_PutI)
     apply (rule wpt_await_live, erule early_stands)
     apply (intro settled_Cons waited_settled [OF w s]; simp add: HISTORICAL_COUNT_def ready_to_finish_def inv)
    apply (rule wpt_check_to [OF hist_admits_failure [OF inv(2)]], erule early_stands, simp)
    apply (erule wpt_await_live)
    apply (intro settled_Cons waited_settled [OF w s]; simp add: HISTORICAL_COUNT_def inv)
    done
qed

definition hist_attached :: HistState where
  "hist_attached = hist_state\<lparr>hist_reader := True\<rparr>"

lemma hist_attached_held: "held dr hist_attached tr"
  by (auto simp: held_def hist_inv_def hist_attached_def hist_state_def HISTORICAL_COUNT_def LIVE_COUNT_def nth_replicate)

lemma hist_attached_inv [simp]: "hist_inv hist_attached"
  using hist_attached_held by (simp add: held_def)

lemmas early_hist = early_need_to [OF hist_admits_failure [OF hist_attached_inv] heeds_hist] early_step [OF heeds_hist]
lemmas fail_hist = early_fail_to [OF hist_admits_failure [OF hist_attached_inv] heeds_hist]

lemma opened_hist:
  assumes "opened argv type_name factory dp tr"
  shows "takes_made tr = 0" "before deletes_reader P tr"
  using assms by (auto simp: opened_def)

lemma hist_subscriber_wpt:
  assumes "m < fuel"
  shows "wpt (hist_env m) hist_post (hist_subscriber fuel argv) s []"
  unfolding hist_subscriber_def Let_def
  apply (rule wpt_open_participant_to [OF hist_admits_failure [OF hist_attached_inv] heeds_hist setup_not_reader], assumption)
  apply (rule early_hist, assumption, simp)+
  apply (rule wpt_PutI)
  apply (rule early_hist, assumption, simp)+
  apply (rule wpt_GetI, rule wpt_PutI, fold hist_attached_def)
  apply (rule early_hist, assumption, simp)
  apply (rule wpt_ifI, erule fail_hist)
  apply (rule early_hist, assumption, simp)+
  apply (rule wpt_ifI, erule fail_hist)
  apply (rule early_hist, assumption, simp)+
  apply (rule wpt_take_available, assumption, rule hist_attached_held)
     apply (simp add: opened_hist; fail)
    apply (use assms in \<open>simp add: opened_hist\<close>; fail)
  apply (rule wpt_confirm_history [where q = "q @ [(printf ''Subscriber: wait_for_historical_data() returned'', r)]" for q r])
   apply (auto simp: waited_def NEGATIVE_WAIT_MS_def HISTORICAL_WAIT_TIMEOUT_S_def opened_hist opened_factory)
  done

text \<open>C15. The late-joining subscriber of the historical-data test, against an arbitrary middleware that calls no listener before
  it is attached and hands out at most \<open>m\<close> samples to \<open>main\<close>: a bound on the takes above \<open>m\<close> is enough for it to return.
  It exits with 1 inside a take only when a take failed or gave a number outside the two batches. Otherwise it sleeps 30 seconds at
  most and ends with 1 right after a \<open>FAIL:\<close> line, or with 0. With 0 the listener was attached, if it was, only after the wait without a writer had timed
  out, the second wait had not, and \<open>main\<close> itself had taken all eight historical samples after it; and the reader was deleted only after
  each live sample had come to \<open>main\<close> or to the listener and, unless \<open>main\<close> had them all, after the listener's take loop had ended on no data.\<close>

theorem hist_subscriber_contract:
  assumes "\<And>tr c. listening installs_reader_listener tr c (env tr c)" and "\<And>tr c. runs_dry m tr c (env tr c)" and "m < fuel"
  shows "case run env (hist_subscriber fuel argv) s [] of (x, s', tr) \<Rightarrow>
    x = Exit 1 \<and> (\<not> list_all takeable_event (events tr) \<or> refused tr)
    \<or> slept tr \<le> 30000 \<and> (x = Val 1 \<and> failed tr \<or> x = Val 0 \<and> history_received tr)"
  using wpt_run_result [where e = env, OF hist_subscriber_wpt [OF assms(3)], of argv s] assms(1,2)
  by (simp add: hist_env_def hist_post_def split_beta)

text \<open>Every call succeeds but the first wait; the reader holds the first batch, and the listener is called with the second one when it is attached.\<close>

definition live_events :: "hist_event list" where
  "live_events = map (\<lambda>k. Hist_taken DDS_RETCODE_OK (8 + int k) True) [0..<4] @ [Hist_taken DDS_RETCODE_NO_DATA 0 False]"

fun replay_env :: "(int app_call, (int, hist_event) answer) env" where
  "replay_env tr (Data (take_one dr)) = (if 8 \<le> takes_made tr then answers DDS_RETCODE_NO_DATA []
     else (answers 0 [])\<lparr>got := [(int (takes_made tr), True)]\<rparr>)"
| "replay_env tr (Query (wait_for_historical_data dr ms)) = answers (if ms = 300 then DDS_RETCODE_TIMEOUT else 0) []"
| "replay_env tr (Entity (set_listener dr)) = answers 0 live_events"
| "replay_env tr (Entity (create_topic dp name type)) = answers 1 []"
| "replay_env tr (Entity (create_participant f d)) = answers 1 []"
| "replay_env tr (Entity (create_subscriber dp)) = answers 1 []"
| "replay_env tr (Entity (create_datareader s t q l)) = answers 7 []"
| "replay_env tr c = answers 0 []"

lemma replay_env_ok: "listening installs_reader_listener tr c (replay_env tr c)" "runs_dry 8 tr c (replay_env tr c)"
  by (cases "(tr, c)" rule: replay_env.cases; simp add: listening_def runs_dry_def answers_def)+

lemma take_available_numeral:
  "take_available (numeral n) dr = sys hist_listener (Data (take_one dr)) (\<lambda>r.
     if is_live r then say hist_listener (''LIVE SAMPLE seq_num='' @ dec_int (take_value r)) (record_take (pred_numeral n) dr r)
     else record_take (pred_numeral n) dr r)"
  unfolding numeral_eq_Suc take_available.simps record_take_def Let_def ..

lemma first_batch: "replicate 8 False = [False, False, False, False, False, False, False, False]" "replicate 4 False = [False, False, False, False]"
  by (simp_all add: numeral_eq_Suc)

lemma live_delivered:
  "deliver hist_listener live_events \<lparr>hist_reader = True, historical_received = [True, True, True, True, True, True, True, True],
      live_received = [False, False, False, False], historical_confirmed = True, all_done = False, became_done = False\<rparr>
   = Val \<lparr>hist_reader = True, historical_received = [True, True, True, True, True, True, True, True],
      live_received = [True, True, True, True], historical_confirmed = True, all_done = True, became_done = False\<rparr>"
  by code_simp

lemma hist_subscriber_run: "fst (run replay_env (hist_subscriber 9 [''s'']) hist_state []) = Val 0"
  by (simp add: evaluate hist_subscriber_def hist_state_def take_available_numeral record_take_def take_step_def is_live_def take_value_def take_valid_def
     confirm_history_def await_live_def ready_to_finish_def hist_constants first_batch live_delivered del: deliver.simps(2))

theorem hist_subscriber_contract_witness:
  "case run replay_env (hist_subscriber 9 [''s'']) hist_state [] of (x, s', tr) \<Rightarrow>
    slept tr \<le> 30000 \<and> x = Val 0 \<and> history_received tr"
  using hist_subscriber_contract [OF replay_env_ok, of 9 "[''s'']" hist_state] hist_subscriber_run
  by (auto simp: split_beta)

section \<open>From the publisher to the subscriber\<close>

text \<open>A take that found nothing, an invalid sample, or a sample the publisher wrote.\<close>

definition carries :: "(int, pub_event) atrace \<Rightarrow> int \<Rightarrow> int \<Rightarrow> bool \<Rightarrow> bool" where
  "carries trp rc v valid \<longleftrightarrow> rc = DDS_RETCODE_NO_DATA \<or> rc = DDS_RETCODE_OK \<and> (valid \<longrightarrow> v \<in> snd ` set (only written trp))"

fun carried_event :: "(int, pub_event) atrace \<Rightarrow> hist_event \<Rightarrow> bool" where
  "carried_event trp (Hist_taken rc v valid) = carries trp rc v valid"

fun carried_take :: "(int, pub_event) atrace \<Rightarrow> int app_call \<Rightarrow> (int, hist_event) answer \<Rightarrow> bool" where
  "carried_take trp (Data (take_one dr)) r = carries trp (ret r) (take_value r) (take_valid r)"
| "carried_take trp c r = True"

lemma published_takeable:
  assumes "history_published trp"
  shows "carries trp rc v valid \<Longrightarrow> takeable rc v valid"
  using assms by (auto simp: history_published_def carries_def takeable_def)

lemma carried_not_refused:
  assumes "history_published trp" and "list_all (case_prod (carried_take trp)) tr"
  shows "\<not> refused tr"
  using assms published_takeable by (fastforce simp: refused_def list_all_iff)

text \<open>C4. From the publisher to the late-joining subscriber of the historical-data test: when the middleware hands the subscriber, through takes of
  \<open>main\<close> and through its listener, only samples that a successful run of the publisher wrote (in any order and any number of times), the subscriber
  never exits inside a take. It ends with 0 after having received both batches in the way described above, or with 1 after a \<open>FAIL:\<close> line.\<close>

theorem hist_end_to_end:
  assumes "\<And>tr c. listening installs_listening tr c (envp tr c)"
    and "run envp (hist_publisher argv) sp [] = (Val 0, sp', trp)"
    and "\<And>tr c. listening installs_reader_listener tr c (envs tr c)" and "\<And>tr c. runs_dry m tr c (envs tr c)" and "m < fuel"
    and "\<And>tr c. list_all (carried_event trp) (evs (envs tr c))" and "\<And>tr c. carried_take trp c (envs tr c)"
  shows "case run envs (hist_subscriber fuel argv') s [] of (x, s', tr) \<Rightarrow>
    slept tr \<le> 30000 \<and> (x = Val 1 \<and> failed tr \<or> x = Val 0 \<and> history_received tr)"
proof -
  let ?tr = "snd (snd (run envs (hist_subscriber fuel argv') s []))"
  have p: "history_published trp"
    using wpt_run [OF hist_publisher_wpt assms(1,2)] by (simp add: verdict_def)
  then have "takeable_event e" if "carried_event trp e" for e
    using that published_takeable by (cases e) simp
  then have "list_all takeable_event (events ?tr)"
    by (rule list.pred_mono_strong [OF run_events [where env = envs, OF assms(6)]])
  moreover have "\<not> refused ?tr"
    by (rule carried_not_refused [OF p run_answers [where F = "carried_take trp", OF assms(7)]])
  ultimately show ?thesis
    using wpt_run_result [where e = envs, OF hist_subscriber_wpt [OF assms(5)], of argv' s] assms(3,4)
    by (simp add: hist_env_def hist_post_def split_beta)
qed

text \<open>The two runs above, one after the other.\<close>

lemma late_reader_written: "\<exists>sp' trp. run late_reader_env (hist_publisher [''p'']) pub_state [] = (Val 0, sp', trp) \<and> history_published trp"
  using wpt_run_result [where e = late_reader_env, OF hist_publisher_wpt late_reader_env_listens, of "[''p'']" pub_state] hist_publisher_run
  by (auto simp: verdict_def split_beta prod_eq_iff)

lemma replay_carried:
  assumes "history_published trp"
  shows "list_all (carried_event trp) (evs (replay_env tr c))" "carried_take trp c (replay_env tr c)"
proof -
  have w: "v \<in> snd ` set (only written trp)" if "0 \<le> v" "v < 12" for v
    using assms that by (auto simp: history_published_def image_iff intro!: bexI [of _ "nat v"])
  show "list_all (carried_event trp) (evs (replay_env tr c))"
    by (cases "(tr, c)" rule: replay_env.cases) (simp_all add: answers_def live_events_def carries_def w list_all_iff)
  show "carried_take trp c (replay_env tr c)"
    by (cases "(tr, c)" rule: replay_env.cases) (simp_all add: answers_def carries_def take_value_def take_valid_def w)
qed

theorem hist_end_to_end_witness:
  "case run replay_env (hist_subscriber 9 [''s'']) hist_state [] of (x, s', tr) \<Rightarrow>
    slept tr \<le> 30000 \<and> x = Val 0 \<and> history_received tr"
proof -
  obtain sp' trp where p: "run late_reader_env (hist_publisher [''p'']) pub_state [] = (Val 0, sp', trp)" "history_published trp"
    using late_reader_written by blast
  show ?thesis
    using hist_end_to_end [where fuel = 9 and argv' = "[''s'']" and s = hist_state,
        OF late_reader_env_listens p(1) replay_env_ok _ replay_carried [OF p(2)]] hist_subscriber_run
    by (auto simp: split_beta)
qed

end
