(* ===== verification/Liveliness.thy ===== *)
theory Liveliness
  imports Example_Publisher
begin

text \<open>
  The two programs of the integration test \<open>integration-tests/c/liveliness-lost\<close>. The publisher writes on a writer with
  AUTOMATIC and on one with MANUAL_BY_PARTICIPANT liveliness and never asserts liveliness; each program then judges from its
  listeners that only the second one was lost.
\<close>

definition LEASE_DURATION_SEC :: nat where "LEASE_DURATION_SEC = 2"
definition WRITE_PERIOD_MS :: nat where "WRITE_PERIOD_MS = 500"
definition WRITE_COUNT :: nat where "WRITE_COUNT = 16"
definition LIVE_MATCH_TIMEOUT_MS :: nat where "LIVE_MATCH_TIMEOUT_MS = 40000"
definition LIVE_DRAIN_TIMEOUT_MS :: nat where "LIVE_DRAIN_TIMEOUT_MS = 15000"
definition LIVE_POLL_PERIOD_MS :: nat where "LIVE_POLL_PERIOD_MS = 20"
definition OBSERVE_WINDOW_S :: nat where "OBSERVE_WINDOW_S = 12"

lemmas live_constants = LEASE_DURATION_SEC_def WRITE_PERIOD_MS_def WRITE_COUNT_def LIVE_MATCH_TIMEOUT_MS_def LIVE_DRAIN_TIMEOUT_MS_def
  LIVE_POLL_PERIOD_MS_def OBSERVE_WINDOW_S_def

definition AUTOMATIC_LIVELINESS_QOS :: int where "AUTOMATIC_LIVELINESS_QOS = 0"
definition MANUAL_BY_PARTICIPANT_LIVELINESS_QOS :: int where "MANUAL_BY_PARTICIPANT_LIVELINESS_QOS = 1"

definition leased :: "int \<Rightarrow> int \<Rightarrow> ep_qos" where
  "leased kind dflt = (reliable_keep_all dflt)\<lparr>liveliness := Some (kind, LEASE_DURATION_SEC)\<rparr>"

section \<open>Two endpoints with a listener each\<close>

text \<open>The two variables \<open>auto_state\<close> and \<open>manual_state\<close> of \<open>main\<close>, each the \<open>listener_data\<close> of one endpoint. \<open>main\<close> initialises
  each before it creates its endpoint, before which no callback can touch it.\<close>

record 's sides =
  auto_state :: 's
  manual_state :: 's

datatype 'e side_event = On_automatic 'e | On_manual 'e

fun both_sides :: "('e \<Rightarrow> 's \<Rightarrow> 's) \<Rightarrow> ('e side_event, 's sides) handler" where
  "both_sides f (On_automatic e) s = Val (s\<lparr>auto_state := f e (auto_state s)\<rparr>)"
| "both_sides f (On_manual e) s = Val (s\<lparr>manual_state := f e (manual_state s)\<rparr>)"

definition both :: "'s \<Rightarrow> 's sides" where
  "both i = \<lparr>auto_state = i, manual_state = i\<rparr>"

section \<open>Publisher\<close>

text \<open>The counter is an \<open>atomic_int\<close>, whose additions wrap around.\<close>

record WriterState =
  w_matched :: int
  liveliness_lost_count :: "32 word"

definition writer_state :: WriterState where
  "writer_state = \<lparr>w_matched = 0, liveliness_lost_count = 0\<rparr>"

datatype writer_event = W_matched int | W_lost

fun on_writer :: "writer_event \<Rightarrow> WriterState \<Rightarrow> WriterState" where
  "on_writer (W_matched current_count) state = state\<lparr>w_matched := current_count\<rparr>"
| "on_writer W_lost state = state\<lparr>liveliness_lost_count := liveliness_lost_count state + 1\<rparr>"

abbreviation live_pub :: "(writer_event side_event, WriterState sides) handler" where
  "live_pub \<equiv> both_sides on_writer"

type_synonym 'a live_pub_app = "(WriterState sides, int, writer_event side_event, 'a) app"

definition create_live_writer :: "int \<Rightarrow> int \<Rightarrow> string \<Rightarrow> int \<Rightarrow> (int \<Rightarrow> int live_pub_app) \<Rightarrow> int live_pub_app" where
  "create_live_writer dp pub topic_name kind k = (let h = live_pub in
     need h (Entity (create_topic dp topic_name ''LivelinessEvent'')) (''create_topic('' @ topic_name @ '') failed'') (\<lambda>topic.
     say h (''Create topic: '' @ topic_name) (
     sys h (Entity (get_default_datawriter_qos pub)) (\<lambda>q.
     need h (Entity (create_datawriter_listening pub topic (leased kind (num q)))) (''create_datawriter('' @ topic_name @ '') failed'') (\<lambda>dw.
     say h (''Create writer for topic: '' @ topic_name) (k dw))))))"

definition write_both :: "int \<Rightarrow> int \<Rightarrow> int option live_pub_app" where
  "write_both auto_dw manual_dw = for_prog 0 WRITE_COUNT (\<lambda>i. let h = live_pub in
     sys h (Data (write_data auto_dw (int i) 0)) (\<lambda>r.
     if ret r \<noteq> DDS_RETCODE_OK then fail_out h (''write(AUTOMATIC) failed at seq='' @ dec i)
     else sys h (Data (write_data manual_dw (int i) 0)) (\<lambda>r.
     if ret r \<noteq> DDS_RETCODE_OK then fail_out h (''write(MANUAL_BY_PARTICIPANT) failed at seq='' @ dec i)
     else sys h (sleep_ms WRITE_PERIOD_MS) (\<lambda>_. Return None))))"

definition auto_was_lost :: "int \<Rightarrow> int live_pub_app" where
  "auto_was_lost total_count = load live_pub (\<lambda>s. liveliness_lost_count (auto_state s)) (\<lambda>n.
     fail live_pub (''AUTOMATIC writer lost liveliness (listener_count='' @ dec_int (sint n) @ '', status.total_count='' @ dec_int total_count
       @ ''), expected never''))"

definition manual_not_lost :: "int \<Rightarrow> int live_pub_app" where
  "manual_not_lost total_count = load live_pub (\<lambda>s. liveliness_lost_count (manual_state s)) (\<lambda>n.
     fail live_pub (''MANUAL_BY_PARTICIPANT writer never lost liveliness (listener_count='' @ dec_int (sint n) @ '', status.total_count='' @ dec_int total_count
       @ '') despite never asserting it, expected >=1''))"

definition report_side :: "string \<Rightarrow> (WriterState sides \<Rightarrow> WriterState) \<Rightarrow> int \<Rightarrow> 'a live_pub_app \<Rightarrow> 'a live_pub_app" where
  "report_side label side dw p = (let h = live_pub in
     load h (\<lambda>s. w_matched (side s)) (\<lambda>n.
     sys h (Query (get_publication_matched_status dw)) (\<lambda>r.
     sys h (eprintf (''  matched: '' @ label @ '' listener='' @ dec_int n @ '' status='' @ dec_int (if ret r = DDS_RETCODE_OK then num r else - 1))) (\<lambda>_. p))))"

definition live_drain :: "int \<Rightarrow> int \<Rightarrow> int \<Rightarrow> int live_pub_app" where
  "live_drain factory auto_dw manual_dw = (let h = live_pub in
     bind_prog (poll h LIVE_POLL_PERIOD_MS LIVE_DRAIN_TIMEOUT_MS
       (load_all h [\<lambda>s. \<not> w_matched (auto_state s) \<noteq> 0, \<lambda>s. \<not> w_matched (manual_state s) \<noteq> 0])) (\<lambda>gone.
     if \<not> gone then report_side ''automatic'' auto_state auto_dw (report_side ''manual'' manual_state manual_dw (
       fail h ''subscriber did not disconnect within 15s''))
     else say h ''Publisher: done.'' (
     sys h (Entity (zzdds_destroy_factory factory)) (\<lambda>_. Return 0))))"

text \<open>The verdict on the two writers: what their listeners counted and what their status says; \<open>||\<close> looks at the status only
  when the counter does not decide.\<close>

definition manual_line :: "int \<Rightarrow> string" where
  "manual_line total_count = ''Publisher: MANUAL_BY_PARTICIPANT writer lost liveliness (total_count='' @ dec_int total_count
     @ '') despite continuous writing, as expected.''"

definition judge_writers :: "int \<Rightarrow> int \<Rightarrow> int live_pub_app \<Rightarrow> int live_pub_app" where
  "judge_writers auto_dw manual_dw p = (let h = live_pub in
     sys h (Query (get_liveliness_lost_status auto_dw)) (\<lambda>auto_status.
     if ret auto_status \<noteq> DDS_RETCODE_OK then fail h ''get_liveliness_lost_status(AUTOMATIC) failed''
     else sys h (Query (get_liveliness_lost_status manual_dw)) (\<lambda>manual_status.
     if ret manual_status \<noteq> DDS_RETCODE_OK then fail h ''get_liveliness_lost_status(MANUAL_BY_PARTICIPANT) failed''
     else load h (\<lambda>s. liveliness_lost_count (auto_state s)) (\<lambda>n.
     if n \<noteq> 0 \<or> num auto_status \<noteq> 0 then auto_was_lost (num auto_status)
     else say h ''Publisher: AUTOMATIC writer never lost liveliness (total_count=0), as expected.'' (
     load h (\<lambda>s. liveliness_lost_count (manual_state s)) (\<lambda>m.
     if sint m < 1 \<or> num manual_status < 1 then manual_not_lost (num manual_status)
     else say h (manual_line (num manual_status)) p))))))"

definition live_publisher :: "string list \<Rightarrow> int live_pub_app" where
  "live_publisher argv = (let h = live_pub in
     open_participant h argv ''LivelinessEvent'' ''register_type_support failed'' (\<lambda>factory dp.
     need h (Entity (create_publisher dp)) ''create_publisher() failed'' (\<lambda>pub.
     Put (both writer_state) (
     create_live_writer dp pub ''AutomaticLivelinessTopic'' AUTOMATIC_LIVELINESS_QOS (\<lambda>auto_dw.
     create_live_writer dp pub ''ManualByParticipantLivelinessTopic'' MANUAL_BY_PARTICIPANT_LIVELINESS_QOS (\<lambda>manual_dw.
     bind_prog (poll h LIVE_POLL_PERIOD_MS LIVE_MATCH_TIMEOUT_MS
       (load_all h [\<lambda>s. \<not> w_matched (auto_state s) < 1, \<lambda>s. \<not> w_matched (manual_state s) < 1])) (\<lambda>matched.
     if \<not> matched then fail h ''readers never matched within 40s''
     else say h ''Publisher: both readers matched.'' (
     bind_prog (write_both auto_dw manual_dw) (\<lambda>x. leave_or x (
     say h ''Publisher: write loop done.'' (
     judge_writers auto_dw manual_dw (
     live_drain factory auto_dw manual_dw))))))))))))"

section \<open>Subscriber\<close>

record ReaderState =
  r_matched :: int
  r_alive_count :: int
  ever_not_alive :: bool

definition reader_state :: ReaderState where
  "reader_state = \<lparr>r_matched = 0, r_alive_count = 0, ever_not_alive = False\<rparr>"

datatype reader_event = R_matched int | R_alive int

fun on_reader :: "reader_event \<Rightarrow> ReaderState \<Rightarrow> ReaderState" where
  "on_reader (R_matched current_count) state = state\<lparr>r_matched := current_count\<rparr>"
| "on_reader (R_alive alive) state =
     (let state' = state\<lparr>r_alive_count := alive\<rparr> in if alive = 0 then state'\<lparr>ever_not_alive := True\<rparr> else state')"

abbreviation live_sub :: "(reader_event side_event, ReaderState sides) handler" where
  "live_sub \<equiv> both_sides on_reader"

type_synonym 'a live_sub_app = "(ReaderState sides, int, reader_event side_event, 'a) app"

definition create_live_reader :: "int \<Rightarrow> int \<Rightarrow> string \<Rightarrow> int \<Rightarrow> (int \<Rightarrow> int live_sub_app) \<Rightarrow> int live_sub_app" where
  "create_live_reader dp sub topic_name kind k = (let h = live_sub in
     need h (Entity (create_topic dp topic_name ''LivelinessEvent'')) (''create_topic('' @ topic_name @ '') failed'') (\<lambda>topic.
     say h (''Create topic: '' @ topic_name) (
     sys h (Entity (get_default_datareader_qos sub)) (\<lambda>q.
     need h (Entity (create_datareader sub topic (leased kind (num q)) True)) (''create_datareader('' @ topic_name @ '') failed'') (\<lambda>dr.
     say h (''Create reader for topic: '' @ topic_name) (k dr))))))"

abbreviation auto_not_alive_line :: string where
  "auto_not_alive_line \<equiv> ''AUTOMATIC reader observed NOT_ALIVE (alive_count dropped to 0) at some point, expected never''"

abbreviation manual_alive_line :: string where
  "manual_alive_line \<equiv> ''MANUAL_BY_PARTICIPANT reader never observed NOT_ALIVE despite the writer never asserting liveliness, expected at least once''"

definition live_subscriber :: "string list \<Rightarrow> int live_sub_app" where
  "live_subscriber argv = (let h = live_sub in
     open_participant h argv ''LivelinessEvent'' ''register_type_support failed'' (\<lambda>factory dp.
     need h (Entity (create_subscriber dp)) ''create_subscriber() failed'' (\<lambda>sub.
     Put (both reader_state) (
     create_live_reader dp sub ''AutomaticLivelinessTopic'' AUTOMATIC_LIVELINESS_QOS (\<lambda>auto_dr.
     create_live_reader dp sub ''ManualByParticipantLivelinessTopic'' MANUAL_BY_PARTICIPANT_LIVELINESS_QOS (\<lambda>manual_dr.
     bind_prog (poll h LIVE_POLL_PERIOD_MS LIVE_MATCH_TIMEOUT_MS
       (load_all h [\<lambda>s. \<not> r_matched (auto_state s) < 1, \<lambda>s. \<not> r_matched (manual_state s) < 1])) (\<lambda>matched.
     if \<not> matched then fail h ''writers never matched within 40s''
     else say h ''Subscriber: both writers matched.'' (
     sys h (sleep_ms (OBSERVE_WINDOW_S * 1000)) (\<lambda>_.
     load h (\<lambda>s. ever_not_alive (auto_state s)) (\<lambda>lost.
     if lost then fail h auto_not_alive_line
     else say h ''Subscriber: AUTOMATIC reader never observed NOT_ALIVE, as expected.'' (
     load h (\<lambda>s. ever_not_alive (manual_state s)) (\<lambda>lost.
     if \<not> lost then fail h manual_alive_line
     else say h ''Subscriber: MANUAL_BY_PARTICIPANT reader observed NOT_ALIVE at least once, as expected.'' (
     say h ''Subscriber: done.'' (
     sys h (Entity (zzdds_destroy_factory factory)) (\<lambda>_. Return 0)))))))))))))))"

end
