(* ===== verification/Liveliness_Contracts.thy ===== *)
theory Liveliness_Contracts
  imports Liveliness
begin

text \<open>
  What the two programs of the liveliness test have established when they succeed.
\<close>

section \<open>The variables of each endpoint\<close>

definition automatic :: "'e side_event list \<Rightarrow> 'e list" where
  "automatic = List.map_filter (\<lambda>e. case e of On_automatic x \<Rightarrow> Some x | On_manual x \<Rightarrow> None)"

definition manual :: "'e side_event list \<Rightarrow> 'e list" where
  "manual = List.map_filter (\<lambda>e. case e of On_manual x \<Rightarrow> Some x | On_automatic x \<Rightarrow> None)"

lemma side_simps [simp]:
  "automatic [] = []" "automatic (es @ es') = automatic es @ automatic es'" "automatic [On_automatic x] = [x]" "automatic [On_manual x] = []"
  "manual [] = []" "manual (es @ es') = manual es @ manual es'" "manual [On_manual x] = [x]" "manual [On_automatic x] = []"
  by (simp_all add: automatic_def manual_def List.map_filter_def)

text \<open>The callbacks of an endpoint act on its own variables, in order.\<close>

definition side_tracks :: "('e \<Rightarrow> 's \<Rightarrow> 's) \<Rightarrow> 's \<Rightarrow> 'e side_event list \<Rightarrow> 's sides \<Rightarrow> bool" where
  "side_tracks f i es s \<longleftrightarrow> auto_state s = fold f (automatic es) i \<and> manual_state s = fold f (manual es) i"

interpretation side: tracked_listener "both_sides f" "both i" "side_tracks f i" for f i
proof unfold_locales
  show "side_tracks f i [] (both i)" by (simp add: side_tracks_def both_def)
next
  fix es s e s'
  assume "side_tracks f i es s" and "both_sides f e s = Val s'"
  then show "side_tracks f i (es @ [e]) s'" by (cases e) (auto simp: side_tracks_def)
qed

lemma sides_total: "\<exists>s'. deliver (both_sides f) es s = Val s'"
proof (induction es arbitrary: s)
  case (Cons e es)
  then show ?case by (cases e) auto
qed simp

lemma sides_not_broken [simp]: "\<not> broken (both_sides f) i x tr"
  using sides_total [of f "events tr" i] by (cases x) auto

text \<open>A wait for both endpoints, which sees each in a state of its own; \<open>R\<close> is a property of an endpoint's callbacks that later ones do not take back.\<close>

lemma wpt_await_sides:
  assumes "stands (both_sides f) (both i) k s tr" and "lets_break (both_sides f) (both i) Q"
    and auto: "\<And>es. c (fold f (automatic (events tr) @ es) i) \<Longrightarrow> Ra (automatic (events tr) @ es)"
    and man: "\<And>es. c (fold f (manual (events tr) @ es) i) \<Longrightarrow> Ra (manual (events tr) @ es)"
    and mono: "\<And>es es'. Ra es \<Longrightarrow> Ra (es @ es')"
    and k: "\<And>b q s'. idle q \<Longrightarrow> stands (both_sides f) (both i) (k + (timeout + 19) div 20 * 20) s' (q @ tr)
      \<Longrightarrow> (b \<Longrightarrow> Ra (automatic (events (q @ tr))) \<and> Ra (manual (events (q @ tr)))) \<Longrightarrow> wpt G Q (g b) s' (q @ tr)"
  shows "wpt G Q (bind_prog (poll (both_sides f) LIVE_POLL_PERIOD_MS timeout
     (load_all (both_sides f) [\<lambda>s. c (auto_state s), \<lambda>s. c (manual_state s)])) g) s tr"
proof (rule wpt_await_all [OF assms(1,2)])
  fix b q s'
  assume q: "idle q" "stands (both_sides f) (both i) (k + (timeout + LIVE_POLL_PERIOD_MS - 1) div LIVE_POLL_PERIOD_MS * LIVE_POLL_PERIOD_MS) s' (q @ tr)"
    and b: "b \<Longrightarrow> in_turn (both_sides f) (both i) [\<lambda>s. c (auto_state s), \<lambda>s. c (manual_state s)] (events tr) (events (q @ tr))"
  have "Ra (automatic (events (q @ tr))) \<and> Ra (manual (events (q @ tr)))" if t: b
  proof -
    obtain es1 s1 es2 s2 es3 where s1: "deliver (both_sides f) (events tr @ es1) (both i) = Val s1" "c (auto_state s1)"
      and s2: "deliver (both_sides f) ((events tr @ es1) @ es2) (both i) = Val s2" "c (manual_state s2)"
      and es: "events (q @ tr) = ((events tr @ es1) @ es2) @ es3"
      using b [OF t] by auto
    have "auto_state s1 = fold f (automatic (events tr) @ automatic es1) i"
      using side.tracks_delivered [OF s1(1)] by (simp add: side_tracks_def)
    then have 1: "Ra (automatic (events tr) @ automatic es1)" using s1(2) auto by metis
    have "manual_state s2 = fold f (manual (events tr) @ manual es1 @ manual es2) i"
      using side.tracks_delivered [OF s2(1)] by (simp add: side_tracks_def)
    then have 2: "Ra (manual (events tr) @ manual es1 @ manual es2)" using s2(2) man by metis
    show ?thesis
      using mono [OF 1, of "automatic es2 @ automatic es3"] mono [OF 2, of "manual es3"] unfolding es by simp
  qed
  then show "wpt G Q (g b) s' (q @ tr)" using q by (intro k) (simp_all add: LIVE_POLL_PERIOD_MS_def add.commute)
qed

section \<open>Publisher\<close>

text \<open>The numbers of matched readers reported for one writer.\<close>

definition counts_of :: "writer_event list \<Rightarrow> int list" where
  "counts_of = List.map_filter (\<lambda>e. case e of W_matched n \<Rightarrow> Some n | W_lost \<Rightarrow> None)"

lemma counts_simps [simp]:
  "counts_of [] = []" "counts_of (es @ es') = counts_of es @ counts_of es'" "counts_of (W_matched n # es) = n # counts_of es" "counts_of (W_lost # es) = counts_of es"
  by (simp_all add: counts_of_def List.map_filter_def)

text \<open>How many losses of liveliness were reported.\<close>

definition losses :: "writer_event list \<Rightarrow> nat" where
  "losses es = length (filter (\<lambda>e. e = W_lost) es)"

lemma losses_simps [simp]:
  "losses [] = 0" "losses (W_lost # es) = Suc (losses es)" "losses (W_matched n # es) = losses es"
  "losses (es @ es') = losses es + losses es'"
  by (simp_all add: losses_def)

lemma writer_follows:
  "w_matched (fold on_writer es state) = last (w_matched state # counts_of es)"
  "liveliness_lost_count (fold on_writer es state) = liveliness_lost_count state + word_of_nat (losses es)"
proof (induction es arbitrary: state)
  case (Cons e es)
  { case 1 show ?case using Cons.IH(1) by (cases e) simp_all }
  { case 2 show ?case using Cons.IH(2) by (cases e) simp_all }
qed simp_all

definition came :: "writer_event list \<Rightarrow> bool" where
  "came es \<longleftrightarrow> (\<exists>n\<in>set (counts_of es). 1 \<le> n)"

definition came_left :: "writer_event list \<Rightarrow> bool" where
  "came_left es \<longleftrightarrow> (\<exists>ns1 n ns2. counts_of es = ns1 @ n # ns2 \<and> 1 \<le> n \<and> 0 \<in> set ns2)"

lemma came_append: "came es \<Longrightarrow> came (es @ es')"
  by (auto simp: came_def)

lemma came_left_append: "came_left es \<Longrightarrow> came_left (es @ es')"
  by (force simp: came_left_def)

lemma came_then_zero:
  assumes "came es" and "last (0 # counts_of (es @ es')) = 0"
  shows "came_left (es @ es')"
proof -
  obtain ns1 n ns2 where n: "counts_of es = ns1 @ n # ns2" "1 \<le> n" using assms(1) by (auto simp: came_def dest: split_list)
  have "last (n # ns2 @ counts_of es') = 0" using assms(2) n(1) by simp
  then have "ns2 @ counts_of es' \<noteq> []" using n(2) by auto
  then have "0 \<in> set (ns2 @ counts_of es')" using \<open>last (n # ns2 @ counts_of es') = 0\<close> by (metis last.simps last_in_set)
  then show ?thesis unfolding came_left_def by (intro exI [of _ ns1] exI [of _ n] exI [of _ "ns2 @ counts_of es'"]) (use n in simp)
qed

abbreviation live_stands :: "nat \<Rightarrow> WriterState sides \<Rightarrow> (int, writer_event side_event) atrace \<Rightarrow> bool" where
  "live_stands \<equiv> stands live_pub (both writer_state)"

definition on_both :: "(writer_event list \<Rightarrow> bool) \<Rightarrow> (int, writer_event side_event) atrace \<Rightarrow> bool" where
  "on_both R tr \<longleftrightarrow> R (automatic (events tr)) \<and> R (manual (events tr))"

lemma wpt_live_matched:
  assumes "live_stands k s tr" and "lets_break live_pub (both writer_state) Q"
    and "\<And>b q s'. idle q \<Longrightarrow> live_stands (k + 40000) s' (q @ tr) \<Longrightarrow> (b \<Longrightarrow> on_both came (q @ tr)) \<Longrightarrow> wpt G Q (g b) s' (q @ tr)"
  shows "wpt G Q (bind_prog (poll live_pub LIVE_POLL_PERIOD_MS LIVE_MATCH_TIMEOUT_MS
     (load_all live_pub [\<lambda>s. \<not> w_matched (auto_state s) < 1, \<lambda>s. \<not> w_matched (manual_state s) < 1])) g) s tr"
proof (rule wpt_await_sides [where c = "\<lambda>s. \<not> w_matched s < 1" and Ra = came, OF assms(1,2)])
  have c: "came es" if "\<not> w_matched (fold on_writer es writer_state) < 1" for es
  proof -
    have l: "1 \<le> last (0 # counts_of es)" using that by (simp add: writer_follows writer_state_def)
    then have "counts_of es \<noteq> []" by auto
    then show ?thesis using l by (auto simp: came_def intro!: bexI [of _ "last (counts_of es)"])
  qed
  show "came (automatic (events tr) @ es)" if "\<not> w_matched (fold on_writer (automatic (events tr) @ es) writer_state) < 1" for es
    using that by (rule c)
  show "came (manual (events tr) @ es)" if "\<not> w_matched (fold on_writer (manual (events tr) @ es) writer_state) < 1" for es
    using that by (rule c)
qed (use assms(3) came_append in \<open>simp_all add: on_both_def LIVE_MATCH_TIMEOUT_MS_def\<close>)

lemma wpt_live_gone:
  assumes "live_stands k s tr" and "lets_break live_pub (both writer_state) Q" and "on_both came tr"
    and "\<And>b q s'. idle q \<Longrightarrow> live_stands (k + 15000) s' (q @ tr) \<Longrightarrow> (b \<Longrightarrow> on_both came_left (q @ tr)) \<Longrightarrow> wpt G Q (g b) s' (q @ tr)"
  shows "wpt G Q (bind_prog (poll live_pub LIVE_POLL_PERIOD_MS LIVE_DRAIN_TIMEOUT_MS
     (load_all live_pub [\<lambda>s. \<not> w_matched (auto_state s) \<noteq> 0, \<lambda>s. \<not> w_matched (manual_state s) \<noteq> 0])) g) s tr"
proof (rule wpt_await_sides [where c = "\<lambda>s. \<not> w_matched s \<noteq> 0" and Ra = came_left, OF assms(1,2)])
  have c: "came_left (es @ es')" if "came es" "\<not> w_matched (fold on_writer (es @ es') writer_state) \<noteq> 0" for es es'
    using that by (intro came_then_zero) (simp_all add: writer_follows(1) writer_state_def del: fold_append)
  show "came_left (automatic (events tr) @ es)" if "\<not> w_matched (fold on_writer (automatic (events tr) @ es) writer_state) \<noteq> 0" for es
    using _ that by (rule c) (use assms(3) in \<open>simp add: on_both_def\<close>)
  show "came_left (manual (events tr) @ es)" if "\<not> w_matched (fold on_writer (manual (events tr) @ es) writer_state) \<noteq> 0" for es
    using _ that by (rule c) (use assms(3) in \<open>simp add: on_both_def\<close>)
qed (use assms(4) came_left_append in \<open>simp_all add: on_both_def LIVE_DRAIN_TIMEOUT_MS_def\<close>)

text \<open>The samples of both writers, in turn, half a second apart.\<close>

definition sixteen_each :: "int \<Rightarrow> int \<Rightarrow> nat \<Rightarrow> (int \<times> int) list" where
  "sixteen_each adw mdw n = concat (map (\<lambda>k. [(adw, int k), (mdw, int k)]) [0..<n])"

definition wrote_both :: "int \<Rightarrow> int \<Rightarrow> nat \<Rightarrow> (int, writer_event side_event) atrace \<Rightarrow> bool" where
  "wrote_both adw mdw n q \<longleftrightarrow> only written q = sixteen_each adw mdw n \<and> slept q = 500 * n \<and> only printed q = [] \<and> only destroyed q = [] \<and> creations q = []"

lemma wpt_write_both:
  assumes "live_stands k s tr" and "k + 8000 \<le> B"
    and "\<And>s' q. live_stands (k + 8000) s' (q @ tr) \<Longrightarrow> wrote_both adw mdw 16 q \<Longrightarrow> wpt G (verdict live_pub (both writer_state) B P) p s' (q @ tr)"
  shows "wpt G (verdict live_pub (both writer_state) B P) (bind_prog (write_both adw mdw) (\<lambda>x. leave_or x p)) s tr"
  unfolding write_both_def Let_def
proof (rule wpt_timed_loop [where k = "\<lambda>n. k + 500 * n" and J = "wrote_both adw mdw"])
  fix n s' q
  assume n: "n < 0 + WRITE_COUNT" and s': "live_stands (k + 500 * n) s' (q @ tr)" and q: "wrote_both adw mdw n q"
  have B: "k + 500 * n \<le> B" using n assms(2) by (simp add: WRITE_COUNT_def)
  show "wpt G (iteration live_pub (both writer_state) B P (k + 500 * Suc n) tr (wrote_both adw mdw (Suc n)))
     (sys live_pub (Data (write_data adw (int n) 0)) (\<lambda>r.
     if ret r \<noteq> DDS_RETCODE_OK then fail_out live_pub (''write(AUTOMATIC) failed at seq='' @ dec n)
     else sys live_pub (Data (write_data mdw (int n) 0)) (\<lambda>r.
     if ret r \<noteq> DDS_RETCODE_OK then fail_out live_pub (''write(MANUAL_BY_PARTICIPANT) failed at seq='' @ dec n)
     else sys live_pub (sleep_ms WRITE_PERIOD_MS) (\<lambda>_. Return None)))) s' (q @ tr)"
    apply (rule wpt_step [OF s'], simp, simp, rule wpt_ifI, erule wpt_fail_out, rule B)
    apply (erule wpt_step, simp, simp, rule wpt_ifI, erule wpt_fail_out, rule B)
    apply (erule wpt_sleep, simp)
    apply (rule wpt_continue)
     apply (simp add: WRITE_PERIOD_MS_def ac_simps)
    using q apply (simp flip: append_Cons, simp add: wrote_both_def sixteen_each_def WRITE_PERIOD_MS_def)
    done
qed (use assms in \<open>simp_all add: wrote_both_def sixteen_each_def WRITE_COUNT_def\<close>)

text \<open>All samples had been written, eight seconds had passed since the first, and the losses reported for the automatic writer by then
  added up to 0 in a 32-bit counter.\<close>

definition kept_alive :: "int \<Rightarrow> int \<Rightarrow> (int, writer_event side_event) atrace \<Rightarrow> bool" where
  "kept_alive adw mdw tr \<longleftrightarrow> (\<exists>q tr0. tr = q @ tr0 \<and> only written tr0 = sixteen_each adw mdw 16 \<and> 8000 \<le> slept tr0 \<and> losses (automatic (events tr0)) mod 2 ^ 32 = 0)"

definition status_total :: "int \<Rightarrow> (int \<Rightarrow> bool) \<Rightarrow> (int, writer_event side_event) atrace \<Rightarrow> bool" where
  "status_total dw P tr \<longleftrightarrow> (\<exists>r. (Query (get_liveliness_lost_status dw), r) \<in> set tr \<and> ret r = DDS_RETCODE_OK \<and> P (num r))"

text \<open>
  What was created: one writer per topic, each with a lease of two seconds; the one on the first topic has
  the kind AUTOMATIC (0), the one on the second MANUAL_BY_PARTICIPANT (1).
\<close>

definition live_writers_made :: "int \<Rightarrow> int \<Rightarrow> (int, writer_event side_event) atrace \<Rightarrow> bool" where
  "live_writers_made adw mdw tr \<longleftrightarrow> (\<exists>f domain dp pub t1 t2 q1 q2. creations tr =
     [(Entity zzdds_create_factory, f), (Entity (create_participant f domain), dp), (Entity (create_publisher dp), pub),
      (Entity (create_topic dp ''AutomaticLivelinessTopic'' ''LivelinessEvent''), t1), (Entity (create_datawriter_listening pub t1 q1), adw),
      (Entity (create_topic dp ''ManualByParticipantLivelinessTopic'' ''LivelinessEvent''), t2), (Entity (create_datawriter_listening pub t2 q2), mdw)]
     \<and> liveliness q1 = Some (0, 2) \<and> liveliness q2 = Some (1, 2) \<and> list_all (\<lambda>q. reliable q \<and> keep_all q \<and> \<not> transient_local q) [q1, q2])"

definition live_pub_lines :: "int \<Rightarrow> string list" where
  "live_pub_lines total_count = [''Create topic: AutomaticLivelinessTopic'', ''Create writer for topic: AutomaticLivelinessTopic'',
     ''Create topic: ManualByParticipantLivelinessTopic'', ''Create writer for topic: ManualByParticipantLivelinessTopic'',
     ''Publisher: both readers matched.'', ''Publisher: write loop done.'',
     ''Publisher: AUTOMATIC writer never lost liveliness (total_count=0), as expected.'',
     ''Publisher: MANUAL_BY_PARTICIPANT writer lost liveliness (total_count='' @ dec_int total_count @ '') despite continuous writing, as expected.'',
     ''Publisher: done.'']"

definition live_published :: "(int, writer_event side_event) atrace \<Rightarrow> bool" where
  "live_published tr \<longleftrightarrow> (\<exists>adw mdw total. live_writers_made adw mdw tr \<and> only written tr = sixteen_each adw mdw 16
       \<and> kept_alive adw mdw tr \<and> status_total adw (\<lambda>n. n = 0) tr
       \<and> 1 \<le> losses (manual (events tr)) \<and> status_total mdw (\<lambda>n. n = total) tr \<and> 1 \<le> total \<and> only printed tr = live_pub_lines total)
     \<and> before is_write (on_both came) tr \<and> on_both came_left tr \<and> closes tr"

lemma on_both_append: "(\<And>es es'. R es \<Longrightarrow> R (es @ es')) \<Longrightarrow> on_both R tr \<Longrightarrow> on_both R (q @ tr)"
  by (simp add: on_both_def)

lemma on_both_came: "on_both came tr \<Longrightarrow> on_both came (x # tr)" "on_both came tr \<Longrightarrow> on_both came (q @ tr)"
  using on_both_append [of came tr "[x]"] on_both_append [of came tr q] came_append by simp_all

text \<open>What a load of a loss counter says.\<close>

lemma lost_counts:
  assumes "live_stands k s tr"
  shows "liveliness_lost_count (auto_state s) = 0 \<longleftrightarrow> losses (automatic (events tr)) mod 2 ^ 32 = 0"
    "\<not> sint (liveliness_lost_count (manual_state s)) < 1 \<longrightarrow> 1 \<le> losses (manual (events tr))"
proof -
  have a: "liveliness_lost_count (auto_state s) = word_of_nat (losses (automatic (events tr)))"
    and m: "liveliness_lost_count (manual_state s) = word_of_nat (losses (manual (events tr)))"
    using side.tracks_stands [OF assms] by (simp_all add: side_tracks_def writer_follows writer_state_def)
  show "liveliness_lost_count (auto_state s) = 0 \<longleftrightarrow> losses (automatic (events tr)) mod 2 ^ 32 = 0"
    unfolding a by (simp add: word_of_nat_eq_0_iff dvd_eq_mod_eq_0)
  show "\<not> sint (liveliness_lost_count (manual_state s)) < 1 \<longrightarrow> 1 \<le> losses (manual (events tr))"
    unfolding m by (cases "losses (manual (events tr))") simp_all
qed

lemma live_published_trace:
  assumes t: "only written tr = []" "only destroyed tr = []" "\<And>P. before is_write P tr" "\<exists>r. (Entity zzdds_create_factory, r) \<in> set tr \<and> ret r = f"
      "live_writers_made adw mdw tr" "only printed tr @ [l1, l2, l4, l6, l7] = live_pub_lines (num rm)"
    and q: "idle q1" "on_both came (q1 @ tr)" "wrote_both adw mdw 16 q2" "idle q3"
    and a: "ret ra = DDS_RETCODE_OK" "num ra = 0" "losses (automatic (events ((atomic_access, r3) # (Query (get_liveliness_lost_status mdw), rm)
        # (Query (get_liveliness_lost_status adw), ra) # (printf l2, r2) # q2 @ (printf l1, r1) # q1 @ tr))) mod 2 ^ 32 = 0"
    and m: "ret rm = DDS_RETCODE_OK" "1 \<le> num rm" "1 \<le> losses (manual (events ((atomic_access, r5) # (printf l4, r4) # (atomic_access, r3)
        # (Query (get_liveliness_lost_status mdw), rm) # (Query (get_liveliness_lost_status adw), ra) # (printf l2, r2) # q2 @ (printf l1, r1) # q1 @ tr)))"
    and g: "on_both came_left (q3 @ (printf l6, r6) # (atomic_access, r5) # (printf l4, r4) # (atomic_access, r3)
        # (Query (get_liveliness_lost_status mdw), rm) # (Query (get_liveliness_lost_status adw), ra) # (printf l2, r2) # q2 @ (printf l1, r1) # q1 @ tr)"
  shows "live_published ((Entity (zzdds_destroy_factory f), r8) # (printf l7, r7) # q3 @ (printf l6, r6) # (atomic_access, r5) # (printf l4, r4)
        # (atomic_access, r3) # (Query (get_liveliness_lost_status mdw), rm) # (Query (get_liveliness_lost_status adw), ra)
        # (printf l2, r2) # q2 @ (printf l1, r1) # q1 @ tr)"
proof -
  let ?mid = "(atomic_access, r3) # (Query (get_liveliness_lost_status mdw), rm) # (Query (get_liveliness_lost_status adw), ra)
      # (printf l2, r2) # q2 @ [(printf l1, r1)]"
  let ?late = "[(Entity (zzdds_destroy_factory f), r8), (printf l7, r7)] @ q3 @ [(printf l6, r6), (atomic_access, r5), (printf l4, r4)]"
  let ?tr = "(?late @ ?mid) @ q1 @ tr"
  have b: "before is_write (on_both came) ?tr"
    by (rule before_append, rule before_other [OF t(3)], erule idle_not_write [OF q(1)]) (intro on_both_append came_append q(2))
  have k: "kept_alive adw mdw ?tr"
    unfolding kept_alive_def
    by (intro exI [of _ ?late] exI [of _ "?mid @ q1 @ tr"]) (use t q a(3) in \<open>simp add: wrote_both_def\<close>)
  have l: "on_both came_left ?tr"
    using on_both_append [OF came_left_append g, of "[(Entity (zzdds_destroy_factory f), r8), (printf l7, r7)]"] by simp
  have c: "closes ?tr"
    using t q by (auto simp: wrote_both_def intro!: closesI)
  have w: "only written ?tr = sixteen_each adw mdw 16"
    using t q by (simp add: wrote_both_def)
  have s: "status_total adw (\<lambda>n. n = 0) ?tr" "status_total mdw (\<lambda>n. n = num rm) ?tr"
    using a(1,2) m(1,2) by (auto simp: status_total_def)
  have d: "1 \<le> losses (manual (events ?tr))"
    using m(3) by simp
  have n: "live_writers_made adw mdw ?tr" "only printed ?tr = live_pub_lines (num rm)"
    using t(5) t(6) [symmetric] q by (simp_all add: live_writers_made_def wrote_both_def)
  have "live_published ?tr"
    unfolding live_published_def using b k l c w s d n m(2) by blast
  then show ?thesis by simp
qed

lemma live_publisher_wpt:
  "wpt (listening installs_listening) (verdict live_pub (both writer_state) 63000 (\<lambda>_. live_published)) (live_publisher argv) s []"
  unfolding live_publisher_def create_live_writer_def judge_writers_def live_drain_def auto_was_lost_def manual_not_lost_def report_side_def Let_def
  apply (rule wpt_open_participant [OF heeds_installs_listening setup_not_listening], assumption)
  apply (rule early_listening, assumption, simp)+
  apply (rule wpt_PutI)
  apply (rule early_listening, assumption, simp)
  apply (rule early_listening, assumption, simp)
  apply (rule early_listening, assumption, simp)
  apply (rule wpt_need, erule early_stands, simp)
  apply (erule wpt_step, simp, simp)
  apply (erule wpt_need, simp)
  apply (erule wpt_step, simp, simp)+
  apply (erule wpt_need, simp)
  apply (erule wpt_step, simp, simp)
  apply (erule wpt_live_matched, simp, rule wpt_ifI, erule wpt_fail, simp, drule meta_mp, simp)
  apply (erule wpt_step, simp, simp)
  apply (erule wpt_write_both, simp)
  apply (erule wpt_step, simp, simp)
  apply (erule wpt_step, simp, simp, rule wpt_ifI, erule wpt_fail, simp)+
  apply (erule wpt_load_stands, simp, frule lost_counts(1), rule wpt_ifI)
   apply (erule wpt_load_stands, simp, erule wpt_fail, simp)
  apply (erule wpt_step, simp, simp)
  apply (erule wpt_load_stands, simp, frule lost_counts(2), rule wpt_ifI)
   apply (erule wpt_load_stands, simp, erule wpt_fail, simp)
  apply (erule wpt_step, simp, simp)
  apply (erule wpt_live_gone, simp)
   apply ((assumption | rule on_both_came)+; fail)
  apply (rule wpt_ifI)
   apply ((erule wpt_load_stands, simp, (erule wpt_step, simp, simp)+)+)
   apply (erule wpt_fail, simp)
  apply (drule meta_mp, simp)
  apply (erule wpt_step, simp, simp)+
  apply (erule wpt_succeed, simp)
  apply (rule live_published_trace)
             apply (simp_all add: opened_no_write opened_factory live_writers_made_def live_pub_lines_def manual_line_def leased_def
      reliable_keep_all_def AUTOMATIC_LIVELINESS_QOS_def MANUAL_BY_PARTICIPANT_LIVELINESS_QOS_def LEASE_DURATION_SEC_def)
  done

text \<open>C13. The publisher of the liveliness test, against an arbitrary middleware that calls no listener before it is installed: it sleeps 63 seconds at
  most and ends with 1 right after a \<open>FAIL:\<close> line, or with 0. With 0 it had created exactly two writers, both reliable and with a lease of two seconds, one
  with AUTOMATIC liveliness on \<open>AutomaticLivelinessTopic\<close> and one with MANUAL_BY_PARTICIPANT liveliness on \<open>ManualByParticipantLivelinessTopic\<close>; it wrote 16
  samples on each, in turn, none before both had a matched reader; at a moment after all of them and after eight seconds the losses of liveliness reported for the
  automatic writer came to 0 in the 32-bit counter the listener keeps (none, or a multiple of \<open>2 ^ 32\<close>), and its status said 0 as well; at least one
  loss had been reported for the manual one, whose status said at least 1; both readers had gone again at the end; the documented lines were printed, with
  the total of the manual writer's status, and nothing else; and the factory was destroyed last.\<close>

theorem live_publisher_contract:
  assumes "\<And>tr c. listening installs_listening tr c (env tr c)"
  shows "case run env (live_publisher argv) s [] of (x, s', tr) \<Rightarrow>
    slept tr \<le> 63000 \<and> (x = Val 1 \<and> failed tr \<or> x = Val 0 \<and> live_published tr)"
  using wpt_run_result [where e = env, OF live_publisher_wpt assms, of argv s]
  by (simp add: verdict_def split_beta) blast

text \<open>Every call succeeds; both readers come with the second writer, and with the last sample the manual writer loses its liveliness and both readers go.\<close>

fun lease_env :: "(int app_call, (int, writer_event side_event) answer) env" where
  "lease_env tr (Entity (create_datawriter_listening p t q)) =
     (if liveliness q = Some (0, 2) then answers 5 [] else answers 6 [On_automatic (W_matched 1), On_manual (W_matched 1)])"
| "lease_env tr (Data (write_data w v h)) = answers 0 (if v = 15 \<and> w = 6 \<and> list_ex (installs_listening \<circ> fst) tr
     then [On_manual W_lost, On_automatic (W_matched 0), On_manual (W_matched 0)] else [])"
| "lease_env tr (Query (get_liveliness_lost_status dw)) = (answers 0 [])\<lparr>num := dw - 5\<rparr>"
| "lease_env tr (Entity (create_topic dp name type)) = answers 1 []"
| "lease_env tr (Entity (create_participant f d)) = answers 1 []"
| "lease_env tr (Entity (create_publisher dp)) = answers 1 []"
| "lease_env tr c = answers 0 []"

lemma lease_env_listens: "listening installs_listening tr c (lease_env tr c)"
  by (cases "(tr, c)" rule: lease_env.cases) (auto simp: listening_def answers_def list_ex_iff)

lemma live_publisher_run: "fst (run lease_env (live_publisher [''p'']) (both writer_state) []) = Val 0"
  by (simp add: evaluate live_publisher_def create_live_writer_def judge_writers_def live_drain_def write_both_def leased_def reliable_keep_all_def
     AUTOMATIC_LIVELINESS_QOS_def MANUAL_BY_PARTICIPANT_LIVELINESS_QOS_def live_constants both_def writer_state_def)

theorem live_publisher_contract_witness:
  "case run lease_env (live_publisher [''p'']) (both writer_state) [] of (x, s', tr) \<Rightarrow>
    slept tr \<le> 63000 \<and> x = Val 0 \<and> live_published tr"
  using live_publisher_contract [OF lease_env_listens, of "[''p'']" "both writer_state"] live_publisher_run
  by (auto simp: split_beta)

section \<open>Subscriber\<close>

definition found :: "reader_event list \<Rightarrow> bool" where
  "found es \<longleftrightarrow> (\<exists>n\<ge>1. R_matched n \<in> set es)"

lemma found_append: "found es \<Longrightarrow> found (es @ es')"
  by (auto simp: found_def)

lemma reader_follows:
  "\<not> r_matched (fold on_reader es state) < 1 \<Longrightarrow> \<not> r_matched state < 1 \<or> found es"
  "ever_not_alive (fold on_reader es state) \<longleftrightarrow> ever_not_alive state \<or> R_alive 0 \<in> set es"
proof (induction es arbitrary: state)
  case (Cons e es)
  { case 1 then show ?case using Cons.IH(1) [of "on_reader e state"] by (cases e) (auto simp: found_def Let_def not_less split: if_splits) }
  { case 2 show ?case using Cons.IH(2) by (cases e) (auto simp: Let_def) }
qed simp_all

abbreviation watch_stands :: "nat \<Rightarrow> ReaderState sides \<Rightarrow> (int, reader_event side_event) atrace \<Rightarrow> bool" where
  "watch_stands \<equiv> stands live_sub (both reader_state)"

definition both_found :: "(int, reader_event side_event) atrace \<Rightarrow> bool" where
  "both_found tr \<longleftrightarrow> found (automatic (events tr)) \<and> found (manual (events tr))"

lemma wpt_live_found:
  assumes "watch_stands k s tr" and "lets_break live_sub (both reader_state) Q"
    and "\<And>b q s'. idle q \<Longrightarrow> watch_stands (k + 40000) s' (q @ tr) \<Longrightarrow> (b \<Longrightarrow> both_found (q @ tr)) \<Longrightarrow> wpt G Q (g b) s' (q @ tr)"
  shows "wpt G Q (bind_prog (poll live_sub LIVE_POLL_PERIOD_MS LIVE_MATCH_TIMEOUT_MS
     (load_all live_sub [\<lambda>s. \<not> r_matched (auto_state s) < 1, \<lambda>s. \<not> r_matched (manual_state s) < 1])) g) s tr"
proof (rule wpt_await_sides [where c = "\<lambda>s. \<not> r_matched s < 1" and Ra = found, OF assms(1,2)])
  have c: "found es" if "\<not> r_matched (fold on_reader es reader_state) < 1" for es
    using reader_follows(1) [OF that] by (simp add: reader_state_def)
  show "found (automatic (events tr) @ es)" if "\<not> r_matched (fold on_reader (automatic (events tr) @ es) reader_state) < 1" for es
    using that by (rule c)
  show "found (manual (events tr) @ es)" if "\<not> r_matched (fold on_reader (manual (events tr) @ es) reader_state) < 1" for es
    using that by (rule c)
qed (use assms(3) found_append in \<open>simp_all add: both_found_def LIVE_MATCH_TIMEOUT_MS_def\<close>)

text \<open>Twelve seconds after both writers had been found, the automatic one had never been reported as not alive.\<close>

definition stayed_alive :: "(int, reader_event side_event) atrace \<Rightarrow> bool" where
  "stayed_alive tr \<longleftrightarrow> (\<exists>q p tr0. tr = q @ p @ tr0 \<and> both_found tr0 \<and> 12000 \<le> slept p \<and> R_alive 0 \<notin> set (automatic (events (p @ tr0))))"

text \<open>One reader per topic, each with a lease of two seconds: AUTOMATIC (0) on the first topic, MANUAL_BY_PARTICIPANT (1) on the second.\<close>

definition live_readers_made :: "(int, reader_event side_event) atrace \<Rightarrow> bool" where
  "live_readers_made tr \<longleftrightarrow> (\<exists>f domain dp sub t1 t2 q1 q2 dr1 dr2. creations tr =
     [(Entity zzdds_create_factory, f), (Entity (create_participant f domain), dp), (Entity (create_subscriber dp), sub),
      (Entity (create_topic dp ''AutomaticLivelinessTopic'' ''LivelinessEvent''), t1), (Entity (create_datareader sub t1 q1 True), dr1),
      (Entity (create_topic dp ''ManualByParticipantLivelinessTopic'' ''LivelinessEvent''), t2), (Entity (create_datareader sub t2 q2 True), dr2)]
     \<and> liveliness q1 = Some (0, 2) \<and> liveliness q2 = Some (1, 2) \<and> list_all (\<lambda>q. reliable q \<and> keep_all q \<and> \<not> transient_local q) [q1, q2])"

definition live_setup_lines :: "string list" where
  "live_setup_lines = [''Create topic: AutomaticLivelinessTopic'', ''Create reader for topic: AutomaticLivelinessTopic'',
     ''Create topic: ManualByParticipantLivelinessTopic'', ''Create reader for topic: ManualByParticipantLivelinessTopic'']"

definition live_observed :: "(int, reader_event side_event) atrace \<Rightarrow> bool" where
  "live_observed tr \<longleftrightarrow> live_readers_made tr \<and> stayed_alive tr \<and> R_alive 0 \<in> set (manual (events tr))
     \<and> only printed tr = live_setup_lines @
        [''Subscriber: both writers matched.'', ''Subscriber: AUTOMATIC reader never observed NOT_ALIVE, as expected.'',
         ''Subscriber: MANUAL_BY_PARTICIPANT reader observed NOT_ALIVE at least once, as expected.'', ''Subscriber: done.'']
     \<and> closes tr"

lemma not_alive_reads:
  assumes "watch_stands k s tr"
  shows "ever_not_alive (auto_state s) \<longleftrightarrow> R_alive 0 \<in> set (automatic (events tr))"
    "ever_not_alive (manual_state s) \<longleftrightarrow> R_alive 0 \<in> set (manual (events tr))"
  using side.tracks_stands [OF assms] by (auto simp: side_tracks_def reader_follows reader_state_def)

lemma live_observed_trace:
  assumes t: "only destroyed tr = []" "only printed tr = live_setup_lines" "\<exists>r. (Entity zzdds_create_factory, r) \<in> set tr \<and> ret r = f" "live_readers_made tr"
    and q: "idle q" "both_found (q @ tr)"
    and a: "R_alive 0 \<notin> set (automatic (events ((atomic_access, r3) # (sleep_ms 12000, r2) # (printf ''Subscriber: both writers matched.'', r1) # q @ tr)))"
    and m: "R_alive 0 \<in> set (manual (events ((atomic_access, r5) # (printf ''Subscriber: AUTOMATIC reader never observed NOT_ALIVE, as expected.'', r4)
        # (atomic_access, r3) # (sleep_ms 12000, r2) # (printf ''Subscriber: both writers matched.'', r1) # q @ tr)))"
  shows "live_observed ((Entity (zzdds_destroy_factory f), r8) # (printf ''Subscriber: done.'', r7)
        # (printf ''Subscriber: MANUAL_BY_PARTICIPANT reader observed NOT_ALIVE at least once, as expected.'', r6)
        # (atomic_access, r5) # (printf ''Subscriber: AUTOMATIC reader never observed NOT_ALIVE, as expected.'', r4)
        # (atomic_access, r3) # (sleep_ms 12000, r2) # (printf ''Subscriber: both writers matched.'', r1) # q @ tr)"
proof -
  let ?p = "[(atomic_access, r3), (sleep_ms 12000, r2), (printf ''Subscriber: both writers matched.'', r1)]"
  let ?q = "[(Entity (zzdds_destroy_factory f), r8), (printf ''Subscriber: done.'', r7),
        (printf ''Subscriber: MANUAL_BY_PARTICIPANT reader observed NOT_ALIVE at least once, as expected.'', r6), (atomic_access, r5),
        (printf ''Subscriber: AUTOMATIC reader never observed NOT_ALIVE, as expected.'', r4)]"
  let ?tr = "?q @ ?p @ q @ tr"
  have "stayed_alive ?tr"
    unfolding stayed_alive_def by (intro exI [of _ ?q] exI [of _ ?p] exI [of _ "q @ tr"]) (use q(2) a in simp)
  moreover have "R_alive 0 \<in> set (manual (events ?tr))" using m by auto
  moreover have "closes ?tr" using t(1,3) q(1) by (auto intro!: closesI)
  moreover have "only printed ?tr = only printed tr @ [''Subscriber: both writers matched.'',
      ''Subscriber: AUTOMATIC reader never observed NOT_ALIVE, as expected.'',
      ''Subscriber: MANUAL_BY_PARTICIPANT reader observed NOT_ALIVE at least once, as expected.'', ''Subscriber: done.'']"
    using q(1) by simp
  moreover have "live_readers_made ?tr" using t(4) q(1) by (simp add: live_readers_made_def)
  ultimately have "live_observed ?tr" unfolding live_observed_def using t(2) by simp
  then show ?thesis by simp
qed

lemma observe_ms: "OBSERVE_WINDOW_S * 1000 = 12000"
  by (simp add: OBSERVE_WINDOW_S_def)

lemma live_subscriber_wpt:
  "wpt (listening installs_reader_listener) (verdict live_sub (both reader_state) 52000 (\<lambda>_. live_observed)) (live_subscriber argv) s []"
  unfolding live_subscriber_def create_live_reader_def Let_def observe_ms
  apply (rule wpt_open_participant [OF heeds_reader setup_not_reader], assumption)
  apply (rule early_reader, assumption, simp)+
  apply (rule wpt_PutI)
  apply (rule early_reader, assumption, simp)
  apply (rule early_reader, assumption, simp)
  apply (rule early_reader, assumption, simp)
  apply (rule wpt_need, erule early_stands, simp)
  apply (erule wpt_step, simp, simp)
  apply (erule wpt_need, simp)
  apply (erule wpt_step, simp, simp)+
  apply (erule wpt_need, simp)
  apply (erule wpt_step, simp, simp)
  apply (erule wpt_live_found, simp, rule wpt_ifI, erule wpt_fail, simp, drule meta_mp, simp)
  apply (erule wpt_step, simp, simp)
  apply (erule wpt_sleep, simp)
  apply (erule wpt_load_stands, simp, frule not_alive_reads(1), rule wpt_ifI, erule wpt_fail, simp)
  apply (erule wpt_step, simp, simp)
  apply (erule wpt_load_stands, simp, frule not_alive_reads(2), rule wpt_ifI, erule wpt_fail, simp)
  apply (erule wpt_step, simp, simp)+
  apply (erule wpt_succeed, simp)
  apply (rule live_observed_trace)
  apply (simp_all add: opened_factory live_readers_made_def live_setup_lines_def leased_def
      reliable_keep_all_def AUTOMATIC_LIVELINESS_QOS_def MANUAL_BY_PARTICIPANT_LIVELINESS_QOS_def LEASE_DURATION_SEC_def)
  done

text \<open>C14. The subscriber of the liveliness test, against an arbitrary middleware that calls no listener before it is installed: it sleeps 52 seconds at
  most and ends with 1 right after a \<open>FAIL:\<close> line, or with 0. With 0 it had created exactly two reliable readers with a lease of two seconds, an AUTOMATIC one on
  \<open>AutomaticLivelinessTopic\<close> and a MANUAL_BY_PARTICIPANT one on \<open>ManualByParticipantLivelinessTopic\<close>; both writers were found; at a moment at least twelve
  seconds later the automatic one had never been reported as not alive; the manual one had been; the documented lines, from those of the two topics and readers to
  the last, were printed in order and nothing else; and the factory was destroyed last.\<close>

theorem live_subscriber_contract:
  assumes "\<And>tr c. listening installs_reader_listener tr c (env tr c)"
  shows "case run env (live_subscriber argv) s [] of (x, s', tr) \<Rightarrow>
    slept tr \<le> 52000 \<and> (x = Val 1 \<and> failed tr \<or> x = Val 0 \<and> live_observed tr)"
  using wpt_run_result [where e = env, OF live_subscriber_wpt assms, of argv s]
  by (simp add: verdict_def split_beta) blast

text \<open>Every call succeeds; both writers come with the second reader, and the manual one goes silent in the observation window.\<close>

fun watch_env :: "(int app_call, (int, reader_event side_event) answer) env" where
  "watch_env tr (Entity (create_datareader s t q l)) = answers 1 (if l then [On_automatic (R_matched 1), On_manual (R_matched 1), On_manual (R_alive 1)] else [])"
| "watch_env tr (sleep_ms n) = answers 0 (if list_ex (installs_reader_listener \<circ> fst) tr then [On_manual (R_alive 0)] else [])"
| "watch_env tr (Entity (create_topic dp name type)) = answers 1 []"
| "watch_env tr (Entity (create_participant f d)) = answers 1 []"
| "watch_env tr (Entity (create_subscriber dp)) = answers 1 []"
| "watch_env tr c = answers 0 []"

lemma watch_env_listens: "listening installs_reader_listener tr c (watch_env tr c)"
  by (cases "(tr, c)" rule: watch_env.cases) (auto simp: listening_def answers_def list_ex_iff)

lemma live_subscriber_run: "fst (run watch_env (live_subscriber [''s'']) (both reader_state) []) = Val 0"
  by (simp add: evaluate live_subscriber_def create_live_reader_def live_constants both_def reader_state_def)

theorem live_subscriber_contract_witness:
  "case run watch_env (live_subscriber [''s'']) (both reader_state) [] of (x, s', tr) \<Rightarrow>
    slept tr \<le> 52000 \<and> x = Val 0 \<and> live_observed tr"
  using live_subscriber_contract [OF watch_env_listens, of "[''s'']" "both reader_state"] live_subscriber_run
  by (auto simp: split_beta)

end
