(* ===== verification/Cpp_WaitSet.thy ===== *)
theory Cpp_WaitSet
  imports Dds "HOL-Library.Multiset"
begin

text \<open>
  How the C++ binding keeps attached conditions alive: \<open>WaitSetSupport\<close> and \<open>GuardConditionSupport\<close> of
  \<open>include/zzdds_cpp.hpp\<close>. Each attachment owns a \<open>ReleaseCtx\<close> with a \<open>shared_ptr\<close> to the condition; the
  C ABI calls \<open>release_trampoline\<close> on it when the attachment ends. Threads interleave between the
  statements of \<open>attach_condition\<close> that touch shared state, the process-wide default memory resource may
  change at any time, and the wait set behind the C ABI does what the comment of
  \<open>zzdds_waitset_attach_condition_with_release\<close> in \<open>zzdds_c.h\<close> promises. Objects, handles, blocks and
  resources are naturals; \<open>handle_of\<close> is the generated \<open>_zidl_handle_DDS_Condition\<close>, 0 for a condition
  this binding did not create.
\<close>

section \<open>State\<close>

record ReleaseCtx =
  cond :: nat
  ctx_resource :: nat

text \<open>Where a thread is in \<open>attach_condition\<close>: outside, before the call into the C ABI, or after it.\<close>

datatype phase =
    Outside
  | Calling nat nat nat
  | Returned nat int bool

text \<open>
  \<open>heap\<close> maps a live block to the resource that allocated it; \<open>attached\<close> holds the attachments (wait set,
  condition handle, release context), \<open>releasing\<close> the contexts of ended attachments whose callback is
  still to run; \<open>user_refs\<close> counts the application's own \<open>shared_ptr\<close>s to a condition object and
  \<open>gone\<close> the guard conditions whose destructor has run.
\<close>

record bindings =
  default_resource :: nat
  heap :: "nat \<rightharpoonup> nat"
  ctxs :: "nat \<rightharpoonup> ReleaseCtx"
  attached :: "(nat \<times> nat \<times> nat) list"
  releasing :: "nat list"
  phases :: "nat \<Rightarrow> phase"
  user_refs :: "nat \<Rightarrow> nat"
  gone :: "nat list"

definition no_bindings :: "nat \<Rightarrow> bindings" where
  "no_bindings res = \<lparr>default_resource = res, heap = Map.empty, ctxs = Map.empty, attached = [], releasing = [],
     phases = (\<lambda>_. Outside), user_refs = (\<lambda>_. 0), gone = []\<rparr>"

section \<open>Operations\<close>

text \<open>\<open>p\<close> is the block the default resource hands out.\<close>

definition allocReleaseCtx :: "nat \<Rightarrow> nat \<Rightarrow> bindings \<Rightarrow> bindings" where
  "allocReleaseCtx p cnd s = (let res = default_resource s in
     s\<lparr>heap := (heap s)(p \<mapsto> res), ctxs := (ctxs s)(p \<mapsto> \<lparr>cond = cnd, ctx_resource = res\<rparr>)\<rparr>)"

text \<open>Reading a context that is not live, or giving a block back to another resource than its own, is undefined.\<close>

definition freeReleaseCtx :: "nat \<Rightarrow> bindings \<Rightarrow> bindings outcome" where
  "freeReleaseCtx p s =
     (case ctxs s p of
        None \<Rightarrow> Crash ''use of a dead ReleaseCtx''
      | Some ctx \<Rightarrow>
          let res = ctx_resource ctx in
          if heap s p \<noteq> Some res then Crash ''deallocate through another resource''
          else Val (s\<lparr>heap := (heap s)(p := None), ctxs := (ctxs s)(p := None)\<rparr>))"

definition release_trampoline :: "nat \<Rightarrow> bindings \<Rightarrow> bindings outcome" where
  "release_trampoline ctx_raw s = freeReleaseCtx ctx_raw s"

text \<open>
  \<open>attach_condition\<close> up to the call: \<open>Inl\<close> is a return code, or \<open>None\<close> for \<open>std::bad_alloc\<close> (\<open>block\<close> is what
  the allocation gave); \<open>Inr\<close> the handle and the context passed on. \<open>plain_rc\<close> is what the inherited
  function returns for an empty pointer, here object 0.
\<close>

definition attach_enter ::
  "(nat \<Rightarrow> nat) \<Rightarrow> int \<Rightarrow> nat \<Rightarrow> nat option \<Rightarrow> bindings \<Rightarrow> int option + (nat \<times> nat \<times> bindings)" where
  "attach_enter handle_of plain_rc cnd block s =
     (if cnd = 0 then Inl (Some plain_rc)
      else let h = handle_of cnd in
      if h = 0 then Inl (Some DDS_RETCODE_BAD_PARAMETER)
      else case block of None \<Rightarrow> Inl None | Some ctx \<Rightarrow> Inr (h, ctx, allocReleaseCtx ctx cnd s))"

text \<open>After the call: a context the wait set did not store is destroyed here.\<close>

definition attach_leave :: "nat \<Rightarrow> int \<Rightarrow> bool \<Rightarrow> bindings \<Rightarrow> bindings outcome" where
  "attach_leave ctx rc accepted s =
     (if rc \<noteq> DDS_RETCODE_OK \<or> \<not> accepted then freeReleaseCtx ctx s else Val s)"

text \<open>What ends attachments behind the C ABI; the callbacks run afterwards, outside its lock.\<close>

definition end_attachments :: "(nat \<Rightarrow> nat \<Rightarrow> bool) \<Rightarrow> bindings \<Rightarrow> bindings" where
  "end_attachments P s = s\<lparr>
     attached := filter (\<lambda>(w, h, p). \<not> P w h) (attached s),
     releasing := map (\<lambda>(w, h, p). p) (filter (\<lambda>(w, h, p). P w h) (attached s)) @ releasing s\<rparr>"

definition WaitSetSupport_destructor :: "nat \<Rightarrow> bindings \<Rightarrow> bindings" where
  "WaitSetSupport_destructor ws s = end_attachments (\<lambda>w h. w = ws) s"

definition GuardConditionSupport_destructor :: "(nat \<Rightarrow> nat) \<Rightarrow> nat \<Rightarrow> bindings \<Rightarrow> bindings" where
  "GuardConditionSupport_destructor handle_of cnd s = (end_attachments (\<lambda>w h. h = handle_of cnd) s)\<lparr>gone := cnd # gone s\<rparr>"

section \<open>Steps\<close>

text \<open>No \<open>shared_ptr\<close> to the object is left.\<close>

definition unreferenced :: "bindings \<Rightarrow> nat \<Rightarrow> bool" where
  "unreferenced s cnd \<longleftrightarrow> user_refs s cnd = 0 \<and> (\<forall>ctx\<in>ran (ctxs s). cond ctx \<noteq> cnd)"

inductive cpp_step :: "(nat \<Rightarrow> nat) \<Rightarrow> bindings \<Rightarrow> bindings outcome \<Rightarrow> bool" for handle_of where
  setCppAllocator: "cpp_step handle_of s (Val (s\<lparr>default_resource := res\<rparr>))"
| create: "unreferenced s cnd \<Longrightarrow> cnd \<notin> set (gone s) \<Longrightarrow>
    cpp_step handle_of s (Val (s\<lparr>user_refs := (user_refs s)(cnd := 1)\<rparr>))"
| copy: "\<not> unreferenced s cnd \<Longrightarrow>
    cpp_step handle_of s (Val (s\<lparr>user_refs := (user_refs s)(cnd := user_refs s cnd + 1)\<rparr>))"
| drop: "user_refs s cnd > 0 \<Longrightarrow>
    cpp_step handle_of s (Val (s\<lparr>user_refs := (user_refs s)(cnd := user_refs s cnd - 1)\<rparr>))"
| enter: "phases s t = Outside \<Longrightarrow> user_refs s cnd > 0 \<Longrightarrow> heap s p = None \<Longrightarrow>
    attach_enter handle_of plain_rc cnd (Some p) s = Inr (h, ctx, s') \<Longrightarrow>
    cpp_step handle_of s (Val (s'\<lparr>phases := (phases s)(t := Calling ws h ctx)\<rparr>))"
| stored: "phases s t = Calling ws h ctx \<Longrightarrow> \<forall>p. (ws, h, p) \<notin> set (attached s) \<Longrightarrow>
    cpp_step handle_of s (Val (s\<lparr>attached := (ws, h, ctx) # attached s,
      phases := (phases s)(t := Returned ctx DDS_RETCODE_OK True)\<rparr>))"
| duplicate: "phases s t = Calling ws h ctx \<Longrightarrow> (ws, h, p) \<in> set (attached s) \<Longrightarrow>
    cpp_step handle_of s (Val (s\<lparr>phases := (phases s)(t := Returned ctx DDS_RETCODE_OK False)\<rparr>))"
| refused: "phases s t = Calling ws h ctx \<Longrightarrow> rc \<noteq> DDS_RETCODE_OK \<Longrightarrow>
    cpp_step handle_of s (Val (s\<lparr>phases := (phases s)(t := Returned ctx rc False)\<rparr>))"
| leave: "phases s t = Returned ctx rc accepted \<Longrightarrow>
    cpp_step handle_of s (attach_leave ctx rc accepted (s\<lparr>phases := (phases s)(t := Outside)\<rparr>))"
| detach: "cpp_step handle_of s (Val (end_attachments (\<lambda>w h'. w = ws \<and> h' = h) s))"
| waitset_gone: "cpp_step handle_of s (Val (WaitSetSupport_destructor ws s))"
| condition_gone: "cpp_step handle_of s (Val (end_attachments (\<lambda>w h'. h' = h) s))"
| guard_gone: "unreferenced s cnd \<Longrightarrow> cnd \<notin> set (gone s) \<Longrightarrow>
    cpp_step handle_of s (Val (GuardConditionSupport_destructor handle_of cnd s))"
| trampoline: "releasing s = xs @ ctx # ys \<Longrightarrow>
    cpp_step handle_of s (release_trampoline ctx (s\<lparr>releasing := xs @ ys\<rparr>))"

inductive cpp_reachable :: "(nat \<Rightarrow> nat) \<Rightarrow> bindings \<Rightarrow> bool" for handle_of where
  start: "cpp_reachable handle_of (no_bindings res)"
| step: "cpp_reachable handle_of s \<Longrightarrow> cpp_step handle_of s (Val s') \<Longrightarrow> cpp_reachable handle_of s'"

section \<open>The invariant\<close>

text \<open>The context a thread still owns.\<close>

fun pending :: "phase \<Rightarrow> nat option" where
  "pending (Calling ws h ctx) = Some ctx"
| "pending (Returned ctx rc accepted) = (if rc \<noteq> DDS_RETCODE_OK \<or> \<not> accepted then Some ctx else None)"
| "pending Outside = None"

definition stored_ctxs :: "bindings \<Rightarrow> nat list" where
  "stored_ctxs s = map (\<lambda>(w, h, p). p) (attached s) @ releasing s"

text \<open>Every live context has exactly one owner: an attachment, a callback about to run, or a thread.\<close>

definition ownership :: "bindings \<Rightarrow> bool" where
  "ownership s \<longleftrightarrow>
     distinct (stored_ctxs s)
     \<and> (\<forall>t p. pending (phases s t) = Some p \<longrightarrow> p \<notin> set (stored_ctxs s))
     \<and> (\<forall>t u p. pending (phases s t) = Some p \<longrightarrow> pending (phases s u) = Some p \<longrightarrow> t = u)
     \<and> (\<forall>p. ctxs s p \<noteq> None \<longleftrightarrow> p \<in> set (stored_ctxs s) \<or> (\<exists>t. pending (phases s t) = Some p))"

definition resources_match :: "bindings \<Rightarrow> bool" where
  "resources_match s \<longleftrightarrow> (\<forall>p. heap s p = map_option ctx_resource (ctxs s p))"

definition keeps :: "(nat \<Rightarrow> nat) \<Rightarrow> bindings \<Rightarrow> nat \<Rightarrow> nat \<Rightarrow> bool" where
  "keeps handle_of s h p \<longleftrightarrow> (\<exists>ctx. ctxs s p = Some ctx \<and> handle_of (cond ctx) = h)"

definition keepalive :: "(nat \<Rightarrow> nat) \<Rightarrow> bindings \<Rightarrow> bool" where
  "keepalive handle_of s \<longleftrightarrow>
     (\<forall>(w, h, p)\<in>set (attached s). keeps handle_of s h p)
     \<and> (\<forall>t w h p. phases s t = Calling w h p \<longrightarrow> keeps handle_of s h p)
     \<and> (\<forall>cnd\<in>set (gone s). unreferenced s cnd)"

definition cpp_inv :: "(nat \<Rightarrow> nat) \<Rightarrow> bindings \<Rightarrow> bool" where
  "cpp_inv handle_of s \<longleftrightarrow> ownership s \<and> resources_match s \<and> keepalive handle_of s"


lemma inv_start: "cpp_inv handle_of (no_bindings res)"
  by (simp add: cpp_inv_def no_bindings_def ownership_def resources_match_def keepalive_def stored_ctxs_def)

lemma mset_partition: "mset (map f (filter (\<lambda>x. \<not> Q x) xs)) + mset (map f (filter Q xs)) = mset (map f xs)"
  by (induction xs) simp_all

lemma stored_end_attachments:
  "set (stored_ctxs (end_attachments P s)) = set (stored_ctxs s)"
  "distinct (stored_ctxs (end_attachments P s)) = distinct (stored_ctxs s)"
proof -
  have "mset (stored_ctxs (end_attachments P s)) = mset (stored_ctxs s)"
    using mset_partition [of "\<lambda>x. snd (snd x)" "\<lambda>x. P (fst x) (fst (snd x))" "attached s"]
    by (simp add: stored_ctxs_def end_attachments_def case_prod_unfold flip: add.assoc)
  then show "set (stored_ctxs (end_attachments P s)) = set (stored_ctxs s)"
    "distinct (stored_ctxs (end_attachments P s)) = distinct (stored_ctxs s)"
    by (metis mset_eq_setD, metis mset_eq_imp_distinct_iff)
qed

lemma end_attachments_other [simp]:
  "ctxs (end_attachments P s) = ctxs s" "heap (end_attachments P s) = heap s" "phases (end_attachments P s) = phases s"
  "user_refs (end_attachments P s) = user_refs s" "gone (end_attachments P s) = gone s"
  "set (attached (end_attachments P s)) \<subseteq> set (attached s)"
  by (auto simp: end_attachments_def)

lemma inv_end_attachments: "cpp_inv handle_of s \<Longrightarrow> cpp_inv handle_of (end_attachments P s)"
  unfolding cpp_inv_def ownership_def resources_match_def keepalive_def keeps_def unreferenced_def stored_end_attachments
  by (auto dest: subsetD [OF end_attachments_other(6)])

text \<open>Freeing a context succeeds for its owner, who then no longer has it.\<close>

lemma freeReleaseCtx_owned:
  assumes "resources_match s" and "ctxs s p \<noteq> None"
  shows "freeReleaseCtx p s = Val (s\<lparr>heap := (heap s)(p := None), ctxs := (ctxs s)(p := None)\<rparr>)"
  using assms by (auto simp: freeReleaseCtx_def resources_match_def)

lemma unreferenced_free: "unreferenced s cnd \<Longrightarrow> (\<forall>ctx\<in>ran ((ctxs s)(p := None)). cond ctx \<noteq> cnd)"
  by (auto simp: unreferenced_def ran_def split: if_splits)

lemma keepalive_free:
  assumes "keepalive handle_of s" and "\<And>w h. (w, h, p) \<notin> set (attached s)" and "\<And>t w h. phases' t = Calling w h p \<Longrightarrow> False"
    and "\<And>t w h q. phases' t = Calling w h q \<Longrightarrow> phases s t = Calling w h q"
  shows "keepalive handle_of (s\<lparr>phases := phases', releasing := rs, heap := hp, ctxs := (ctxs s)(p := None)\<rparr>)"
  using assms unfolding keepalive_def keeps_def
  by (fastforce simp: unreferenced_def ran_def)

lemma resources_free:
  "resources_match s \<Longrightarrow> resources_match (s\<lparr>phases := ph, releasing := rs, heap := (heap s)(p := None), ctxs := (ctxs s)(p := None)\<rparr>)"
  by (simp add: resources_match_def)

lemma inv_leave:
  assumes "cpp_inv handle_of s" and "phases s t = Returned ctx rc accepted"
  shows "\<exists>s'. attach_leave ctx rc accepted (s\<lparr>phases := (phases s)(t := Outside)\<rparr>) = Val s' \<and> cpp_inv handle_of s'"
proof (cases "rc \<noteq> DDS_RETCODE_OK \<or> \<not> accepted")
  case True
  let ?ph = "(phases s)(t := Outside)"
  let ?s = "s\<lparr>phases := ?ph, releasing := releasing s, heap := (heap s)(ctx := None), ctxs := (ctxs s)(ctx := None)\<rparr>"
  have own: "pending (phases s t) = Some ctx" using True assms(2) by auto
  have live: "ctxs s ctx \<noteq> None" and stored: "ctx \<notin> set (stored_ctxs s)"
    and single: "\<And>u. pending (phases s u) = Some ctx \<Longrightarrow> u = t"
    using assms(1) own by (auto simp: cpp_inv_def ownership_def)
  have "ownership ?s"
    using assms(1) own single stored unfolding cpp_inv_def ownership_def stored_ctxs_def
    by (auto; metis option.inject)
  moreover have "keepalive handle_of ?s"
  proof (rule keepalive_free)
    show "(w, h, ctx) \<notin> set (attached s)" for w h
      using stored by (force simp: stored_ctxs_def)
    show False if "?ph u = Calling w h ctx" for u w h
      using that single [of u] by (auto split: if_splits)
  qed (use assms(1) in \<open>auto simp: cpp_inv_def split: if_splits\<close>)
  moreover have "resources_match ?s"
    using assms(1) by (intro resources_free) (simp add: cpp_inv_def)
  ultimately show ?thesis
    using True live assms(1) freeReleaseCtx_owned [of "s\<lparr>phases := ?ph\<rparr>" ctx]
    by (auto simp: attach_leave_def cpp_inv_def resources_match_def)
next
  case False
  then have "pending (phases s t) = None" using assms(2) by simp
  moreover have "cpp_inv handle_of (s\<lparr>phases := (phases s)(t := Outside)\<rparr>)"
    using assms(1) calculation
    unfolding cpp_inv_def ownership_def keepalive_def keeps_def unreferenced_def resources_match_def stored_ctxs_def
    by (auto; metis option.distinct(1))
  ultimately show ?thesis using False by (simp add: attach_leave_def)
qed

lemma inv_trampoline:
  assumes "cpp_inv handle_of s" and "releasing s = xs @ ctx # ys"
  shows "\<exists>s'. release_trampoline ctx (s\<lparr>releasing := xs @ ys\<rparr>) = Val s' \<and> cpp_inv handle_of s'"
proof -
  let ?s = "s\<lparr>phases := phases s, releasing := xs @ ys, heap := (heap s)(ctx := None), ctxs := (ctxs s)(ctx := None)\<rparr>"
  have stored: "ctx \<in> set (stored_ctxs s)" using assms(2) by (simp add: stored_ctxs_def)
  then have live: "ctxs s ctx \<noteq> None" and idle: "\<And>t. pending (phases s t) \<noteq> Some ctx"
    using assms(1) by (auto simp: cpp_inv_def ownership_def)
  have "ownership ?s"
    using assms idle unfolding cpp_inv_def ownership_def stored_ctxs_def by auto
  moreover have "keepalive handle_of ?s"
  proof (rule keepalive_free)
    show "(w, h, ctx) \<notin> set (attached s)" for w h
      using assms unfolding cpp_inv_def ownership_def stored_ctxs_def by (auto simp: image_iff)
    show False if "phases s u = Calling w h ctx" for u w h
      using that idle [of u] by simp
  qed (use assms(1) in \<open>auto simp: cpp_inv_def\<close>)
  moreover have "resources_match ?s"
    using assms(1) by (intro resources_free) (simp add: cpp_inv_def)
  ultimately show ?thesis
    using live assms(1) freeReleaseCtx_owned [of "s\<lparr>releasing := xs @ ys\<rparr>" ctx]
    by (auto simp: release_trampoline_def cpp_inv_def resources_match_def)
qed


lemma inv_enter:
  assumes "cpp_inv handle_of s" and "phases s t = Outside" and "user_refs s cnd > 0" and "heap s p = None"
  shows "cpp_inv handle_of ((allocReleaseCtx p cnd s)\<lparr>phases := (phases s)(t := Calling ws (handle_of cnd) p)\<rparr>)"
proof -
  have free: "ctxs s p = None"
    using assms(1,4) by (auto simp: cpp_inv_def resources_match_def)
  then have unowned: "p \<notin> set (stored_ctxs s)" "\<And>u. pending (phases s u) \<noteq> Some p"
    using assms(1) unfolding cpp_inv_def ownership_def by metis+
  have idle: "pending (phases s t) = None" by (simp add: assms(2))
  let ?s = "(allocReleaseCtx p cnd s)\<lparr>phases := (phases s)(t := Calling ws (handle_of cnd) p)\<rparr>"
  have "ownership ?s"
    using assms(1) unowned idle unfolding cpp_inv_def ownership_def stored_ctxs_def allocReleaseCtx_def Let_def
    by (auto; metis option.distinct(1))
  moreover have "keepalive handle_of ?s"
    using assms(1,3) free unfolding cpp_inv_def keepalive_def keeps_def unreferenced_def allocReleaseCtx_def Let_def
    by (auto simp: ran_def; metis option.distinct(1))
  ultimately show ?thesis
    using assms(1) by (auto simp: cpp_inv_def resources_match_def allocReleaseCtx_def Let_def)
qed


lemma inv_refs:
  assumes "cpp_inv handle_of s" and "cnd \<notin> set (gone s) \<or> n = 0"
  shows "cpp_inv handle_of (s\<lparr>user_refs := (user_refs s)(cnd := n)\<rparr>)"
  using assms
  by (auto simp: cpp_inv_def ownership_def resources_match_def keepalive_def keeps_def unreferenced_def stored_ctxs_def)

lemma inv_stored:
  assumes "cpp_inv handle_of s" and "phases s t = Calling ws h ctx"
  shows "cpp_inv handle_of (s\<lparr>attached := (ws, h, ctx) # attached s, phases := (phases s)(t := Returned ctx DDS_RETCODE_OK True)\<rparr>)"
    (is "cpp_inv _ ?s")
proof -
  have own: "pending (phases s t) = Some ctx" using assms(2) by simp
  then have stored: "ctx \<notin> set (stored_ctxs s)" and single: "\<And>u. pending (phases s u) = Some ctx \<Longrightarrow> u = t"
    using assms(1) by (auto simp: cpp_inv_def ownership_def)
  have "ownership ?s"
    using assms(1) own stored single unfolding cpp_inv_def ownership_def stored_ctxs_def
    by (auto; metis option.inject)
  moreover have "keepalive handle_of ?s"
    using assms unfolding cpp_inv_def keepalive_def keeps_def unreferenced_def by (auto split: if_splits)
  ultimately show ?thesis using assms(1) by (simp add: cpp_inv_def resources_match_def)
qed

lemma inv_returned:
  assumes "cpp_inv handle_of s" and "phases s t = Calling ws h ctx" and "rc \<noteq> DDS_RETCODE_OK \<or> \<not> accepted"
  shows "cpp_inv handle_of (s\<lparr>phases := (phases s)(t := Returned ctx rc accepted)\<rparr>)" (is "cpp_inv _ ?s")
proof -
  have "pending (phases ?s u) = pending (phases s u)" for u
    using assms(2,3) by simp
  then have "ownership ?s"
    using assms(1) by (simp only: cpp_inv_def ownership_def stored_ctxs_def) (simp del: fun_upd_apply)
  with assms(1) show ?thesis
    by (auto simp: cpp_inv_def resources_match_def keepalive_def keeps_def unreferenced_def)
qed

lemma inv_step:
  assumes "cpp_step handle_of s x" and "cpp_inv handle_of s"
  shows "\<exists>s'. x = Val s' \<and> cpp_inv handle_of s'"
  using assms
proof cases
  case (setCppAllocator res)
  with assms(2) show ?thesis
    by (auto simp: cpp_inv_def ownership_def resources_match_def keepalive_def keeps_def unreferenced_def stored_ctxs_def)
next
  case (create cnd)
  with assms(2) show ?thesis by (simp add: inv_refs)
next
  case (copy cnd)
  with assms(2) have "cnd \<notin> set (gone s)" by (auto simp: cpp_inv_def keepalive_def)
  with copy assms(2) show ?thesis by (simp add: inv_refs)
next
  case (drop cnd)
  with assms(2) have "cnd \<notin> set (gone s)" by (auto simp: cpp_inv_def keepalive_def unreferenced_def)
  with drop assms(2) show ?thesis by (simp add: inv_refs)
next
  case (enter t cnd p plain_rc h ctx s' ws)
  then have "h = handle_of cnd" "ctx = p" "s' = allocReleaseCtx p cnd s"
    by (auto simp: attach_enter_def Let_def split: if_splits)
  with enter assms(2) show ?thesis by (simp add: inv_enter)
next
  case (guard_gone cnd)
  have "cpp_inv handle_of (end_attachments (\<lambda>w h. h = handle_of cnd) s)"
    by (rule inv_end_attachments [OF assms(2)])
  with guard_gone show ?thesis
    by (auto simp: GuardConditionSupport_destructor_def cpp_inv_def ownership_def resources_match_def keepalive_def keeps_def
        unreferenced_def stored_ctxs_def)
qed (use assms(2) inv_stored inv_returned inv_leave inv_trampoline inv_end_attachments in \<open>auto simp: WaitSetSupport_destructor_def\<close>)

lemma inv_reachable: "cpp_reachable handle_of s \<Longrightarrow> cpp_inv handle_of s"
proof (induction rule: cpp_reachable.induct)
  case (step s s')
  then show ?case using inv_step [OF step.hyps(2) step.IH] by auto
qed (rule inv_start)

section \<open>Properties\<close>

text \<open>C2. Attaching conditions from C++ is memory safe and leak free under every interleaving of threads
  that attach, detach and destroy wait sets and conditions, with the process-wide memory resource changed
  at any moment. No step reads a dead context or gives a block back to another resource than the one it
  came from; each live context has exactly one owner; an attached condition, and one that a thread
  is handing to the C ABI, is held by its context, whose object has not been destroyed; and when nothing is attached, no callback is
  due and no thread is inside \<open>attach_condition\<close>, no block is left. When each condition object has a handle
  of its own, the destructor of a guard condition ends no attachment: it runs only once none is left.\<close>

theorem cpp_attachments_safe:
  assumes "cpp_reachable handle_of s"
  shows "(cpp_step handle_of s x \<longrightarrow> (\<exists>s'. x = Val s'))
    \<and> ownership s
    \<and> (\<forall>(w, h, p)\<in>set (attached s). \<exists>ctx. ctxs s p = Some ctx \<and> handle_of (cond ctx) = h \<and> cond ctx \<notin> set (gone s))
    \<and> (\<forall>t w h p. phases s t = Calling w h p \<longrightarrow> (\<exists>ctx. ctxs s p = Some ctx \<and> handle_of (cond ctx) = h \<and> cond ctx \<notin> set (gone s)))
    \<and> (attached s = [] \<and> releasing s = [] \<and> (\<forall>t. phases s t = Outside) \<longrightarrow> heap s = Map.empty)
    \<and> (inj handle_of \<and> unreferenced s cnd \<longrightarrow> attached (GuardConditionSupport_destructor handle_of cnd s) = attached s)"
proof (intro conjI impI allI)
  have inv: "cpp_inv handle_of s" by (rule inv_reachable [OF assms])
  show "\<exists>s'. x = Val s'" if "cpp_step handle_of s x" using inv_step [OF that inv] by auto
  show "ownership s" using inv by (simp add: cpp_inv_def)
  have "cond ctx \<notin> set (gone s)" if "ctxs s p = Some ctx" for p ctx
    using inv ranI [of "ctxs s" p ctx, OF that] unfolding cpp_inv_def keepalive_def unreferenced_def by blast
  then have kept: "\<exists>ctx. ctxs s p = Some ctx \<and> handle_of (cond ctx) = h \<and> cond ctx \<notin> set (gone s)" if "keeps handle_of s h p" for h p
    using that by (auto simp: keeps_def)
  then show "\<forall>(w, h, p)\<in>set (attached s). \<exists>ctx. ctxs s p = Some ctx \<and> handle_of (cond ctx) = h \<and> cond ctx \<notin> set (gone s)"
    using inv unfolding cpp_inv_def keepalive_def by fastforce
  show "\<exists>ctx. ctxs s p = Some ctx \<and> handle_of (cond ctx) = h \<and> cond ctx \<notin> set (gone s)" if "phases s t = Calling w h p" for t w h p
    using inv that kept unfolding cpp_inv_def keepalive_def by blast
  show "heap s = Map.empty" if "attached s = [] \<and> releasing s = [] \<and> (\<forall>t. phases s t = Outside)"
    using inv that unfolding cpp_inv_def ownership_def resources_match_def stored_ctxs_def by fastforce
  show "attached (GuardConditionSupport_destructor handle_of cnd s) = attached s" if g: "inj handle_of \<and> unreferenced s cnd"
  proof -
    have "h \<noteq> handle_of cnd" if att: "(w, h, p) \<in> set (attached s)" for w h p
    proof -
      obtain ctx where ctx: "ctxs s p = Some ctx" "handle_of (cond ctx) = h"
        using inv att unfolding cpp_inv_def keepalive_def keeps_def by blast
      with g have "cond ctx \<noteq> cnd" by (auto simp: unreferenced_def intro: ranI)
      with g ctx(2) show ?thesis by (auto dest: injD)
    qed
    then show ?thesis
      by (auto simp: GuardConditionSupport_destructor_def end_attachments_def intro!: filter_True)
  qed
qed

text \<open>A guard condition is attached while the memory resource changes, and the application drops its own reference.\<close>

definition attached_alone :: bindings where
  "attached_alone = (no_bindings 1)\<lparr>default_resource := 2, heap := [7 \<mapsto> 1], ctxs := [7 \<mapsto> \<lparr>cond = 5, ctx_resource = 1\<rparr>],
     attached := [(3, 6, 7)], user_refs := (\<lambda>_. 0)(5 := 0)\<rparr>"

lemma attached_alone_reachable: "cpp_reachable Suc attached_alone"
proof -
  let ?s1 = "(no_bindings 1)\<lparr>user_refs := (user_refs (no_bindings 1))(5 := 1)\<rparr>"
  let ?s2 = "(allocReleaseCtx 7 5 ?s1)\<lparr>phases := (phases ?s1)(4 := Calling 3 6 7)\<rparr>"
  let ?s3 = "?s2\<lparr>attached := (3, 6, 7) # attached ?s2, phases := (phases ?s2)(4 := Returned 7 DDS_RETCODE_OK True)\<rparr>"
  let ?s4 = "?s3\<lparr>default_resource := 2\<rparr>"
  let ?s5 = "?s4\<lparr>phases := (phases ?s4)(4 := Outside)\<rparr>"
  let ?s6 = "?s5\<lparr>user_refs := (user_refs ?s5)(5 := user_refs ?s5 5 - 1)\<rparr>"
  note defs = no_bindings_def allocReleaseCtx_def attach_enter_def attach_leave_def unreferenced_def Let_def
  have s1: "cpp_reachable Suc ?s1"
    by (rule step [OF start cpp_step.create]) (simp_all add: defs)
  have s2: "cpp_reachable Suc ?s2"
    by (rule step [OF s1 enter [where t = 4 and cnd = 5 and p = 7 and plain_rc = 0 and h = 6 and ctx = 7 and ws = 3]]) (simp_all add: defs)
  have s3: "cpp_reachable Suc ?s3"
    by (rule step [OF s2 cpp_step.stored]) (simp_all add: defs)
  have s4: "cpp_reachable Suc ?s4"
    by (rule step [OF s3 setCppAllocator])
  have "cpp_step Suc ?s4 (attach_leave 7 DDS_RETCODE_OK True ?s5)"
    by (rule leave) simp
  then have s5: "cpp_reachable Suc ?s5"
    using step [OF s4] by (simp add: attach_leave_def)
  have s6: "cpp_reachable Suc ?s6"
    by (rule step [OF s5 cpp_step.drop]) (simp add: defs)
  moreover have "?s6 = attached_alone"
    by (simp add: attached_alone_def defs fun_eq_iff)
  ultimately show ?thesis by simp
qed

theorem cpp_attachments_safe_witness:
  "cpp_reachable Suc attached_alone \<and> ownership attached_alone \<and> unreferenced attached_alone 9
    \<and> attached (GuardConditionSupport_destructor Suc 9 attached_alone) = [(3, 6, 7)]
    \<and> cpp_step Suc attached_alone (Val (WaitSetSupport_destructor 3 attached_alone))"
proof -
  have u: "unreferenced attached_alone 9" "attached attached_alone = [(3, 6, 7)]"
    by (simp_all add: attached_alone_def unreferenced_def no_bindings_def)
  then show ?thesis
    using cpp_attachments_safe [OF attached_alone_reachable, of "Val attached_alone" 9] attached_alone_reachable
    by (auto intro: waitset_gone)
qed

end
