(* ===== verification/Cpp_Handles.thy ===== *)
theory Cpp_Handles
  imports Dds
begin

text \<open>
  How the C++ binding wraps C handles, from \<open>include/zzdds_cpp.hpp\<close>: the owning wrappers built by
  \<open>wrapFactoryHandle\<close>, \<open>wrapWaitSetHandle\<close> and \<open>wrapGuardConditionHandle\<close>, with the scope guard that destroys
  a handle nobody took over, and the \<open>_getOrCreate\<close> functions of the seven entity wrappers, which share a
  cache per family so that a handle has one wrapper of a class. The caches themselves are generated code:
  \<open>find\<close>, \<open>insert\<close> and \<open>remove\<close> are parameters with the laws of \<open>family_laws\<close>.
\<close>

section \<open>Owning wrappers\<close>

datatype owned_kind = Factory_handle | WaitSet_handle | GuardCondition_handle

datatype wrap_call =
    zzdds_create owned_kind "nat option"
  | zzdds_is_nil owned_kind nat
  | zzdds_destroy owned_kind nat
  | allocate_shared owned_kind nat
  | family_lock
  | family_unlock
  | DDS_GuardCondition_as_DDS_Condition nat
  | family_insert nat nat

text \<open>An answer: a handle, a truth value or an object; \<open>None\<close> is a thrown \<open>std::bad_alloc\<close>.\<close>

type_synonym wrap_trace = "(wrap_call, nat option) trace"

text \<open>A \<open>shared_ptr\<close>, possibly empty, or an exception on its way to the caller.\<close>

datatype 'a result = Ok 'a | Bad_alloc

text \<open>A wrapper: the object and its member \<open>handle_\<close>.\<close>

type_synonym owner = "nat \<times> nat"

type_synonym 'a wrap = "(unit, wrap_call, nat option, 'a) prog"

text \<open>The body says with its result whether the guard is still active; the destructor runs in any case.\<close>

definition ScopeGuard :: "wrap_call \<Rightarrow> (bool \<times> 'a result) wrap \<Rightarrow> 'a result wrap" where
  "ScopeGuard f body = bind_prog body (\<lambda>(active, r). if active then Do f (Return r) else Return r)"

text \<open>The destructors \<open>~DomainParticipantFactorySupport\<close>, \<open>~WaitSetSupport\<close> and \<open>~GuardConditionSupport\<close>.\<close>

definition Support_destructor :: "owned_kind \<Rightarrow> nat \<Rightarrow> 'a wrap \<Rightarrow> 'a wrap" where
  "Support_destructor kind handle p = Do (zzdds_destroy kind handle) p"

definition wrapFactoryHandle :: "nat \<Rightarrow> owner option result wrap" where
  "wrapFactoryHandle handle =
     Call (zzdds_is_nil Factory_handle handle) (\<lambda>nil.
       if nil \<noteq> Some 0 then Return (Ok None)
       else ScopeGuard (zzdds_destroy Factory_handle handle)
         (Call (allocate_shared Factory_handle handle) (\<lambda>sp.
            case sp of None \<Rightarrow> Return (True, Bad_alloc) | Some obj \<Rightarrow> Return (False, Ok (Some (obj, handle))))))"

definition wrapWaitSetHandle :: "nat \<Rightarrow> owner option result wrap" where
  "wrapWaitSetHandle handle =
     Call (zzdds_is_nil WaitSet_handle handle) (\<lambda>nil.
       if nil \<noteq> Some 0 then Return (Ok None)
       else ScopeGuard (zzdds_destroy WaitSet_handle handle)
         (Call (allocate_shared WaitSet_handle handle) (\<lambda>sp.
            case sp of None \<Rightarrow> Return (True, Bad_alloc) | Some obj \<Rightarrow> Return (False, Ok (Some (obj, handle))))))"

text \<open>After \<open>dismiss\<close> the wrapper owns the handle: if the insertion throws, the lock is released and the
  wrapper's destructor runs.\<close>

definition wrapGuardConditionHandle :: "nat \<Rightarrow> owner option result wrap" where
  "wrapGuardConditionHandle handle =
     Call (zzdds_is_nil GuardCondition_handle handle) (\<lambda>nil.
       if nil \<noteq> Some 0 then Return (Ok None)
       else ScopeGuard (zzdds_destroy GuardCondition_handle handle)
         (Call (allocate_shared GuardCondition_handle handle) (\<lambda>sp.
            case sp of
              None \<Rightarrow> Return (True, Bad_alloc)
            | Some obj \<Rightarrow>
                Do family_lock (Call (DDS_GuardCondition_as_DDS_Condition handle) (\<lambda>base.
                  Call (family_insert (case base of Some h \<Rightarrow> h | None \<Rightarrow> 0) obj) (\<lambda>r. Do family_unlock (
                    if r = None then Support_destructor GuardCondition_handle handle (Return (False, Bad_alloc))
                    else Return (False, Ok (Some (obj, handle))))))))))"

definition wrap_handle :: "owned_kind \<Rightarrow> nat \<Rightarrow> owner option result wrap" where
  "wrap_handle kind = (case kind of Factory_handle \<Rightarrow> wrapFactoryHandle | WaitSet_handle \<Rightarrow> wrapWaitSetHandle
     | GuardCondition_handle \<Rightarrow> wrapGuardConditionHandle)"

text \<open>\<open>create_factory\<close>, \<open>create_waitset\<close> and \<open>create_guardcondition\<close>, without and with an allocator.\<close>

definition create_wrapped :: "owned_kind \<Rightarrow> nat option \<Rightarrow> owner option result wrap" where
  "create_wrapped kind allocator = Call (zzdds_create kind allocator) (\<lambda>h. wrap_handle kind (case h of Some x \<Rightarrow> x | None \<Rightarrow> 0))"

text \<open>The whole life of a wrapper: created, and its last \<open>shared_ptr\<close> dropped in the end.\<close>

definition wrapper_life :: "owned_kind \<Rightarrow> nat option \<Rightarrow> bool result wrap" where
  "wrapper_life kind allocator = bind_prog (create_wrapped kind allocator) (\<lambda>r. case r of
       Ok (Some (obj, handle)) \<Rightarrow> Support_destructor kind handle (Return (Ok True))
     | Ok None \<Rightarrow> Return (Ok False)
     | Bad_alloc \<Rightarrow> Return Bad_alloc)"

definition handles :: "(wrap_call \<Rightarrow> nat option) \<Rightarrow> wrap_trace \<Rightarrow> nat list" where
  "handles f tr = List.map_filter (\<lambda>(c, r). f c) (rev tr)"

fun destroys :: "owned_kind \<Rightarrow> wrap_call \<Rightarrow> nat option" where
  "destroys kind (zzdds_destroy k h) = (if k = kind then Some h else None)"
| "destroys kind _ = None"

fun lock_balance :: "wrap_trace \<Rightarrow> int" where
  "lock_balance [] = 0"
| "lock_balance ((family_lock, r) # tr) = lock_balance tr + 1"
| "lock_balance ((family_unlock, r) # tr) = lock_balance tr - 1"
| "lock_balance (x # tr) = lock_balance tr"

lemma handles_simps [simp]:
  "handles f [] = []"
  "handles f ((c, r) # tr) = handles f tr @ (case f c of Some h \<Rightarrow> [h] | None \<Rightarrow> [])"
  by (simp_all add: handles_def List.map_filter_def split: option.splits)

text \<open>C12. A C handle the binding creates is destroyed exactly once. Whatever the C ABI, the memory
  resource and the family cache do, the life of a factory, wait set or guard condition wrapper ends with
  its handle destroyed once if the handle was not nil, and not at all if it was: by the wrapper's
  destructor, or when the wrapper could not be built by the scope guard, or by the destructor again when
  registering a guard condition throws. The family mutex is released on every path.\<close>

theorem handle_destroyed_once:
  "wpt any_answer (\<lambda>x s tr. \<exists>h nil.
      let handle = (case h of Some x \<Rightarrow> x | None \<Rightarrow> 0) in
      take 2 (rev tr) = [(zzdds_create kind allocator, h), (zzdds_is_nil kind handle, nil)]
      \<and> handles (destroys kind) tr = (if nil = Some 0 then [handle] else [])
      \<and> lock_balance tr = 0 \<and> (x = Val (Ok False) \<longleftrightarrow> nil \<noteq> Some 0) \<and> (\<exists>r. x = Val r))
    (wrapper_life kind allocator) s []"
  by (cases kind)
     (simp_all add: wrapper_life_def create_wrapped_def wrap_handle_def wrapFactoryHandle_def wrapWaitSetHandle_def
       wrapGuardConditionHandle_def ScopeGuard_def Support_destructor_def Let_def split: option.split)

end
