(* ===== verification/Cpp_Identity.thy ===== *)
theory Cpp_Identity
  imports Cpp_Handles
begin

text \<open>
  One wrapper per handle and class: the \<open>_getOrCreate\<close> functions of \<open>include/zzdds_cpp.hpp\<close>. They run under
  the mutex of their family, so each is one step. An entity wrapper has two halves, the inherited
  \<open>zzdds\<close> wrapper and the composed \<open>dds_\<close>, both for the same handle until \<open>_zidlRetire\<close> retires them because
  the core freed the handle.
\<close>

section \<open>Classes, families and wrappers\<close>

datatype support_class =
    TopicSupport | DataWriterSupport | DataReaderSupport | PublisherSupport | SubscriberSupport
  | ContentFilteredTopicSupport | DomainParticipantSupport

datatype family = Entity_family | TopicDescription_family

text \<open>A \<open>ContentFilteredTopic\<close> is not an \<open>Entity\<close>.\<close>

definition family_of :: "support_class \<Rightarrow> family" where
  "family_of cls = (if cls = ContentFilteredTopicSupport then TopicDescription_family else Entity_family)"

text \<open>\<open>ext_half\<close> and \<open>dds_half\<close> hold the handle, 0 once retired.\<close>

record wrapper =
  wrapper_class :: support_class
  ext_half :: nat
  dds_half :: nat

text \<open>An entry: its class (the address of the class's static tag) and the object; the weak reference can
  be locked as long as the object is alive.\<close>

record entry =
  tag :: support_class
  obj :: nat

record 'c binding =
  caches :: "family \<Rightarrow> 'c"
  alive :: "nat \<rightharpoonup> wrapper"

section \<open>The family cache\<close>



section \<open>Operations\<close>

text \<open>The constructor: the inherited half gets the handle converted to the class's \<open>zzdds\<close> type, e.g. by
  \<open>DDS_Topic_as_zzdds_Topic\<close>, which is \<open>as_ext\<close> here; the composed half gets it as it is.\<close>

definition new_wrapper :: "(support_class \<Rightarrow> nat \<Rightarrow> nat) \<Rightarrow> support_class \<Rightarrow> nat \<Rightarrow> wrapper" where
  "new_wrapper as_ext cls h = \<lparr>wrapper_class = cls, ext_half = as_ext cls h, dds_half = h\<rparr>"


text \<open>
  \<open>as_family\<close> converts a handle to the family's, e.g. \<open>DDS_Topic_as_DDS_Entity\<close>; \<open>storage\<close> is what
  \<open>allocate_shared\<close> gets from the memory resource, \<open>None\<close> for \<open>std::bad_alloc\<close>, and \<open>room\<close> whether
  \<open>_familyInsert\<close> finds memory. When it does not, its exception leaves the function and the new object,
  which nothing else refers to, is destroyed again.
\<close>

definition getOrCreate ::
  "('c \<Rightarrow> nat \<Rightarrow> support_class \<Rightarrow> entry option) \<Rightarrow> (bool \<Rightarrow> nat set \<Rightarrow> 'c \<Rightarrow> nat \<Rightarrow> entry \<Rightarrow> 'c) \<Rightarrow> (support_class \<Rightarrow> nat \<Rightarrow> nat)
     \<Rightarrow> (support_class \<Rightarrow> nat \<Rightarrow> nat) \<Rightarrow> support_class \<Rightarrow> nat \<Rightarrow> nat option \<Rightarrow> bool \<Rightarrow> 'c binding \<Rightarrow> nat option result \<times> 'c binding" where
  "getOrCreate find_entry insert_entry as_family as_ext cls h storage room s =
     (if h = 0 then (Ok None, s)
      else
        let fam = family_of cls; fh = as_family cls h;
            created =
              (case storage of
                 None \<Rightarrow> (Bad_alloc, s)
               | Some sp \<Rightarrow>
                   let entered = (caches s)(fam := insert_entry room (dom (alive s)) (caches s fam) fh \<lparr>tag = cls, obj = sp\<rparr>)
                   in if room then (Ok (Some sp), s\<lparr>caches := entered, alive := (alive s)(sp \<mapsto> new_wrapper as_ext cls h)\<rparr>)
                      else (Bad_alloc, s\<lparr>caches := entered\<rparr>))
        in case find_entry (caches s fam) fh cls of
             Some e \<Rightarrow> if alive s (obj e) \<noteq> None then (Ok (Some (obj e)), s) else created
           | None \<Rightarrow> created)"


definition TopicSupport_getOrCreate where
  "TopicSupport_getOrCreate find_entry insert_entry as_family as_ext = getOrCreate find_entry insert_entry as_family as_ext TopicSupport"
definition DataWriterSupport_getOrCreate where
  "DataWriterSupport_getOrCreate find_entry insert_entry as_family as_ext = getOrCreate find_entry insert_entry as_family as_ext DataWriterSupport"
definition DataReaderSupport_getOrCreate where
  "DataReaderSupport_getOrCreate find_entry insert_entry as_family as_ext = getOrCreate find_entry insert_entry as_family as_ext DataReaderSupport"
definition PublisherSupport_getOrCreate where
  "PublisherSupport_getOrCreate find_entry insert_entry as_family as_ext = getOrCreate find_entry insert_entry as_family as_ext PublisherSupport"
definition SubscriberSupport_getOrCreate where
  "SubscriberSupport_getOrCreate find_entry insert_entry as_family as_ext = getOrCreate find_entry insert_entry as_family as_ext SubscriberSupport"
definition ContentFilteredTopicSupport_getOrCreate where
  "ContentFilteredTopicSupport_getOrCreate find_entry insert_entry as_family as_ext =
     getOrCreate find_entry insert_entry as_family as_ext ContentFilteredTopicSupport"
definition DomainParticipantSupport_getOrCreate where
  "DomainParticipantSupport_getOrCreate find_entry insert_entry as_family as_ext =
     getOrCreate find_entry insert_entry as_family as_ext DomainParticipantSupport"





section \<open>The invariant\<close>















section \<open>Properties\<close>









end
