(* ===== verification/Spec2Isabelle.thy ===== *)
theory Spec2Isabelle
  imports Pool_Threads Noalloc_Guard Jni_Filter Shape_Subscribing Hello_Contracts Registry_Contracts Cft_Contracts
    Waitset_Contracts Ignore_Contracts Coherent_Delivery Session_Contracts Timestamp_Contracts Cft_Publisher History_Receiving
    Liveliness_Contracts Cpp_WaitSet Cpp_Identity
begin

text \<open>
  A verification development for the C and C++ code of zzdds, an implementation of the OMG Data
  Distribution Service. This theory imports the whole library.

  \<^bold>\<open>The program.\<close> The protocol engine of zzdds is written in Zig (\<open>src/src\<close>). Above it stand a C API and
  a C++ binding, both largely generated from \<open>idl/dcps.idl\<close> by a code generator that is not part of the
  repository, and a Java binding over JNI. What the repository has in C and C++ is: the hand-written
  half of the Java binding (\<open>java_runtime/zzdds_java_runtime.c\<close>), the hand-written half of the C++ binding
  (\<open>include/zzdds_cpp.hpp\<close>), the custom allocator example with its heap guard
  (\<open>examples/c/custom-allocator\<close>), the interoperability Shapes demo (\<open>examples/c/shape\<close>), and pairs of
  publisher and subscriber programs that are both examples (\<open>examples/c\<close>) and the end-to-end tests of
  the middleware (\<open>integration-tests/c\<close>). These programs talk to the middleware only: they create
  entities, are called back by it on its threads, write and take samples, and judge what they saw.

  \<^bold>\<open>How it is modelled.\<close> A C function that calls code outside its file is a tree of type \<open>prog\<close> (theory
  \<open>Prelude\<close>): it ends with an outcome, or reads or writes the static variables, or makes a call and
  continues with whatever is answered. Outcomes tell a normal return from \<open>exit\<close>, from running out of
  fuel and from undefined behaviour (\<open>Crash\<close>), so that a null pointer passed on or an index out of
  range is a value a theorem can exclude. \<open>wpt G Q p s tr\<close> says that whatever the callees answer within
  the guarantee \<open>G\<close>, the program ends in an outcome, a state and a trace of calls that satisfy \<open>Q\<close>; \<open>run\<close>
  executes the same tree against one concrete environment, and the witnesses are evaluations of \<open>run\<close>.
  Code that is generated or written in Zig is never given a definition: its answers are arbitrary, and
  where a theorem restricts them the restriction is a named hypothesis. Integers keep their C width
  where a width matters: words in \<open>Noalloc_Guard\<close>, integers with an explicit range check elsewhere.

  \<^bold>\<open>The theories.\<close>

  \<^item> \<open>Prelude\<close>: programs, traces, \<open>wpt\<close> with its rules, \<open>run\<close>, list lemmas. \<open>Dds\<close>: the return codes and
    state masks of the IDL. \<open>Cstring\<close>: \<open>strtol\<close>, \<open>strtof\<close>, \<open>strncpy\<close>, decimal output, as far as used.

  \<^item> \<open>Pool\<close> and \<open>Pool_Threads\<close> model \<open>static_pool_allocator.c\<close>: \<open>pool_alloc\<close>, \<open>pool_free\<close>, \<open>pool_resize\<close> and
    \<open>static_pool_allocator_reset\<close> on the free list of 512 blocks. The locale \<open>block_allocator\<close> states
    what a client may rely on and is interpreted as \<open>spa\<close>. \<open>Pool_Threads\<close> splits every operation into its
    accesses to shared memory; any number of threads interleave. Shown: ownership is exclusive, no
    block is lost, the threads refine an allocator whose operations are atomic, blocks do not overlap.

  \<^item> \<open>Noalloc_Guard\<close> models \<open>noalloc_guard_preload.c\<close> and \<open>noalloc_guard_client.c\<close>: the interposed
    \<open>malloc\<close> family, the resolution of the real functions through \<open>dlsym\<close>, which may itself allocate, and
    the bootstrap pool. A library function called from the guard (\<open>library_call\<close>: \<open>dlsym\<close>, and what \<open>trip\<close> reports with) makes
    requests of its own, which enter the guard again (\<open>serve\<close>, \<open>guard_op\<close>, to a bounded depth). Shown: one look-up per symbol,
    although the look-up allocates, and an armed guard aborts every request but those of its own report; exact forwarding
    otherwise, the bootstrap pool's bounds and the inputs on which its arithmetic wraps.

  \<^item> \<open>Jni_Runtime\<close> and \<open>Jni_TypeSupport\<close> model \<open>zzdds_java_runtime.c\<close> function by function; the state is the
    function-local caches, the statics and the heap contexts, the calls are the JNI table, the C ABI
    and libc. \<open>Jni_Contracts\<close> and \<open>Jni_Filter\<close> show that references, buffers, blocks and the mutex are
    given back on every path, that a failure surfaces as a Java exception and that an attached condition
    is pinned exactly as long as it is attached, but when its release finds no Java environment. JNI calls that the
    specification forbids in the field callback of a content filter are \<open>Crash\<close>; \<open>accessor_exception_misused\<close> reaches one.

  \<^item> \<open>Shape_Options\<close>, \<open>Shape_Cache\<close>, \<open>Shape_Publisher\<close>, \<open>Shape_Subscriber\<close> model \<open>shape_main.c\<close>: command line, QoS,
    listeners, the two loops, the instance cache (locale \<open>bounded_map\<close>, interpreted as \<open>ih\<close>) and \<open>main\<close>.
    \<open>Shape_Publishing\<close> and \<open>Shape_Subscribing\<close> show resource safety, bounds, completion against a
    cooperating middleware, and that the two sides agree about valid samples.

  \<^item> \<open>Example_Kit\<close> has what the example and test programs share: listeners run between any two calls of
    \<open>main\<close>, polling loops with a time limit, the verdict of a run, the entities a run created in their order (\<open>creations\<close>) and a bound on its
    sleeps that holds however it ends (\<open>sleeps\<close>). Its locale \<open>tracked_listener\<close> is the
    interface between a program's callbacks and its \<open>main\<close>: a property of the callbacks delivered so far
    and the shared variables that every callback keeps; it is interpreted for the publishers (\<open>pub\<close>, \<open>pub_count\<close>,
    \<open>counted\<close>), the coherent-set writers (\<open>pose\<close>), the session (\<open>session\<close>), the listener of the time-stamp subscriber (\<open>ts\<close>) and
    that of the historical-data subscriber, from any state it is attached in (\<open>hist\<close>), and two endpoints with a listener each (\<open>side\<close>). \<open>Example_Publisher\<close> adds the publisher
    side that is the same in several of them, \<open>Counted_Writer\<close> that of writers which only count their readers, \<open>Quiet_Kit\<close> the programs
    without listeners. On it stand \<open>Hello_World\<close> (\<open>examples/c/hello_world\<close>),
    \<open>Registry\<close> (\<open>examples/c/registry\<close>), \<open>Cft_Reconfigure\<close> and \<open>Cft_Publisher\<close> (\<open>integration-tests/c/cft-reconfigure\<close>), \<open>Waitset_Subscriber\<close> (\<open>examples/c/waitset\<close>, the subscriber with its watchdog
    thread), \<open>Ignore_Entities\<close> (\<open>integration-tests/c/ignore-entities\<close>, the ignorer), \<open>Coherent_Sets\<close>
    (\<open>integration-tests/c/coherent-sets\<close>), \<open>Session_Teardown\<close>
    (\<open>integration-tests/c/delete-contained-entities\<close>, the session), \<open>Timestamp_Events\<close> (\<open>integration-tests/c/source-timestamp\<close>),
    \<open>History_Replay\<close> (\<open>integration-tests/c/wait-for-historical-data\<close>) and \<open>Liveliness\<close> (\<open>integration-tests/c/liveliness-lost\<close>), each with a theory of contracts: the program ends, within a time limit, with a failure line and
    exit code 1 or with 0, and 0 means that what its header comment claims was observed.
    Where both sides are modelled a further theorem joins them: a subscriber fed with what the publisher
    wrote cannot fail on the data (\<open>Hello_Contracts\<close>, \<open>Coherent_Delivery\<close>, \<open>Timestamp_Contracts\<close>, \<open>History_Receiving\<close>). \<open>timestamp_subscriber_race\<close> shows
    a subscriber that can fail although the data is right, because its listener publishes a flag before the check the flag stands for.

  \<^item> \<open>Cpp_Handles\<close>, \<open>Cpp_Identity\<close> and \<open>Cpp_WaitSet\<close> model \<open>zzdds_cpp.hpp\<close>: owning wrappers with their scope
    guard, the caches that make wrappers unique (the conversion of a handle to its extended view is a parameter, and inserting
    into a cache may fail), and the release contexts of attached conditions
    under threads. Shown: handles are destroyed once, a live wrapper is the one returned, contexts are
    freed once and to the memory resource they came from.

  \<^bold>\<open>Bounds and fuel.\<close> Loops with a bound in the source are recursions with that bound. Fuel occurs where
  the source has none: the loops of the Shapes demo, the field queries of a filter evaluation, taking
  samples until there are none, and the wait loop. A contract that excludes \<open>OutOfFuel\<close> states how much fuel is
  enough: more than the iterations asked for, more than the fields a filter asks for, more than the
  samples in a row, more than \<open>601 * k + 2\<close> waits where at most \<open>k\<close> fit into one of the watchdog's 600
  periods of 50 ms. The loops of the coherent-set subscriber and of the session count only the waits that time out,
  so their contracts assume a bound \<open>m\<close> on the other wake-ups and ask for more than \<open>m + 30\<close> and \<open>m + 20\<close>
  iterations; \<open>coherent_subscriber_spins\<close> shows that without such a bound the loop need not end. The historical-data subscriber's own takes need more than the \<open>m\<close> samples the reader holds. Contracts without such a premise hold for every fuel and then speak of the paths
  on which the function returns.

  \<^bold>\<open>Not modelled.\<close> The Zig engine, as it is not C; generated code, as it is not in the repository; the
  declarations of \<open>include/zzdds_c.h\<close>, which have no bodies; the members of \<open>zzdds_cpp.hpp\<close> that pass their
  arguments on unchanged; help texts and the Windows variants of clocks, threads and signals; the ports
  of the examples and tests to C++, Java and Zig. Of the C programs, the peers of the tests whose program under test is modelled,
  and the remaining examples (catch-up, discovery, presence, raw loans, participant configuration, the custom-allocator programs, the publisher of
  the wait-set example) and tests (deferred enabling, rejected samples) are not modelled; they have the same shape and can be added on \<open>Example_Kit\<close>.
\<close>

end
